(* ===== verification/FS_Prelude.thy ===== *)
theory FS_Prelude
  imports
    Main
    "HOL-Library.Finite_Map"
    "HOL-Library.List_Lexorder"
    "HOL-Library.Char_ord"
    "HOL-Library.Multiset"
begin

text \<open>
  Shared vocabulary of the development: the status values every component returns, the
  identities of actors, the C++ containers and \<^verbatim>\<open>std::sort\<close>, and the generic lemmas on finite
  maps, lists and orderings that the component theories use.

  A \<^verbatim>\<open>std::map\<close> or \<^verbatim>\<open>std::unordered_map\<close> is a finite map of \<^verbatim>\<open>HOL-Library.Finite_Map\<close>:
  \<open>fmlookup\<close> is \<^verbatim>\<open>find\<close>, \<open>fmupd\<close> is \<^verbatim>\<open>m[k] = v\<close> and \<open>fmdrop\<close> is \<^verbatim>\<open>erase\<close>. An iteration
  over a \<^verbatim>\<open>std::map\<close> is a traversal of \<open>sorted_list_of_fmap\<close>, the entries in ascending key
  order; byte strings are compared byte by byte, as \<^verbatim>\<open>std::string\<close> compares them.
\<close>

named_theorems fs_inv \<open>preservation of the component invariants\<close>
named_theorems fs_frame \<open>what an operation leaves unchanged\<close>

section \<open>Status values (src/functionsystem/src/common/status/status.h)\<close>

datatype status_code =
    SUCCESS
  | FAILED
  | ERR_PARAM_INVALID
  | RESOURCE_NOT_ENOUGH
  | SCHEDULE_CONFLICTED
  | ERR_RESOURCE_NOT_ENOUGH
  | AFFINITY_SCHEDULE_FAILED
  | ERR_SCHEDULE_CANCELED
  | GS_SCHED_TOPOLOGY_BROKEN
  | PARAMETER_ERROR
  | REQUEST_TIME_OUT
  | META_STORE_BACK_UP_ERR
  | GRPC_DEADLINE_EXCEEDED
  | INSTANCE_TRANSACTION_WRONG_VERSION
  | INSTANCE_TRANSACTION_GET_INFO_FAILED
  | INSTANCE_TRANSACTION_WRONG_RESPONSE_SIZE
  | INSTANCE_TRANSACTION_DELETE_FAILED
  | INSTANCE_TRANSACTION_WRONG_PARAMETER
  | ERR_INSTANCE_NOT_FOUND
  | ERR_INSTANCE_INFO_INVALID
  | ERR_ETCD_OPERATION_ERROR
  | ERR_STATE_MACHINE_ERROR
  | ERR_LOCAL_SCHEDULER_ABNORMAL
  | BP_META_STORAGE_DELETE_ERROR
  | OTHER_CODE int

datatype status = Status (StatusCode: status_code) (RawMessage: string)

definition Status_OK :: status where
  "Status_OK = Status SUCCESS []"

definition IsOk :: "status \<Rightarrow> bool" where
  "IsOk st \<longleftrightarrow> StatusCode st = SUCCESS"

definition IsError :: "status \<Rightarrow> bool" where
  "IsError st \<longleftrightarrow> \<not> IsOk st"

lemma IsError_OK [simp]: "\<not> IsError Status_OK"
  by (simp add: IsError_def IsOk_def Status_OK_def)

lemma IsOk_OK [simp]: "IsOk Status_OK"
  by (simp add: IsOk_def Status_OK_def)

lemma IsError_Status [simp]: "IsError (Status c m) \<longleftrightarrow> c \<noteq> SUCCESS"
  by (simp add: IsError_def IsOk_def)

text \<open>An actor identity is its printed form \<^verbatim>\<open>name@url\<close>; the default \<^verbatim>\<open>AID()\<close> is empty and not
  \<^verbatim>\<open>OK()\<close>.\<close>

type_synonym aid = string

definition aid_ok :: "aid \<Rightarrow> bool" where
  "aid_ok a \<longleftrightarrow> a \<noteq> []"

section \<open>Strings\<close>

text \<open>\<^verbatim>\<open>std::string::substr(n)\<close>: throws \<^verbatim>\<open>std::out_of_range\<close> when the string is shorter.\<close>

definition substr_from :: "nat \<Rightarrow> string \<Rightarrow> string option" where
  "substr_from n s = (if n \<le> length s then Some (drop n s) else None)"

lemma substr_from_append [simp]: "substr_from (length p) (p @ s) = Some s"
  by (simp add: substr_from_def)

section \<open>Finite maps as C++ maps\<close>

lemma set_sorted_list_of_fmap:
  "set (sorted_list_of_fmap m) = {(k, v). fmlookup m k = Some v}"
  by (force simp: sorted_list_of_fmap_def fmlookup_dom_iff)

lemma mem_sorted_list_of_fmap [simp]:
  "(k, v) \<in> set (sorted_list_of_fmap m) \<longleftrightarrow> fmlookup m k = Some v"
  by (simp add: set_sorted_list_of_fmap)

lemma keys_sorted_list_of_fmap:
  "map fst (sorted_list_of_fmap m) = sorted_list_of_fset (fmdom m)"
  by (simp add: sorted_list_of_fmap_def comp_def)

lemma distinct_keys_sorted_list_of_fmap [simp]: "distinct (map fst (sorted_list_of_fmap m))"
  by (simp add: keys_sorted_list_of_fmap sorted_list_of_fset.rep_eq)

lemma sorted_keys_sorted_list_of_fmap [simp]: "sorted (map fst (sorted_list_of_fmap m))"
  by (simp add: keys_sorted_list_of_fmap sorted_list_of_fset.rep_eq)

lemma distinct_sorted_list_of_fmap [simp]: "distinct (sorted_list_of_fmap m)"
  using distinct_keys_sorted_list_of_fmap [of m] by (simp add: distinct_map)

lemma sorted_list_of_fmap_empty [simp]: "sorted_list_of_fmap fmempty = []"
  by (simp add: sorted_list_of_fmap_def sorted_list_of_fset.rep_eq)

text \<open>Erasing and assigning a list of keys in order.\<close>

definition fmdrop_all :: "'k list \<Rightarrow> ('k, 'v) fmap \<Rightarrow> ('k, 'v) fmap" where
  "fmdrop_all ks m = fold fmdrop ks m"

lemma fmlookup_fmdrop_all [simp]:
  "fmlookup (fmdrop_all ks m) k = (if k \<in> set ks then None else fmlookup m k)"
  by (induction ks arbitrary: m) (auto simp: fmdrop_all_def)

lemma fmdrop_all_Nil [simp]: "fmdrop_all [] m = m"
  by (simp add: fmdrop_all_def)

lemma fmdrop_all_eq: "fmdrop_all ks m = fmdrop_set (set ks) m"
  by (rule fmap_ext) simp

section \<open>\<^verbatim>\<open>std::sort\<close>\<close>

text \<open>
  \<^verbatim>\<open>std::sort\<close> with a comparator \<open>lt\<close>. The standard fixes the result up to the order of
  equivalent elements, for a comparator that is a strict weak ordering; the model keeps
  equivalent elements in their input order.
\<close>

fun ins_by :: "('a \<Rightarrow> 'a \<Rightarrow> bool) \<Rightarrow> 'a \<Rightarrow> 'a list \<Rightarrow> 'a list" where
  "ins_by lt x [] = [x]"
| "ins_by lt x (y # ys) = (if lt y x then y # ins_by lt x ys else x # y # ys)"

definition std_sort :: "('a \<Rightarrow> 'a \<Rightarrow> bool) \<Rightarrow> 'a list \<Rightarrow> 'a list" where
  "std_sort lt xs = foldr (ins_by lt) xs []"

lemma mset_ins_by [simp]: "mset (ins_by lt x xs) = add_mset x (mset xs)"
  by (induction xs) auto

lemma mset_std_sort [simp]: "mset (std_sort lt xs) = mset xs"
  by (induction xs) (auto simp: std_sort_def)

lemma set_std_sort [simp]: "set (std_sort lt xs) = set xs"
  by (metis mset_std_sort set_mset_mset)

lemma length_std_sort [simp]: "length (std_sort lt xs) = length xs"
  by (metis mset_std_sort size_mset)

text \<open>The contract of a comparator: a strict weak ordering.\<close>

locale strict_weak_order =
  fixes lt :: "'a \<Rightarrow> 'a \<Rightarrow> bool"
  assumes asym: "lt x y \<Longrightarrow> \<not> lt y x"
    and neg_trans: "\<not> lt x y \<Longrightarrow> \<not> lt y z \<Longrightarrow> \<not> lt x z"
begin

lemma set_ins_by: "set (ins_by lt x xs) = insert x (set xs)"
  by (induction xs) auto

lemma sorted_ins_by:
  "sorted_wrt (\<lambda>a b. \<not> lt b a) xs \<Longrightarrow> sorted_wrt (\<lambda>a b. \<not> lt b a) (ins_by lt x xs)"
proof (induction xs)
  case Nil
  then show ?case by simp
next
  case (Cons y ys)
  then show ?case
    by (auto simp: set_ins_by dest: asym neg_trans)
qed

lemma sorted_std_sort: "sorted_wrt (\<lambda>a b. \<not> lt b a) (std_sort lt xs)"
  by (induction xs) (auto simp: std_sort_def sorted_ins_by)

lemma std_sort_head_least: "std_sort lt xs = y # ys \<Longrightarrow> z \<in> set xs \<Longrightarrow> \<not> lt z y"
proof -
  assume h: "std_sort lt xs = y # ys" and z: "z \<in> set xs"
  have "set xs = insert y (set ys)"
    using set_std_sort [of lt xs] h by simp
  moreover have "\<forall>w \<in> set ys. \<not> lt w y"
    using sorted_std_sort [of xs] h by simp
  moreover have "\<not> lt y y" using asym by blast
  ultimately show ?thesis using z by auto
qed

end

text \<open>The comparators of the code compare one field of a linearly ordered type.\<close>

definition lt_by :: "('a \<Rightarrow> 'k::linorder) \<Rightarrow> 'a \<Rightarrow> 'a \<Rightarrow> bool" where
  "lt_by f x y \<longleftrightarrow> f x < f y"

definition gt_by :: "('a \<Rightarrow> 'k::linorder) \<Rightarrow> 'a \<Rightarrow> 'a \<Rightarrow> bool" where
  "gt_by f x y \<longleftrightarrow> f x > f y"

interpretation lt_by: strict_weak_order "lt_by f" for f
  by unfold_locales (auto simp: lt_by_def)

interpretation gt_by: strict_weak_order "gt_by f" for f
  by unfold_locales (auto simp: gt_by_def)

section \<open>Lists\<close>

lemma sorted_wrt_not_gt: "sorted_wrt (\<lambda>a b. \<not> lt_by f b a) xs \<longleftrightarrow> sorted (map f xs)"
  by (simp add: sorted_map lt_by_def not_less)

lemma sorted_wrt_not_lt: "sorted_wrt (\<lambda>a b. \<not> gt_by f b a) xs \<longleftrightarrow> sorted (rev (map f xs))"
  by (simp add: gt_by_def not_less sorted_wrt_rev sorted_map sorted_wrt_map flip: rev_map)

lemma distinct_map_filter_fst: "distinct (map fst xs) \<Longrightarrow> distinct (map fst (filter P xs))"
  by (induction xs) auto

end
