(* ===== verification/Kv_Types.thy ===== *)
theory Kv_Types
  imports FS_Prelude
begin

text \<open>
  The messages of the meta store: the key-value record of etcd's \<^verbatim>\<open>mvccpb\<close> package, the
  requests and responses of the key-value service, and the records the store's actors
  exchange. A protobuf message is a record of its fields; an unset field has its default value
  and an unset sub-message is \<open>None\<close>. Byte strings that hold a serialised message are
  represented by the message where only its holder reads them.
\<close>

section \<open>Key-value records\<close>

record key_value =
  kv_key :: string
  kv_value :: string
  kv_lease :: int
  kv_version :: int
  kv_mod_revision :: int
  kv_create_revision :: int

definition kv_default :: key_value where
  "kv_default = \<lparr>kv_key = [], kv_value = [], kv_lease = 0, kv_version = 0,
     kv_mod_revision = 0, kv_create_revision = 0\<rparr>"

lemma kv_default_sels [simp]:
  "kv_key kv_default = []" "kv_value kv_default = []" "kv_lease kv_default = 0"
  "kv_version kv_default = 0" "kv_mod_revision kv_default = 0" "kv_create_revision kv_default = 0"
  by (simp_all add: kv_default_def)

section \<open>Put\<close>

text \<open>\<^verbatim>\<open>messages::MetaStore::PutRequest\<close> and \<^verbatim>\<open>PutResponse\<close>.\<close>

record put_request =
  pr_requestid :: string
  pr_key :: string
  pr_value :: string
  pr_lease :: int
  pr_prevkv :: bool
  pr_asyncbackup :: bool

record put_response =
  ps_requestid :: string
  ps_status :: status_code
  ps_errormsg :: string
  ps_prevkv :: "key_value option"
  ps_revision :: int

definition put_response_default :: put_response where
  "put_response_default = \<lparr>ps_requestid = [], ps_status = SUCCESS, ps_errormsg = [],
     ps_prevkv = None, ps_revision = 0\<rparr>"

text \<open>\<^verbatim>\<open>etcdserverpb::PutRequest\<close> and \<^verbatim>\<open>PutResponse\<close>, the form used inside a transaction.\<close>

record etcd_put_request =
  ep_key :: string
  ep_value :: string
  ep_lease :: int
  ep_prev_kv :: bool

record etcd_put_response =
  es_revision :: int
  es_cluster_id :: int
  es_prev_kv :: "key_value option"

section \<open>Delete and range\<close>

record delete_range_request =
  dr_key :: string
  dr_range_end :: string
  dr_prev_kv :: bool

record delete_range_response =
  ds_cluster_id :: int
  ds_revision :: int
  ds_deleted :: int
  ds_prev_kvs :: "key_value list"

datatype sort_order = NONE | ASCEND | DESCEND

datatype sort_target = SORT_KEY | SORT_VERSION | SORT_CREATE | SORT_MOD | SORT_VALUE | SORT_OTHER

record range_request =
  rr_key :: string
  rr_range_end :: string
  rr_count_only :: bool
  rr_keys_only :: bool
  rr_sort_order :: sort_order
  rr_sort_target :: sort_target

record range_response =
  rs_cluster_id :: int
  rs_revision :: int
  rs_count :: int
  rs_kvs :: "key_value list"

section \<open>Transactions\<close>

datatype compare_result = EQUAL | GREATER | LESS | NOT_EQUAL | RESULT_OTHER

datatype compare_target = CMP_VERSION | CMP_CREATE | CMP_MOD | CMP_VALUE | CMP_LEASE | CMP_OTHER

record compare =
  cmp_key :: string
  cmp_result :: compare_result
  cmp_target :: compare_target
  cmp_version :: int
  cmp_create_revision :: int
  cmp_mod_revision :: int
  cmp_value :: string
  cmp_lease :: int

datatype request_op =
    RequestRange range_request
  | RequestPut etcd_put_request
  | RequestDeleteRange delete_range_request
  | RequestTxn
  | REQUEST_NOT_SET

datatype response_op =
    ResponseRange range_response
  | ResponsePut etcd_put_response
  | ResponseDeleteRange delete_range_response

record txn_request =
  tr_compare :: "compare list"
  tr_success :: "request_op list"
  tr_failure :: "request_op list"

record txn_response =
  ts_cluster_id :: int
  ts_revision :: int
  ts_succeeded :: bool
  ts_responses :: "response_op list"

text \<open>
  What a transaction is about to write (\<^verbatim>\<open>PutResults\<close>, \<^verbatim>\<open>DeleteResults\<close>, \<^verbatim>\<open>TxnResults\<close>): the new
  and the previous record of every put, and the records every delete removes.
\<close>

type_synonym put_results = "key_value \<times> key_value"
type_synonym delete_results = "key_value list"
type_synonym txn_results = "put_results list \<times> delete_results list"

section \<open>Watches\<close>

record watch_create_request =
  wc_key :: string
  wc_range_end :: string
  wc_prev_kv :: bool

record watch_response =
  wr_watch_id :: int
  wr_created :: bool

text \<open>\<^verbatim>\<open>WatchEvent\<close>, an event of the backup store: the key, and the serialised record.\<close>

datatype event_type = EVENT_TYPE_PUT | EVENT_TYPE_DELETE | EVENT_TYPE_OTHER

record watch_event =
  we_type :: event_type
  we_key :: string
  we_value :: string

text \<open>\<^verbatim>\<open>GetResponse\<close> of the backup store: its status, header revision and key-value pairs.\<close>

record get_response =
  gr_status :: status
  gr_revision :: int
  gr_kvs :: "(string \<times> string) list"

section \<open>Client requests and the messages an actor sends\<close>

text \<open>\<^verbatim>\<open>messages::MetaStoreRequest\<close>: \<open>rq_payload\<close> is what \<^verbatim>\<open>ParseFromString\<close> makes of
  \<^verbatim>\<open>requestmsg\<close>, \<open>None\<close> when the bytes are not a message of the expected type.\<close>

record 'p meta_request =
  rq_requestid :: string
  rq_payload :: "'p option"
  rq_asyncbackup :: bool

record 'p meta_response =
  ms_responseid :: string
  ms_status :: status_code
  ms_errormsg :: string
  ms_payload :: 'p

datatype kv_msg =
    WatchOnPut key_value key_value
  | WatchOnDeleteList "key_value list"
  | WatchOnDelete key_value
  | WatchCreate aid string watch_create_request
  | WatchCreateWatch aid watch_create_request
  | WatchSendGetAndWatch aid string range_response watch_response
  | LeaseAttach string int
  | BackupWritePut key_value bool
  | BackupWriteDeletes "key_value list" bool
  | BackupWriteTxn txn_results bool
  | BackupGet string
  | BackupWatch string int
  | SendOnPut aid put_response
  | SendOnDelete aid "delete_range_response meta_response"
  | SendOnGet aid "range_response meta_response"
  | SendOnTxn aid "txn_response meta_response"

end
