(* ===== verification/Kv_Service.thy ===== *)
theory Kv_Service
  imports Kv_Types
begin

text \<open>
  The key-value service of the meta store
  (\<^verbatim>\<open>src/functionsystem/src/meta_store/server/src/kv_service_actor.cpp\<close>): an etcd-like store with a
  revision counter, writes that wait for the backup before they become visible, transactions,
  leases, watches, and a follower mode that replays the backup store's events.

  \<open>kv_state\<close> is the actor's state; \<open>outbox\<close> collects, in order, the messages the actor sends
  with \<^verbatim>\<open>litebus::Async\<close> and \<^verbatim>\<open>Send\<close>. An operation takes the state and returns its result and the
  next state. A request that waits for the backup returns \<open>Await\<close> with the rest of its work;
  \<open>resume\<close> runs that rest when the backup answers.

  The state before \<open>Init\<close> has no business object; \<open>InitExplorer\<close> chooses it. Requests and
  responses are references in the code and never null here.
\<close>

section \<open>State\<close>

definition META_STORE_CLUSTER_ID :: int where "META_STORE_CLUSTER_ID = 123456"

definition META_STORE_BACKUP_KV_PREFIX :: string where
  "META_STORE_BACKUP_KV_PREFIX = ''/metastore/kv/''"

definition MASTER_BUSINESS :: string where "MASTER_BUSINESS = ''master''"
definition SLAVE_BUSINESS :: string where "SLAVE_BUSINESS = ''slave''"

datatype request_case = kRequestPut | kRequestDeleteRange

record ongoing_event =
  oe_type :: request_case
  oe_kv :: key_value
  oe_preKv :: key_value

datatype business = MasterBusiness | SlaveBusiness

record kv_state =
  modRevision :: int
  ongoing :: "(string, ongoing_event) fmap"
  cache :: "(string, key_value) fmap"
  watchServiceActor_ok :: bool
  backupActor_ok :: bool
  needExplore :: bool
  curStatus :: string
  business :: "business option"
  healthyStatus :: status
  outbox :: "kv_msg list"

definition emit :: "kv_msg \<Rightarrow> kv_state \<Rightarrow> kv_state" where
  "emit m s = s\<lparr>outbox := outbox s @ [m]\<rparr>"

datatype kv_cont =
    PutCont aid put_request put_response
  | DeleteCont aid "delete_range_request meta_request" delete_results delete_range_response
  | TxnCont aid "txn_request meta_request" txn_results txn_response

text \<open>\<open>AwaitWatch\<close> waits for the watch service to create a watcher; \<open>OnAsyncGetAndWatch\<close> runs
  the rest. \<open>Aborted\<close> stands for \<^verbatim>\<open>ASSERT_IF_NULL\<close> raising \<^verbatim>\<open>SIGINT\<close>.\<close>

datatype kv_future =
    Ready status
  | Await kv_cont
  | AwaitWatch aid string watch_create_request
  | Aborted

section \<open>Start-up and leader changes\<close>

definition KvServiceActor :: "bool \<Rightarrow> bool \<Rightarrow> kv_state" where
  "KvServiceActor backup explore =
     \<lparr>modRevision = 0, ongoing = fmempty, cache = fmempty, watchServiceActor_ok = False,
      backupActor_ok = backup, needExplore = (if backup then explore else False),
      curStatus = [], business = None, healthyStatus = Status_OK, outbox = []\<rparr>"

definition InitExplorer :: "kv_state \<Rightarrow> kv_state" where
  "InitExplorer s =
     (if needExplore s then s\<lparr>business := Some SlaveBusiness, curStatus := SLAVE_BUSINESS\<rparr>
      else s\<lparr>business := Some MasterBusiness, curStatus := MASTER_BUSINESS\<rparr>)"

definition GetStatus :: "aid \<Rightarrow> aid \<Rightarrow> string \<Rightarrow> string" where
  "GetStatus curUrl masterUrl cur =
     (let st = (if curUrl = masterUrl then MASTER_BUSINESS else SLAVE_BUSINESS)
      in if cur = st then [] else st)"

definition UpdateLeaderInfo :: "string \<Rightarrow> string \<Rightarrow> kv_state \<Rightarrow> bool \<times> kv_state" where
  "UpdateLeaderInfo selfUrl leaderUrl s =
     (let newStatus = GetStatus selfUrl leaderUrl (curStatus s)
      in if newStatus = MASTER_BUSINESS
         then (True, s\<lparr>business := Some MasterBusiness, curStatus := newStatus\<rparr>)
         else if newStatus = SLAVE_BUSINESS
         then (True, s\<lparr>business := Some SlaveBusiness, curStatus := newStatus\<rparr>)
         else (False, s))"

definition CheckAndCreateWatchServiceActor :: "kv_state \<Rightarrow> kv_state" where
  "CheckAndCreateWatchServiceActor s =
     (if \<not> watchServiceActor_ok s then s\<lparr>watchServiceActor_ok := True\<rparr> else s)"

definition OnHealthyStatus :: "status \<Rightarrow> kv_state \<Rightarrow> kv_state" where
  "OnHealthyStatus st s = s\<lparr>healthyStatus := st\<rparr>"

section \<open>Writes in progress\<close>

definition CheckUniqueOngoingValid :: "string \<Rightarrow> kv_state \<Rightarrow> bool" where
  "CheckUniqueOngoingValid k s \<longleftrightarrow> fmlookup (ongoing s) k = None"

definition CheckDeletesOngoingValid :: "delete_results \<Rightarrow> kv_state \<Rightarrow> bool" where
  "CheckDeletesOngoingValid deletes s \<longleftrightarrow>
     list_all (\<lambda>kv. case fmlookup (ongoing s) (kv_key kv) of
        None \<Rightarrow> True
      | Some e \<Rightarrow> oe_type e = kRequestDeleteRange) deletes"

definition CheckTxnOngoingValid :: "txn_results \<Rightarrow> kv_state \<Rightarrow> bool" where
  "CheckTxnOngoingValid txn s \<longleftrightarrow>
     list_all (\<lambda>puts. CheckUniqueOngoingValid (kv_key (fst puts)) s) (fst txn) \<and>
     list_all (\<lambda>deletes. CheckDeletesOngoingValid deletes s) (snd txn)"

definition InsertUniqueOngoing ::
  "request_case \<Rightarrow> key_value \<Rightarrow> key_value \<Rightarrow> kv_state \<Rightarrow> kv_state" where
  "InsertUniqueOngoing t kv preKv s =
     s\<lparr>ongoing := fmupd (kv_key kv) \<lparr>oe_type = t, oe_kv = kv, oe_preKv = preKv\<rparr> (ongoing s)\<rparr>"

definition InsertDeleteOngoing :: "delete_results \<Rightarrow> kv_state \<Rightarrow> kv_state" where
  "InsertDeleteOngoing deletes s =
     fold (\<lambda>kv. InsertUniqueOngoing kRequestDeleteRange kv kv_default) deletes s"

definition InsertTxnOngoing :: "txn_results \<Rightarrow> kv_state \<Rightarrow> kv_state" where
  "InsertTxnOngoing txn s =
     fold InsertDeleteOngoing (snd txn)
       (fold (\<lambda>puts. InsertUniqueOngoing kRequestPut (fst puts) (snd puts)) (fst txn) s)"

section \<open>Put\<close>

definition cached :: "string \<Rightarrow> kv_state \<Rightarrow> key_value" where
  "cached k s = (case fmlookup (cache s) k of Some kv \<Rightarrow> kv | None \<Rightarrow> kv_default)"

definition TryPutCache :: "put_request \<Rightarrow> kv_state \<Rightarrow> put_results \<times> put_response \<times> kv_state" where
  "TryPutCache req s =
     (let prevKv = cached (pr_key req) s;
          found = kv_key prevKv \<noteq> [];
          rev = modRevision s + 1;
          kv = (if found
                then prevKv\<lparr>kv_version := kv_version prevKv + 1, kv_mod_revision := rev\<rparr>
                else prevKv\<lparr>kv_key := pr_key req, kv_version := 1, kv_mod_revision := rev,
                       kv_create_revision := rev\<rparr>);
          kv = kv\<lparr>kv_value := pr_value req, kv_lease := pr_lease req\<rparr>;
          response = put_response_default\<lparr>ps_requestid := pr_requestid req,
            ps_prevkv := (if found \<and> pr_prevkv req then Some prevKv else None),
            ps_revision := rev\<rparr>
      in ((kv, prevKv), response,
          emit (LeaseAttach (pr_key req) (pr_lease req)) (s\<lparr>modRevision := rev\<rparr>)))"

definition OnTryPutCache :: "string \<Rightarrow> status \<Rightarrow> kv_state \<Rightarrow> status \<times> kv_state" where
  "OnTryPutCache key st s =
     (if IsError st then (st, s\<lparr>ongoing := fmdrop key (ongoing s)\<rparr>)
      else case fmlookup (ongoing s) key of
        None \<Rightarrow> (st, s)
      | Some e \<Rightarrow>
          (Status_OK,
           (emit (WatchOnPut (oe_kv e) (oe_preKv e)) (s\<lparr>cache := fmupd key (oe_kv e) (cache s)\<rparr>))
             \<lparr>ongoing := fmdrop key (ongoing s)\<rparr>))"

definition OnAsyncPut ::
  "aid \<Rightarrow> put_request \<Rightarrow> put_response \<Rightarrow> status \<Rightarrow> kv_state \<Rightarrow> status \<times> kv_state" where
  "OnAsyncPut from req resp st s =
     (let resp = (if IsError st
                  then resp\<lparr>ps_status := StatusCode st, ps_errormsg := RawMessage st\<rparr> else resp)
      in (Status_OK, emit (SendOnPut from resp) s))"

definition AsyncPut_Master :: "aid \<Rightarrow> put_request \<Rightarrow> kv_state \<Rightarrow> kv_future \<times> kv_state" where
  "AsyncPut_Master from req s =
     (let s = CheckAndCreateWatchServiceActor s
      in if \<not> CheckUniqueOngoingValid (pr_key req) s
         then (Ready (Status FAILED ''async put failed.''), s)
         else
           let (puts, resp, s) = TryPutCache req s;
               s = InsertUniqueOngoing kRequestPut (fst puts) (snd puts) s;
               s = (if backupActor_ok s then emit (BackupWritePut (fst puts) (pr_asyncbackup req)) s
                    else s)
           in if backupActor_ok s \<and> \<not> pr_asyncbackup req then (Await (PutCont from req resp), s)
              else
                let (_, s) = OnTryPutCache (pr_key req) Status_OK s;
                    (st, s) = OnAsyncPut from req resp Status_OK s
                in (Ready st, s))"

text \<open>
  \<open>TryPut\<close> moves the previous record into the response and then returns it again
  (\<^verbatim>\<open>std::move(preKv)\<close>, line 434). What a moved-from protobuf message holds is not fixed by this
  code: \<open>moved\<close> gives it, as a function of the value before the move.
\<close>

definition TryPut ::
  "(key_value \<Rightarrow> key_value) \<Rightarrow> etcd_put_request \<Rightarrow> kv_state \<Rightarrow>
     put_results \<times> etcd_put_response \<times> kv_state" where
  "TryPut moved ereq s =
     (let req = \<lparr>pr_requestid = [], pr_key = ep_key ereq, pr_value = ep_value ereq,
            pr_lease = ep_lease ereq, pr_prevkv = ep_prev_kv ereq, pr_asyncbackup = False\<rparr>;
          ((kv, preKv), resp, s) = TryPutCache req s;
          giveprev = (pr_prevkv req \<and> kv_key preKv \<noteq> []);
          eresp = \<lparr>es_revision = ps_revision resp, es_cluster_id = META_STORE_CLUSTER_ID,
            es_prev_kv = (if giveprev then Some preKv else None)\<rparr>
      in ((kv, if giveprev then moved preKv else preKv), eresp, s))"

definition Put ::
  "(key_value \<Rightarrow> key_value) \<Rightarrow> etcd_put_request \<Rightarrow> kv_state \<Rightarrow>
     (put_results \<times> etcd_put_response) option \<times> kv_state" where
  "Put moved ereq s =
     (if \<not> CheckUniqueOngoingValid (ep_key ereq) s then (None, s)
      else
        let (puts, eresp, s) = TryPut moved ereq s;
            s = InsertUniqueOngoing kRequestPut (fst puts) (snd puts) s;
            (_, s) = OnTryPutCache (ep_key ereq) Status_OK s
        in (Some (puts, eresp), s))"

section \<open>Delete\<close>

definition in_range :: "string \<Rightarrow> string \<Rightarrow> string \<Rightarrow> bool" where
  "in_range key range_end k \<longleftrightarrow> \<not> (k < key \<or> k \<ge> range_end)"

definition AddPrevKv :: "key_value \<Rightarrow> delete_range_response \<Rightarrow> delete_range_response" where
  "AddPrevKv kv resp = resp\<lparr>ds_prev_kvs := ds_prev_kvs resp @
     [\<lparr>kv_key = kv_key kv, kv_value = kv_value kv, kv_lease = kv_lease kv,
       kv_version = kv_version kv, kv_mod_revision = kv_mod_revision kv,
       kv_create_revision = kv_create_revision kv\<rparr>]\<rparr>"

definition TryDeleteRange ::
  "delete_range_request \<Rightarrow> kv_state \<Rightarrow> delete_results \<times> delete_range_response" where
  "TryDeleteRange req s =
     (let deletes =
            (if dr_range_end req = []
             then (case fmlookup (cache s) (dr_key req) of Some kv \<Rightarrow> [kv] | None \<Rightarrow> [])
             else map snd (filter (\<lambda>(k, kv). in_range (dr_key req) (dr_range_end req) k)
                    (sorted_list_of_fmap (cache s))));
          resp = \<lparr>ds_cluster_id = META_STORE_CLUSTER_ID, ds_revision = modRevision s,
            ds_deleted = 0, ds_prev_kvs = []\<rparr>;
          resp = (if dr_prev_kv req then fold AddPrevKv deletes resp else resp)
      in (deletes, resp\<lparr>ds_deleted := int (length deletes)\<rparr>))"

definition OnTryDeleteRange :: "delete_results \<Rightarrow> status \<Rightarrow> kv_state \<Rightarrow> status \<times> kv_state" where
  "OnTryDeleteRange deletes st s =
     (if IsError st then (st, s\<lparr>ongoing := fmdrop_all (map kv_key deletes) (ongoing s)\<rparr>)
      else if deletes = [] then (Status_OK, s)
      else (Status_OK,
        emit (WatchOnDeleteList deletes)
          (s\<lparr>cache := fmdrop_all (map kv_key deletes) (cache s),
             ongoing := fmdrop_all (map kv_key deletes) (ongoing s)\<rparr>)))"

definition OnAsyncDelete ::
  "aid \<Rightarrow> delete_range_request meta_request \<Rightarrow> delete_range_response \<Rightarrow> status \<Rightarrow> kv_state \<Rightarrow>
     status \<times> kv_state" where
  "OnAsyncDelete from req dresp st s =
     (let resp = \<lparr>ms_responseid = rq_requestid req,
            ms_status = (if IsError st then StatusCode st else SUCCESS),
            ms_errormsg = (if IsError st then RawMessage st else []), ms_payload = dresp\<rparr>
      in (Status_OK, emit (SendOnDelete from resp) s))"

definition AsyncDelete_Master ::
  "aid \<Rightarrow> delete_range_request meta_request \<Rightarrow> kv_state \<Rightarrow> kv_future \<times> kv_state" where
  "AsyncDelete_Master from req s =
     (case rq_payload req of
        None \<Rightarrow> (Ready (Status FAILED ''receive illegal delete request''), s)
      | Some payload \<Rightarrow>
          let (deletes, resp) = TryDeleteRange payload s
          in if \<not> CheckDeletesOngoingValid deletes s
             then (Ready (Status FAILED ''receive illegal delete request''), s)
             else
               let s = InsertDeleteOngoing deletes s;
                   s = (if backupActor_ok s
                        then emit (BackupWriteDeletes deletes (rq_asyncbackup req)) s else s)
               in if backupActor_ok s \<and> \<not> rq_asyncbackup req
                  then (Await (DeleteCont from req deletes resp), s)
                  else
                    let (_, s) = OnTryDeleteRange deletes Status_OK s;
                        (st, s) = OnAsyncDelete from req resp Status_OK s
                    in (Ready st, s))"

definition DeleteRange ::
  "delete_range_request \<Rightarrow> kv_state \<Rightarrow> (delete_results \<times> delete_range_response) option \<times> kv_state" where
  "DeleteRange req s =
     (let (deletes, resp) = TryDeleteRange req s
      in if \<not> CheckDeletesOngoingValid deletes s then (None, s)
         else
           let s = InsertDeleteOngoing deletes s;
               (_, s) = OnTryDeleteRange deletes Status_OK s
           in (Some (deletes, resp), s))"

section \<open>Range\<close>

definition SortTarget :: "range_request \<Rightarrow> key_value list \<Rightarrow> key_value list" where
  "SortTarget req targets =
     (let desc = (rr_sort_order req = DESCEND)
      in case rr_sort_target req of
        SORT_KEY \<Rightarrow> std_sort (if desc then gt_by kv_key else lt_by kv_key) targets
      | SORT_VERSION \<Rightarrow> std_sort (if desc then gt_by kv_version else lt_by kv_version) targets
      | SORT_CREATE \<Rightarrow>
          std_sort (if desc then gt_by kv_create_revision else lt_by kv_create_revision) targets
      | SORT_MOD \<Rightarrow> std_sort (if desc then gt_by kv_mod_revision else lt_by kv_mod_revision) targets
      | SORT_VALUE \<Rightarrow> std_sort (if desc then gt_by kv_value else lt_by kv_value) targets
      | SORT_OTHER \<Rightarrow> targets)"

definition range_kv :: "bool \<Rightarrow> string \<Rightarrow> key_value \<Rightarrow> key_value" where
  "range_kv keys_only k kv = kv_default\<lparr>kv_key := k, kv_mod_revision := kv_mod_revision kv,
     kv_value := (if keys_only then [] else kv_value kv)\<rparr>"

definition range_targets :: "range_request \<Rightarrow> kv_state \<Rightarrow> key_value list" where
  "range_targets req s =
     map snd (filter (\<lambda>(k, kv). in_range (rr_key req) (rr_range_end req) k)
       (sorted_list_of_fmap (cache s)))"

definition Range :: "range_request \<Rightarrow> kv_state \<Rightarrow> range_response" where
  "Range req s =
     (let resp = \<lparr>rs_cluster_id = META_STORE_CLUSTER_ID, rs_revision = modRevision s,
            rs_count = 0, rs_kvs = []\<rparr>
      in if rr_range_end req = []
         then (case fmlookup (cache s) (rr_key req) of
             None \<Rightarrow> resp
           | Some kv \<Rightarrow>
               let resp = resp\<lparr>rs_count := 1\<rparr>
               in if rr_count_only req then resp
                  else resp\<lparr>rs_kvs := [range_kv (rr_keys_only req) (rr_key req) kv]\<rparr>)
         else
           let targets = range_targets req s;
               resp = resp\<lparr>rs_count := int (length targets)\<rparr>
           in if rr_count_only req then resp
              else resp\<lparr>rs_kvs := map (\<lambda>kv. range_kv (rr_keys_only req) (kv_key kv) kv)
                     (SortTarget req targets)\<rparr>)"

definition OnAsyncGet ::
  "aid \<Rightarrow> range_request meta_request \<Rightarrow> range_response \<Rightarrow> kv_state \<Rightarrow> status \<times> kv_state" where
  "OnAsyncGet from req gresp s =
     (Status_OK, emit (SendOnGet from \<lparr>ms_responseid = rq_requestid req, ms_status = SUCCESS,
        ms_errormsg = [], ms_payload = gresp\<rparr>) s)"

definition AsyncGet_Master ::
  "aid \<Rightarrow> range_request meta_request \<Rightarrow> kv_state \<Rightarrow> kv_future \<times> kv_state" where
  "AsyncGet_Master from req s =
     (case rq_payload req of
        None \<Rightarrow> (Ready (Status FAILED ''receive illegal get payload''), s)
      | Some payload \<Rightarrow>
          let (st, s) = OnAsyncGet from req (Range payload s) s in (Ready st, s))"

section \<open>Transactions\<close>

definition TxnIfCompare :: "'a::linorder \<Rightarrow> compare_result \<Rightarrow> 'a \<Rightarrow> bool" where
  "TxnIfCompare source operation target =
     (case operation of
        EQUAL \<Rightarrow> source = target
      | GREATER \<Rightarrow> source > target
      | LESS \<Rightarrow> source < target
      | NOT_EQUAL \<Rightarrow> source \<noteq> target
      | RESULT_OTHER \<Rightarrow> False)"

definition txn_if_one :: "kv_state \<Rightarrow> compare \<Rightarrow> bool" where
  "txn_if_one s c =
     (let it = fmlookup (cache s) (cmp_key c);
          num = (\<lambda>sel. case it of None \<Rightarrow> 0 | Some kv \<Rightarrow> sel kv)
      in case cmp_target c of
        CMP_VERSION \<Rightarrow> TxnIfCompare (num kv_version) (cmp_result c) (cmp_version c)
      | CMP_CREATE \<Rightarrow> TxnIfCompare (num kv_create_revision) (cmp_result c) (cmp_create_revision c)
      | CMP_MOD \<Rightarrow> TxnIfCompare (num kv_mod_revision) (cmp_result c) (cmp_mod_revision c)
      | CMP_VALUE \<Rightarrow> (case it of None \<Rightarrow> False
          | Some kv \<Rightarrow> TxnIfCompare (kv_value kv) (cmp_result c) (cmp_value c))
      | CMP_LEASE \<Rightarrow> TxnIfCompare (num kv_lease) (cmp_result c) (cmp_lease c)
      | CMP_OTHER \<Rightarrow> False)"

definition TxnIf :: "txn_request \<Rightarrow> kv_state \<Rightarrow> bool" where
  "TxnIf req s \<longleftrightarrow> list_all (txn_if_one s) (tr_compare req)"

type_synonym txn_acc = "txn_results \<times> response_op list \<times> kv_state"

fun TxnCommon :: "(key_value \<Rightarrow> key_value) \<Rightarrow> request_op \<Rightarrow> txn_acc \<Rightarrow> txn_acc" where
  "TxnCommon moved (RequestRange r) (txn, resps, s) =
     (txn, resps @ [ResponseRange (Range r s)], s)"
| "TxnCommon moved (RequestPut p) ((puts, dels), resps, s) =
     (let (put, eresp, s) = TryPut moved p s
      in ((puts @ [put], dels), resps @ [ResponsePut eresp], s))"
| "TxnCommon moved (RequestDeleteRange d) ((puts, dels), resps, s) =
     (let (deletes, dresp) = TryDeleteRange d s
      in ((puts, dels @ [deletes]), resps @ [ResponseDeleteRange dresp], s))"
| "TxnCommon moved RequestTxn acc = acc"
| "TxnCommon moved REQUEST_NOT_SET acc = acc"

definition txn_branch ::
  "(key_value \<Rightarrow> key_value) \<Rightarrow> request_op list \<Rightarrow> kv_state \<Rightarrow> txn_acc" where
  "txn_branch moved ops s = fold (TxnCommon moved) ops (([], []), [], s)"

definition TxnThen ::
  "(key_value \<Rightarrow> key_value) \<Rightarrow> txn_request \<Rightarrow> txn_response \<Rightarrow> kv_state \<Rightarrow>
     txn_results \<times> txn_response \<times> kv_state" where
  "TxnThen moved req resp s =
     (let (txn, resps, s) = txn_branch moved (tr_success req) s
      in (txn, resp\<lparr>ts_succeeded := True, ts_responses := ts_responses resp @ resps\<rparr>, s))"

definition TxnElse ::
  "(key_value \<Rightarrow> key_value) \<Rightarrow> txn_request \<Rightarrow> txn_response \<Rightarrow> kv_state \<Rightarrow>
     txn_results \<times> txn_response \<times> kv_state" where
  "TxnElse moved req resp s =
     (let (txn, resps, s) = txn_branch moved (tr_failure req) s
      in (txn, resp\<lparr>ts_succeeded := False, ts_responses := ts_responses resp @ resps\<rparr>, s))"

definition TryTxn ::
  "(key_value \<Rightarrow> key_value) \<Rightarrow> txn_request \<Rightarrow> kv_state \<Rightarrow> txn_results \<times> txn_response \<times> kv_state" where
  "TryTxn moved req s =
     (let resp = \<lparr>ts_cluster_id = META_STORE_CLUSTER_ID, ts_revision = modRevision s,
            ts_succeeded = False, ts_responses = []\<rparr>
      in if TxnIf req s then TxnThen moved req resp s else TxnElse moved req resp s)"

definition OnTryTxn :: "txn_results \<Rightarrow> status \<Rightarrow> kv_state \<Rightarrow> status \<times> kv_state" where
  "OnTryTxn txn st s =
     (if IsError st
      then (st, s\<lparr>ongoing := fmdrop_all
             (map (kv_key \<circ> fst) (fst txn) @ map kv_key (concat (snd txn))) (ongoing s)\<rparr>)
      else
        let s = fold (\<lambda>puts s. snd (OnTryPutCache (kv_key (fst puts)) Status_OK s)) (fst txn) s;
            s = fold (\<lambda>deletes s. snd (OnTryDeleteRange deletes Status_OK s)) (snd txn) s
        in (Status_OK, s))"

definition OnAsyncTxn ::
  "aid \<Rightarrow> txn_request meta_request \<Rightarrow> txn_response \<Rightarrow> status \<Rightarrow> kv_state \<Rightarrow> status \<times> kv_state" where
  "OnAsyncTxn from req tresp st s =
     (let resp = \<lparr>ms_responseid = rq_requestid req,
            ms_status = (if IsError st then StatusCode st else SUCCESS),
            ms_errormsg = (if IsError st then RawMessage st else []), ms_payload = tresp\<rparr>
      in (Status_OK, emit (SendOnTxn from resp) s))"

definition AsyncTxn_Master ::
  "(key_value \<Rightarrow> key_value) \<Rightarrow> aid \<Rightarrow> txn_request meta_request \<Rightarrow> kv_state \<Rightarrow> kv_future \<times> kv_state" where
  "AsyncTxn_Master moved from req s =
     (case rq_payload req of
        None \<Rightarrow> (Ready (Status FAILED ''receive illegal txn payload''), s)
      | Some payload \<Rightarrow>
          let (txn, resp, s) = TryTxn moved payload s
          in if \<not> CheckTxnOngoingValid txn s then (Ready (Status FAILED ''failed to try txn''), s)
             else
               let s = InsertTxnOngoing txn s;
                   s = (if backupActor_ok s then emit (BackupWriteTxn txn (rq_asyncbackup req)) s
                        else s)
               in if backupActor_ok s \<and> \<not> rq_asyncbackup req
                  then (Await (TxnCont from req txn resp), s)
                  else
                    let (_, s) = OnTryTxn txn Status_OK s;
                        (st, s) = OnAsyncTxn from req resp Status_OK s
                    in (Ready st, s))"

definition Txn ::
  "(key_value \<Rightarrow> key_value) \<Rightarrow> txn_request \<Rightarrow> kv_state \<Rightarrow>
     (txn_results \<times> txn_response) \<times> kv_state" where
  "Txn moved req s =
     (let (txn, resp, s) = TryTxn moved req s
      in if \<not> CheckTxnOngoingValid txn s then ((([], []), resp), s)
         else
           let s = InsertTxnOngoing txn s;
               (_, s) = OnTryTxn txn Status_OK s
           in ((txn, resp), s))"

section \<open>Leases and watches\<close>

text \<open>\<open>OnRevoke\<close> visits the keys of a \<^verbatim>\<open>std::set\<close>, in ascending order.\<close>

definition revoke_one :: "string \<Rightarrow> delete_results \<times> kv_state \<Rightarrow> delete_results \<times> kv_state" where
  "revoke_one key = (\<lambda>(deletes, s).
     case fmlookup (cache s) key of
       None \<Rightarrow> (deletes, s)
     | Some kv \<Rightarrow> (deletes @ [kv], s\<lparr>cache := fmdrop key (cache s)\<rparr>))"

definition OnRevoke :: "string fset \<Rightarrow> kv_state \<Rightarrow> status \<times> kv_state" where
  "OnRevoke keys s =
     (let (deletes, s) = fold revoke_one (sorted_list_of_fset keys) ([], s);
          s = (if deletes \<noteq> [] then emit (WatchOnDeleteList deletes) s else s);
          s = (if backupActor_ok s then emit (BackupWriteDeletes deletes True) s else s)
      in (Status_OK, s))"

definition OnCreateWatcher :: "int \<Rightarrow> kv_state \<Rightarrow> kv_state" where
  "OnCreateWatcher startRevision s =
     fold (\<lambda>(k, kv) s. if kv_mod_revision kv \<ge> startRevision
                       then emit (WatchOnPut kv kv_default) s else s)
       (sorted_list_of_fmap (cache s)) s"

definition AsyncWatch_Master ::
  "aid \<Rightarrow> watch_create_request meta_request \<Rightarrow> kv_state \<Rightarrow> kv_future \<times> kv_state" where
  "AsyncWatch_Master from req s =
     (case rq_payload req of
        None \<Rightarrow> (Ready (Status FAILED ''receive illegal watch request''), s)
      | Some w \<Rightarrow>
          (Ready Status_OK,
           emit (WatchCreate from (rq_requestid req) w) (CheckAndCreateWatchServiceActor s)))"

definition ConvertWatchCreateRequestToRangeRequest :: "watch_create_request \<Rightarrow> range_request" where
  "ConvertWatchCreateRequestToRangeRequest w =
     \<lparr>rr_key = wc_key w, rr_range_end = (if wc_range_end w \<noteq> [] then wc_range_end w else []),
      rr_count_only = False, rr_keys_only = False, rr_sort_order = NONE, rr_sort_target = SORT_KEY\<rparr>"

definition AsyncGetAndWatch_Master ::
  "aid \<Rightarrow> watch_create_request meta_request \<Rightarrow> kv_state \<Rightarrow> kv_future \<times> kv_state" where
  "AsyncGetAndWatch_Master from req s =
     (case rq_payload req of
        None \<Rightarrow> (Ready (Status FAILED ''receive illegal get and watch request''), s)
      | Some w \<Rightarrow>
          (AwaitWatch from (rq_requestid req) w,
           emit (WatchCreateWatch from w) (CheckAndCreateWatchServiceActor s)))"

definition OnAsyncGetAndWatch ::
  "aid \<Rightarrow> string \<Rightarrow> watch_create_request \<Rightarrow> watch_response \<Rightarrow> kv_state \<Rightarrow> status \<times> kv_state" where
  "OnAsyncGetAndWatch from uuid w wresp s =
     (let gresp = Range (ConvertWatchCreateRequestToRangeRequest w) s
      in (Status_OK, emit (WatchSendGetAndWatch from uuid gresp wresp) s))"

section \<open>Master and follower\<close>

text \<open>A follower answers every request with \<^verbatim>\<open>FAILED\<close>.\<close>

definition slave_reply :: "kv_state \<Rightarrow> kv_future \<times> kv_state" where
  "slave_reply s = (Ready (Status FAILED []), s)"

datatype kv_request =
    ReqPut aid put_request
  | ReqDelete aid "delete_range_request meta_request"
  | ReqGet aid "range_request meta_request"
  | ReqTxn aid "txn_request meta_request"
  | ReqWatch aid "watch_create_request meta_request"
  | ReqGetAndWatch aid "watch_create_request meta_request"

fun master_handle :: "(key_value \<Rightarrow> key_value) \<Rightarrow> kv_request \<Rightarrow> kv_state \<Rightarrow> kv_future \<times> kv_state" where
  "master_handle moved (ReqPut from r) s = AsyncPut_Master from r s"
| "master_handle moved (ReqDelete from r) s = AsyncDelete_Master from r s"
| "master_handle moved (ReqGet from r) s = AsyncGet_Master from r s"
| "master_handle moved (ReqTxn from r) s = AsyncTxn_Master moved from r s"
| "master_handle moved (ReqWatch from r) s = AsyncWatch_Master from r s"
| "master_handle moved (ReqGetAndWatch from r) s = AsyncGetAndWatch_Master from r s"

definition kv_handle :: "(key_value \<Rightarrow> key_value) \<Rightarrow> kv_request \<Rightarrow> kv_state \<Rightarrow> kv_future \<times> kv_state" where
  "kv_handle moved r s =
     (case business s of
        None \<Rightarrow> (Aborted, s)
      | Some MasterBusiness \<Rightarrow> master_handle moved r s
      | Some SlaveBusiness \<Rightarrow> slave_reply s)"

text \<open>The rest of a write, once the backup has answered with \<open>st\<close>.\<close>

fun resume :: "kv_cont \<Rightarrow> status \<Rightarrow> kv_state \<Rightarrow> status \<times> kv_state" where
  "resume (PutCont from req resp) st s =
     (let (st, s) = OnTryPutCache (pr_key req) st s in OnAsyncPut from req resp st s)"
| "resume (DeleteCont from req deletes resp) st s =
     (let (st, s) = OnTryDeleteRange deletes st s in OnAsyncDelete from req resp st s)"
| "resume (TxnCont from req txn resp) st s =
     (let (st, s) = OnTryTxn txn st s in OnAsyncTxn from req resp st s)"

end
