(* ===== verification/Kv_Replication.thy ===== *)
theory Kv_Replication
  imports Kv_Service
begin

text \<open>
  Recovery and replication of the key-value service: loading the backup at start-up
  (\<open>Recover\<close>, \<open>Sync\<close>), and replaying the backup store's events (\<open>KvSyncer\<close>,
  \<open>HandleKvEvents\<close>, \<open>HandleKvPutEvent\<close>).

  The protobuf encoding of a record is a parameter: \<open>ser\<close> is \<^verbatim>\<open>SerializeAsString\<close> and
  \<open>parse\<close> is \<^verbatim>\<open>ParseFromString\<close>, \<open>None\<close> on malformed bytes. A handler that reads a key
  shorter than the backup prefix throws \<^verbatim>\<open>std::out_of_range\<close>; its model returns \<open>None\<close>.
\<close>

section \<open>Recovery\<close>

definition Recover :: "kv_state \<Rightarrow> kv_state" where
  "Recover s = (if \<not> backupActor_ok s then s else emit (BackupGet META_STORE_BACKUP_KV_PREFIX) s)"

definition strip_prefix :: "string \<Rightarrow> string option" where
  "strip_prefix k = substr_from (length META_STORE_BACKUP_KV_PREFIX) k"

definition raise_revision :: "key_value \<Rightarrow> kv_state \<Rightarrow> kv_state" where
  "raise_revision kv s =
     (if modRevision s < kv_mod_revision kv then s\<lparr>modRevision := kv_mod_revision kv\<rparr> else s)"

definition attach_lease :: "key_value \<Rightarrow> kv_state \<Rightarrow> kv_state" where
  "attach_lease kv s =
     (if kv_lease kv \<noteq> 0 then emit (LeaseAttach (kv_key kv) (kv_lease kv)) s else s)"

definition sync_item ::
  "(string \<Rightarrow> key_value option) \<Rightarrow> string \<times> string \<Rightarrow> kv_state \<Rightarrow> kv_state option" where
  "sync_item parse item s =
     (case parse (snd item) of
        None \<Rightarrow> Some s
      | Some kv \<Rightarrow>
          (case strip_prefix (fst item) of
             None \<Rightarrow> None
           | Some k \<Rightarrow>
               Some (raise_revision kv (attach_lease kv (s\<lparr>cache := fmupd k kv (cache s)\<rparr>)))))"

fun foldM :: "('a \<Rightarrow> 's \<Rightarrow> 's option) \<Rightarrow> 'a list \<Rightarrow> 's \<Rightarrow> 's option" where
  "foldM f [] s = Some s"
| "foldM f (x # xs) s = (case f x s of None \<Rightarrow> None | Some s \<Rightarrow> foldM f xs s)"

definition Sync ::
  "(string \<Rightarrow> key_value option) \<Rightarrow> get_response \<Rightarrow> kv_state \<Rightarrow> (bool \<times> kv_state) option" where
  "Sync parse resp s =
     (case foldM (sync_item parse) (gr_kvs resp) s of
        None \<Rightarrow> None
      | Some s \<Rightarrow>
          Some (True,
            if needExplore s
            then emit (BackupWatch META_STORE_BACKUP_KV_PREFIX (gr_revision resp)) s else s))"

section \<open>Events of the backup store\<close>

text \<open>The revision the events of one batch are compared with is passed as a \<^verbatim>\<open>uint32_t\<close>.\<close>

definition to_uint32 :: "int \<Rightarrow> int" where
  "to_uint32 x = x mod 2 ^ 32"

definition put_event_apply :: "string \<Rightarrow> key_value \<Rightarrow> kv_state \<Rightarrow> kv_state" where
  "put_event_apply key kv s =
     (let prevKv = cached key s;
          s = emit (WatchOnPut kv prevKv) (s\<lparr>cache := fmupd key kv (cache s)\<rparr>)
      in raise_revision kv (attach_lease kv s))"

definition HandleKvPutEvent ::
  "(key_value \<Rightarrow> string) \<Rightarrow> (string \<Rightarrow> key_value option) \<Rightarrow> watch_event \<Rightarrow> bool \<Rightarrow> int \<Rightarrow>
     kv_state \<Rightarrow> kv_state option" where
  "HandleKvPutEvent ser parse event synced currentRevision s =
     (case parse (we_value event) of
        None \<Rightarrow> Some s
      | Some kv \<Rightarrow>
     (case strip_prefix (we_key event) of
        None \<Rightarrow> None
      | Some key \<Rightarrow>
          if curStatus s = MASTER_BUSINESS \<and> kv_mod_revision kv \<le> currentRevision \<and> \<not> synced
          then
            (case fmlookup (cache s) key of
               Some cacheKv \<Rightarrow>
                 if ser cacheKv = ser kv then Some s
                 else if kv_mod_revision kv < kv_mod_revision cacheKv \<and> fmlookup (ongoing s) key = None
                 then Some (if backupActor_ok s then emit (BackupWritePut cacheKv True) s else s)
                 else Some (put_event_apply key kv s)
             | None \<Rightarrow>
                 if fmlookup (ongoing s) key = None
                 then Some (if backupActor_ok s then emit (BackupWriteDeletes [kv] True) s else s)
                 else Some (put_event_apply key kv s))
          else Some (put_event_apply key kv s)))"

definition delete_event_apply :: "string \<Rightarrow> kv_state \<Rightarrow> kv_state" where
  "delete_event_apply key s =
     (let prevKv = cached key s
      in emit (WatchOnDelete prevKv) (s\<lparr>cache := fmdrop key (cache s)\<rparr>))"

definition HandleKvEvent ::
  "(key_value \<Rightarrow> string) \<Rightarrow> (string \<Rightarrow> key_value option) \<Rightarrow> bool \<Rightarrow> int \<Rightarrow> watch_event \<Rightarrow>
     kv_state \<Rightarrow> kv_state option" where
  "HandleKvEvent ser parse synced currentRevision event s =
     (case we_type event of
        EVENT_TYPE_PUT \<Rightarrow> HandleKvPutEvent ser parse event synced currentRevision s
      | EVENT_TYPE_DELETE \<Rightarrow> map_option (\<lambda>key. delete_event_apply key s) (strip_prefix (we_key event))
      | EVENT_TYPE_OTHER \<Rightarrow> Some s)"

definition HandleKvEvents ::
  "(key_value \<Rightarrow> string) \<Rightarrow> (string \<Rightarrow> key_value option) \<Rightarrow> watch_event list \<Rightarrow> bool \<Rightarrow>
     kv_state \<Rightarrow> kv_state option" where
  "HandleKvEvents ser parse events synced s =
     foldM (HandleKvEvent ser parse synced (to_uint32 (modRevision s))) events s"

text \<open>The comparison of a full listing of the backup with the local cache. The code dereferences
  the response even where it is null; the model takes a response.\<close>

definition KvSyncer ::
  "(key_value \<Rightarrow> string) \<Rightarrow> (string \<Rightarrow> key_value option) \<Rightarrow> get_response \<Rightarrow> kv_state \<Rightarrow>
     (status \<times> kv_state) option" where
  "KvSyncer ser parse resp s =
     (if IsError (gr_status resp) then Some (gr_status resp, s)
      else if gr_kvs resp = [] then Some (Status_OK, s)
      else
        case foldM (\<lambda>kv ks. map_option (\<lambda>k. ks @ [k]) (strip_prefix (fst kv))) (gr_kvs resp) [] of
          None \<Rightarrow> None
        | Some remoteKeys \<Rightarrow>
            let puts = map (\<lambda>(k, v). \<lparr>we_type = EVENT_TYPE_PUT, we_key = k, we_value = v\<rparr>)
                         (gr_kvs resp);
                dels = map (\<lambda>(k, kv). \<lparr>we_type = EVENT_TYPE_DELETE,
                             we_key = META_STORE_BACKUP_KV_PREFIX @ k, we_value = ser kv\<rparr>)
                         (filter (\<lambda>(k, kv). k \<notin> set remoteKeys) (sorted_list_of_fmap (cache s)))
            in map_option (\<lambda>s. (Status_OK, s)) (HandleKvEvents ser parse (puts @ dels) True s))"

end
