(* ===== verification/Kv_Invariant.thy ===== *)
theory Kv_Invariant
  imports Kv_Replication
begin

text \<open>
  The invariant of the key-value service and its preservation by every operation. The invariant
  speaks of the records the actor holds, visible (\<open>cache\<close>) or waiting for the backup
  (\<open>ongoing\<close>): each is stored under its own key, its revisions and version are consistent and
  not ahead of the revision counter, and no revision belongs to two keys.
\<close>

section \<open>Invariant\<close>

definition kv_ok :: "int \<Rightarrow> string \<Rightarrow> key_value \<Rightarrow> bool" where
  "kv_ok r k kv \<longleftrightarrow> kv_key kv = k \<and> 1 \<le> kv_version kv \<and> 1 \<le> kv_create_revision kv \<and>
     kv_create_revision kv + kv_version kv \<le> kv_mod_revision kv + 1 \<and> kv_mod_revision kv \<le> r"

definition records_ok :: "(string \<times> key_value) set \<Rightarrow> int \<Rightarrow> bool" where
  "records_ok R r \<longleftrightarrow> 0 \<le> r \<and> (\<forall>k kv. (k, kv) \<in> R \<longrightarrow> kv_ok r k kv) \<and>
     (\<forall>k kv k' kv'. (k, kv) \<in> R \<longrightarrow> (k', kv') \<in> R \<longrightarrow>
        kv_mod_revision kv = kv_mod_revision kv' \<longrightarrow> k = k')"

definition records :: "kv_state \<Rightarrow> (string \<times> key_value) set" where
  "records s = {(k, kv). fmlookup (cache s) k = Some kv} \<union>
     {(k, kv). \<exists>e. fmlookup (ongoing s) k = Some e \<and> kv = oe_kv e}"

definition kv_inv :: "kv_state \<Rightarrow> bool" where
  "kv_inv s \<longleftrightarrow> records_ok (records s) (modRevision s)"

section \<open>Rules for the record set\<close>

lemma kv_ok_mono: "kv_ok r k kv \<Longrightarrow> r \<le> r' \<Longrightarrow> kv_ok r' k kv"
  by (simp add: kv_ok_def)

lemma records_ok_mono:
  assumes "records_ok R r" "R' \<subseteq> R" "r \<le> r'"
  shows "records_ok R' r'"
  unfolding records_ok_def
proof (intro conjI)
  show "0 \<le> r'" using assms by (simp add: records_ok_def)
  show "\<forall>k kv. (k, kv) \<in> R' \<longrightarrow> kv_ok r' k kv"
    using assms kv_ok_mono unfolding records_ok_def by blast
  show "\<forall>k kv k' kv'. (k, kv) \<in> R' \<longrightarrow> (k', kv') \<in> R' \<longrightarrow>
     kv_mod_revision kv = kv_mod_revision kv' \<longrightarrow> k = k'"
    using assms unfolding records_ok_def by (meson in_mono)
qed

lemma records_ok_fresh:
  assumes "records_ok R r" "kv_ok r' k kv" "r < kv_mod_revision kv"
  shows "records_ok (insert (k, kv) R) r'"
proof -
  have old: "kv_mod_revision kv' < kv_mod_revision kv" if "(k', kv') \<in> R" for k' kv'
    using assms that unfolding records_ok_def kv_ok_def by force
  have "r \<le> r'" using assms(2,3) by (simp add: kv_ok_def)
  then have R: "records_ok R r'" using assms(1) records_ok_mono by blast
  show ?thesis
    unfolding records_ok_def
  proof (intro conjI)
    show "0 \<le> r'" using R by (simp add: records_ok_def)
    show "\<forall>k' kv'. (k', kv') \<in> insert (k, kv) R \<longrightarrow> kv_ok r' k' kv'"
      using R assms(2) unfolding records_ok_def by blast
    show "\<forall>k1 kv1 k2 kv2. (k1, kv1) \<in> insert (k, kv) R \<longrightarrow> (k2, kv2) \<in> insert (k, kv) R \<longrightarrow>
       kv_mod_revision kv1 = kv_mod_revision kv2 \<longrightarrow> k1 = k2"
      using R old unfolding records_ok_def by (metis insert_iff less_irrefl prod.inject)
  qed
qed

lemma kv_inv_mono:
  "kv_inv s \<Longrightarrow> records t \<subseteq> records s \<Longrightarrow> modRevision s \<le> modRevision t \<Longrightarrow> kv_inv t"
  unfolding kv_inv_def by (rule records_ok_mono)

lemma records_okD: "records_ok R r \<Longrightarrow> (k, kv) \<in> R \<Longrightarrow> kv_ok r k kv"
  unfolding records_ok_def by blast

lemma cache_records: "fmlookup (cache s) k = Some kv \<Longrightarrow> (k, kv) \<in> records s"
  by (simp add: records_def)

lemma ongoing_records: "fmlookup (ongoing s) k = Some e \<Longrightarrow> (k, oe_kv e) \<in> records s"
  by (auto simp: records_def)

lemma kv_inv_cache: "kv_inv s \<Longrightarrow> fmlookup (cache s) k = Some kv \<Longrightarrow> kv_ok (modRevision s) k kv"
  unfolding kv_inv_def by (blast intro: records_okD cache_records)

lemma kv_inv_ongoing:
  "kv_inv s \<Longrightarrow> fmlookup (ongoing s) k = Some e \<Longrightarrow> kv_ok (modRevision s) k (oe_kv e)"
  unfolding kv_inv_def by (blast intro: records_okD ongoing_records)

lemma kv_inv_cache_key: "kv_inv s \<Longrightarrow> fmlookup (cache s) k = Some kv \<Longrightarrow> kv_key kv = k"
  by (drule (1) kv_inv_cache) (simp add: kv_ok_def)

section \<open>Frame facts\<close>

lemma emit_sels [simp]:
  "modRevision (emit m s) = modRevision s" "ongoing (emit m s) = ongoing s"
  "cache (emit m s) = cache s" "backupActor_ok (emit m s) = backupActor_ok s"
  "watchServiceActor_ok (emit m s) = watchServiceActor_ok s"
  "business (emit m s) = business s" "curStatus (emit m s) = curStatus s"
  "needExplore (emit m s) = needExplore s" "outbox (emit m s) = outbox s @ [m]"
  by (simp_all add: emit_def)

lemma records_emit [simp]: "records (emit m s) = records s"
  by (simp add: records_def)

lemma kv_inv_emit [simp]: "kv_inv (emit m s) \<longleftrightarrow> kv_inv s"
  by (simp add: kv_inv_def)

lemma records_modRevision [simp]: "records (s\<lparr>modRevision := r\<rparr>) = records s"
  by (simp add: records_def)

lemma InsertUniqueOngoing_sels [simp]:
  "modRevision (InsertUniqueOngoing t kv p s) = modRevision s"
  "cache (InsertUniqueOngoing t kv p s) = cache s"
  "backupActor_ok (InsertUniqueOngoing t kv p s) = backupActor_ok s"
  "outbox (InsertUniqueOngoing t kv p s) = outbox s"
  "ongoing (InsertUniqueOngoing t kv p s) =
     fmupd (kv_key kv) \<lparr>oe_type = t, oe_kv = kv, oe_preKv = p\<rparr> (ongoing s)"
  by (simp_all add: InsertUniqueOngoing_def)

lemma records_InsertUniqueOngoing:
  "records (InsertUniqueOngoing t kv p s) \<subseteq> insert (kv_key kv, kv) (records s)"
  by (auto simp: records_def split: if_splits)

lemma fold_InsertUniqueOngoing_sels [simp]:
  "modRevision (fold (\<lambda>x. InsertUniqueOngoing t (f x) (g x)) xs s) = modRevision s"
  "cache (fold (\<lambda>x. InsertUniqueOngoing t (f x) (g x)) xs s) = cache s"
  "backupActor_ok (fold (\<lambda>x. InsertUniqueOngoing t (f x) (g x)) xs s) = backupActor_ok s"
  "outbox (fold (\<lambda>x. InsertUniqueOngoing t (f x) (g x)) xs s) = outbox s"
  by (induction xs arbitrary: s) simp_all

lemma records_fold_InsertUniqueOngoing:
  "records (fold (\<lambda>x. InsertUniqueOngoing t (f x) (g x)) xs s) \<subseteq>
     (\<lambda>x. (kv_key (f x), f x)) ` set xs \<union> records s"
proof (induction xs arbitrary: s)
  case (Cons x xs)
  then show ?case
    using records_InsertUniqueOngoing [of t "f x" "g x" s]
      Cons [of "InsertUniqueOngoing t (f x) (g x) s"] by (simp del: InsertUniqueOngoing_sels) blast
qed simp

lemma InsertDeleteOngoing_sels [simp]:
  "modRevision (InsertDeleteOngoing ds s) = modRevision s"
  "cache (InsertDeleteOngoing ds s) = cache s"
  "backupActor_ok (InsertDeleteOngoing ds s) = backupActor_ok s"
  "outbox (InsertDeleteOngoing ds s) = outbox s"
  by (simp_all add: InsertDeleteOngoing_def)

lemma records_InsertDeleteOngoing:
  "records (InsertDeleteOngoing ds s) \<subseteq> (\<lambda>kv. (kv_key kv, kv)) ` set ds \<union> records s"
  unfolding InsertDeleteOngoing_def
  by (rule records_fold_InsertUniqueOngoing [where f = "\<lambda>x. x" and g = "\<lambda>_. kv_default"])

lemma fold_InsertDeleteOngoing_sels [simp]:
  "modRevision (fold InsertDeleteOngoing dss s) = modRevision s"
  "cache (fold InsertDeleteOngoing dss s) = cache s"
  "backupActor_ok (fold InsertDeleteOngoing dss s) = backupActor_ok s"
  "outbox (fold InsertDeleteOngoing dss s) = outbox s"
  by (induction dss arbitrary: s) simp_all

lemma records_fold_InsertDeleteOngoing:
  "records (fold InsertDeleteOngoing dss s) \<subseteq> (\<lambda>kv. (kv_key kv, kv)) ` set (concat dss) \<union> records s"
proof (induction dss arbitrary: s)
  case (Cons d dss)
  then show ?case
    using records_InsertDeleteOngoing [of d s] Cons [of "InsertDeleteOngoing d s"] by simp blast
qed simp

definition planned :: "txn_results \<Rightarrow> (string \<times> key_value) set" where
  "planned txn = (\<lambda>p. (kv_key (fst p), fst p)) ` set (fst txn) \<union>
     (\<lambda>kv. (kv_key kv, kv)) ` set (concat (snd txn))"

lemma InsertTxnOngoing_sels [simp]:
  "modRevision (InsertTxnOngoing txn s) = modRevision s"
  "cache (InsertTxnOngoing txn s) = cache s"
  "backupActor_ok (InsertTxnOngoing txn s) = backupActor_ok s"
  "outbox (InsertTxnOngoing txn s) = outbox s"
  by (simp_all add: InsertTxnOngoing_def)

lemma records_InsertTxnOngoing:
  "records (InsertTxnOngoing txn s) \<subseteq> planned txn \<union> records s"
proof -
  let ?t = "fold (\<lambda>p. InsertUniqueOngoing kRequestPut (fst p) (snd p)) (fst txn) s"
  have "records ?t \<subseteq> (\<lambda>p. (kv_key (fst p), fst p)) ` set (fst txn) \<union> records s"
    by (rule records_fold_InsertUniqueOngoing)
  with records_fold_InsertDeleteOngoing [of "snd txn" ?t] show ?thesis
    by (auto simp: InsertTxnOngoing_def planned_def)
qed

section \<open>Preservation: writes\<close>

lemma TryPutCache_cases:
  assumes "TryPutCache req s = ((kv, prev), resp, s')"
  shows "s' = emit (LeaseAttach (pr_key req) (pr_lease req)) (s\<lparr>modRevision := modRevision s + 1\<rparr>)"
    and "prev = cached (pr_key req) s"
    and "kv_mod_revision kv = modRevision s + 1"
    and "kv_value kv = pr_value req" and "kv_lease kv = pr_lease req"
    and "kv_key (cached (pr_key req) s) \<noteq> [] \<Longrightarrow>
           kv_key kv = kv_key prev \<and> kv_version kv = kv_version prev + 1 \<and>
           kv_create_revision kv = kv_create_revision prev"
    and "kv_key (cached (pr_key req) s) = [] \<Longrightarrow>
           kv_key kv = pr_key req \<and> kv_version kv = 1 \<and> kv_create_revision kv = modRevision s + 1"
    and "resp = put_response_default\<lparr>ps_requestid := pr_requestid req,
           ps_prevkv := (if kv_key prev \<noteq> [] \<and> pr_prevkv req then Some prev else None),
           ps_revision := modRevision s + 1\<rparr>"
  using assms by (auto simp: TryPutCache_def Let_def)

lemma TryPutCache_fresh:
  assumes "TryPutCache req s = ((kv, prev), resp, s')" "records_ok (records s \<union> X) (modRevision s)"
  shows "kv_key kv = pr_key req" "records s' = records s"
    "records_ok (insert (pr_key req, kv) (records s \<union> X)) (modRevision s')"
proof -
  note c = TryPutCache_cases [OF assms(1)]
  have s': "records s' = records s" "modRevision s' = modRevision s + 1" by (simp_all add: c(1))
  have ok: "kv_ok (modRevision s') (pr_key req) kv"
  proof (cases "kv_key (cached (pr_key req) s) = []")
    case True
    then show ?thesis
      using c(3,7) s' assms(2) by (simp add: kv_ok_def records_ok_def)
  next
    case False
    then obtain old where old: "fmlookup (cache s) (pr_key req) = Some old"
      by (auto simp: cached_def kv_default_def split: option.splits)
    then have "kv_ok (modRevision s) (pr_key req) old" "cached (pr_key req) s = old"
      using assms(2) by (auto simp: cached_def intro: records_okD cache_records)
    with False show ?thesis using c(2,3,6) s' by (auto simp: kv_ok_def)
  qed
  show "kv_key kv = pr_key req" using ok by (simp add: kv_ok_def)
  show "records s' = records s" by (rule s')
  show "records_ok (insert (pr_key req, kv) (records s \<union> X)) (modRevision s')"
    using assms(2) ok c(3) by (auto intro: records_ok_fresh)
qed

lemma CheckAndCreateWatchServiceActor_sels [simp]:
  "modRevision (CheckAndCreateWatchServiceActor s) = modRevision s"
  "ongoing (CheckAndCreateWatchServiceActor s) = ongoing s"
  "cache (CheckAndCreateWatchServiceActor s) = cache s"
  "backupActor_ok (CheckAndCreateWatchServiceActor s) = backupActor_ok s"
  "outbox (CheckAndCreateWatchServiceActor s) = outbox s"
  "business (CheckAndCreateWatchServiceActor s) = business s"
  by (simp_all add: CheckAndCreateWatchServiceActor_def)

lemma records_cong: "cache t = cache s \<Longrightarrow> ongoing t = ongoing s \<Longrightarrow> records t = records s"
  by (simp add: records_def)

lemma kv_inv_cong:
  "kv_inv s \<Longrightarrow> cache t = cache s \<Longrightarrow> ongoing t = ongoing s \<Longrightarrow> modRevision s \<le> modRevision t \<Longrightarrow> kv_inv t"
  by (auto intro: kv_inv_mono simp: records_cong [of t s])

lemma OnTryPutCache_sub:
  "records (snd (OnTryPutCache k st s)) \<subseteq> records s"
  "modRevision (snd (OnTryPutCache k st s)) = modRevision s"
  "backupActor_ok (snd (OnTryPutCache k st s)) = backupActor_ok s"
  by (auto simp: OnTryPutCache_def records_def split: option.splits if_splits)

lemma OnTryDeleteRange_sub:
  "records (snd (OnTryDeleteRange ds st s)) \<subseteq> records s"
  "modRevision (snd (OnTryDeleteRange ds st s)) = modRevision s"
  "backupActor_ok (snd (OnTryDeleteRange ds st s)) = backupActor_ok s"
  by (auto simp: OnTryDeleteRange_def records_def split: if_splits)

lemma fold_sub:
  assumes "\<And>x s. records (f x s) \<subseteq> records s \<and> modRevision (f x s) = modRevision (s :: kv_state)"
  shows "records (fold f xs s) \<subseteq> records s \<and> modRevision (fold f xs s) = modRevision s"
  using assms by (induction xs arbitrary: s) (simp, simp, blast)

lemma OnTryTxn_sub:
  "records (snd (OnTryTxn txn st s)) \<subseteq> records s \<and> modRevision (snd (OnTryTxn txn st s)) = modRevision s"
proof (cases "IsError st")
  case True
  then show ?thesis by (auto simp: OnTryTxn_def records_def split: if_splits)
next
  case False
  let ?t = "fold (\<lambda>puts s. snd (OnTryPutCache (kv_key (fst puts)) Status_OK s)) (fst txn) s"
  let ?u = "fold (\<lambda>deletes s. snd (OnTryDeleteRange deletes Status_OK s)) (snd txn) ?t"
  have "records ?t \<subseteq> records s \<and> modRevision ?t = modRevision s"
    "records ?u \<subseteq> records ?t \<and> modRevision ?u = modRevision ?t"
    by (rule fold_sub, simp add: OnTryPutCache_sub OnTryDeleteRange_sub)+
  then show ?thesis using False by (auto simp: OnTryTxn_def Let_def)
qed

lemma OnAsync_sels [simp]:
  "records (snd (OnAsyncPut from req resp st s)) = records s"
  "modRevision (snd (OnAsyncPut from req resp st s)) = modRevision s"
  "records (snd (OnAsyncDelete from dreq dresp st s)) = records s"
  "modRevision (snd (OnAsyncDelete from dreq dresp st s)) = modRevision s"
  "records (snd (OnAsyncTxn from treq tresp st s)) = records s"
  "modRevision (snd (OnAsyncTxn from treq tresp st s)) = modRevision s"
  by (simp_all add: OnAsyncPut_def OnAsyncDelete_def OnAsyncTxn_def Let_def)

lemma kv_inv_resume [fs_inv]: "kv_inv s \<Longrightarrow> kv_inv (snd (resume c st s))"
proof (erule kv_inv_mono)
  show "records (snd (resume c st s)) \<subseteq> records s" "modRevision s \<le> modRevision (snd (resume c st s))"
    using OnTryTxn_sub [of _ st s]
    by (cases c; simp add: split_beta OnTryPutCache_sub OnTryDeleteRange_sub)+
qed

text \<open>The keys a range names: one key, or those from \<open>key\<close> up to, not including, \<open>range_end\<close>.\<close>

definition range_match :: "string \<Rightarrow> string \<Rightarrow> string \<Rightarrow> bool" where
  "range_match key range_end k \<longleftrightarrow>
     (if range_end = [] then k = key else key \<le> k \<and> k < range_end)"

lemma set_TryDeleteRange:
  "set (fst (TryDeleteRange req s)) =
     {kv. \<exists>k. fmlookup (cache s) k = Some kv \<and> range_match (dr_key req) (dr_range_end req) k}"
  by (auto simp: TryDeleteRange_def Let_def range_match_def in_range_def not_less not_le
      image_iff split: option.splits)

lemma TryDeleteRange_records:
  assumes "records_ok (records s \<union> X) r" "kv \<in> set (fst (TryDeleteRange req s))"
  shows "(kv_key kv, kv) \<in> records s"
proof -
  obtain k where k: "fmlookup (cache s) k = Some kv" using assms(2) by (auto simp: set_TryDeleteRange)
  then have "kv_ok r k kv" using assms(1) by (auto intro: records_okD cache_records)
  with k show ?thesis by (simp add: kv_ok_def cache_records)
qed

lemma TryPut_fresh:
  assumes "TryPut moved ereq s = ((kv, prev), eresp, s')" "records_ok (records s \<union> X) (modRevision s)"
  shows "kv_key kv = ep_key ereq" "records s' = records s"
    "records_ok (insert (ep_key ereq, kv) (records s \<union> X)) (modRevision s')"
proof -
  let ?req = "\<lparr>pr_requestid = [], pr_key = ep_key ereq, pr_value = ep_value ereq,
    pr_lease = ep_lease ereq, pr_prevkv = ep_prev_kv ereq, pr_asyncbackup = False\<rparr>"
  obtain p resp where "TryPutCache ?req s = ((kv, p), resp, s')"
    using assms(1) by (auto simp: TryPut_def Let_def split: prod.splits)
  from TryPutCache_fresh [OF this assms(2)]
  show "kv_key kv = ep_key ereq" "records s' = records s"
    "records_ok (insert (ep_key ereq, kv) (records s \<union> X)) (modRevision s')" by simp_all
qed

definition txn_acc_ok :: "txn_acc \<Rightarrow> bool" where
  "txn_acc_ok acc \<longleftrightarrow> (case acc of (txn, resps, s) \<Rightarrow>
     records_ok (records s \<union> planned txn) (modRevision s))"

lemma txn_acc_ok_TxnCommon: "txn_acc_ok acc \<Longrightarrow> txn_acc_ok (TxnCommon moved opr acc)"
proof (induction moved opr acc rule: TxnCommon.induct)
  case (2 moved p puts dels resps s)
  obtain kv prev eresp s' where P: "TryPut moved p s = ((kv, prev), eresp, s')"
    by (metis prod_cases3 surj_pair)
  have "records_ok (records s \<union> planned (puts, dels)) (modRevision s)"
    using 2 by (simp add: txn_acc_ok_def)
  from TryPut_fresh [OF P this] show ?case
    by (auto simp: txn_acc_ok_def P planned_def insert_commute Un_insert_right elim!: records_ok_mono)
next
  case (3 moved d puts dels resps s)
  then have "records_ok (records s \<union> planned (puts, dels)) (modRevision s)"
    by (simp add: txn_acc_ok_def)
  with TryDeleteRange_records [OF this] show ?case
    by (auto simp: txn_acc_ok_def planned_def split_beta elim!: records_ok_mono)
qed (auto simp: txn_acc_ok_def)

lemma txn_acc_ok_fold: "txn_acc_ok acc \<Longrightarrow> txn_acc_ok (fold (TxnCommon moved) ops acc)"
  by (induction ops arbitrary: acc) (simp_all add: txn_acc_ok_TxnCommon)

lemma TryTxn_planned:
  assumes "kv_inv s" "TryTxn moved req s = (txn, resp, s')"
  shows "records_ok (records s' \<union> planned txn) (modRevision s')"
proof -
  have "txn_acc_ok (([], []), [], s)" using assms(1) by (simp add: txn_acc_ok_def kv_inv_def planned_def)
  then have "txn_acc_ok (txn_branch moved ops s)" for ops
    unfolding txn_branch_def by (rule txn_acc_ok_fold)
  from this [of "tr_success req"] this [of "tr_failure req"] assms(2) show ?thesis
    by (auto simp: TryTxn_def TxnThen_def TxnElse_def txn_acc_ok_def Let_def
        split: prod.splits if_splits)
qed

lemma kv_inv_InsertTxnOngoing:
  assumes "records_ok (records s \<union> planned txn) (modRevision s)"
  shows "kv_inv (InsertTxnOngoing txn s)"
  using records_ok_mono [OF assms] records_InsertTxnOngoing [of txn s]
  by (auto simp: kv_inv_def Un_commute)

lemma kv_inv_put_ongoing:
  assumes "kv_inv s"
  shows "kv_inv (InsertUniqueOngoing kRequestPut (fst (fst (TryPutCache req s)))
           (snd (fst (TryPutCache req s))) (snd (snd (TryPutCache req s))))"
proof -
  obtain kv prev resp s' where p: "TryPutCache req s = ((kv, prev), resp, s')"
    by (metis prod_cases3 surj_pair)
  have "records_ok (records s \<union> {}) (modRevision s)" using assms(1) by (simp add: kv_inv_def)
  from TryPutCache_fresh [OF p this]
  show ?thesis using records_InsertUniqueOngoing [of kRequestPut kv prev s']
    by (auto simp: kv_inv_def p intro: records_ok_mono)
qed

lemma kv_inv_delete_ongoing:
  assumes "kv_inv s" shows "kv_inv (InsertDeleteOngoing (fst (TryDeleteRange req s)) s)"
proof (rule kv_inv_mono [OF assms])
  have "records_ok (records s \<union> {}) (modRevision s)" using assms(1) by (simp add: kv_inv_def)
  then show "records (InsertDeleteOngoing (fst (TryDeleteRange req s)) s) \<subseteq> records s"
    using records_InsertDeleteOngoing [of "fst (TryDeleteRange req s)" s] TryDeleteRange_records
    by blast
qed simp

lemma kv_inv_OnTry [fs_inv]:
  assumes "kv_inv s"
  shows "kv_inv (snd (OnTryPutCache k st s))" "kv_inv (snd (OnTryDeleteRange ds st s))"
    "kv_inv (snd (OnTryTxn txn st s))"
  using kv_inv_mono [OF assms] OnTryTxn_sub [of txn st s]
  by (simp_all add: OnTryPutCache_sub OnTryDeleteRange_sub)

lemma kv_inv_OnAsync [fs_inv]:
  assumes "kv_inv s"
  shows "kv_inv (snd (OnAsyncPut from req resp st s))"
    "kv_inv (snd (OnAsyncDelete from dreq dresp st s))"
    "kv_inv (snd (OnAsyncTxn from treq tresp st s))"
  using assms by (simp_all add: kv_inv_def)

section \<open>Preservation: handlers\<close>

lemma kv_inv_CheckAndCreate [simp]: "kv_inv (CheckAndCreateWatchServiceActor s) \<longleftrightarrow> kv_inv s"
  by (simp add: kv_inv_def records_def)

lemma kv_inv_AsyncPut [fs_inv]: "kv_inv s \<Longrightarrow> kv_inv (snd (AsyncPut_Master from req s))"
  using kv_inv_put_ongoing [of "CheckAndCreateWatchServiceActor s" req]
  by (auto simp: AsyncPut_Master_def Let_def split_beta intro!: kv_inv_OnTry kv_inv_OnAsync)

lemma kv_inv_Put [fs_inv]:
  assumes "kv_inv s" shows "kv_inv (snd (Put moved ereq s))"
proof -
  obtain kv prev eresp s' where P: "TryPut moved ereq s = ((kv, prev), eresp, s')"
    by (metis prod_cases3 surj_pair)
  have "records_ok (records s \<union> {}) (modRevision s)" using assms(1) by (simp add: kv_inv_def)
  from TryPut_fresh [OF P this] records_InsertUniqueOngoing [of kRequestPut kv prev s']
  have "kv_inv (InsertUniqueOngoing kRequestPut kv prev s')"
    by (auto simp: kv_inv_def intro: records_ok_mono)
  then show ?thesis
    using assms by (auto simp: Put_def P Let_def split_beta intro!: kv_inv_OnTry)
qed

lemma kv_inv_AsyncDelete [fs_inv]: "kv_inv s \<Longrightarrow> kv_inv (snd (AsyncDelete_Master from req s))"
  by (auto simp: AsyncDelete_Master_def Let_def split_beta kv_inv_delete_ongoing
      intro!: kv_inv_OnTry kv_inv_OnAsync split: option.splits)

lemma kv_inv_DeleteRange [fs_inv]: "kv_inv s \<Longrightarrow> kv_inv (snd (DeleteRange req s))"
  by (auto simp: DeleteRange_def Let_def split_beta kv_inv_delete_ongoing intro!: kv_inv_OnTry)

lemma kv_inv_AsyncGet [fs_inv]: "kv_inv s \<Longrightarrow> kv_inv (snd (AsyncGet_Master from req s))"
  by (auto simp: AsyncGet_Master_def OnAsyncGet_def split: option.splits)

lemma kv_inv_TryTxn:
  assumes "kv_inv s"
  shows "kv_inv (snd (snd (TryTxn moved req s)))"
    "kv_inv (InsertTxnOngoing (fst (TryTxn moved req s)) (snd (snd (TryTxn moved req s))))"
  using TryTxn_planned [OF assms, of moved req] kv_inv_InsertTxnOngoing records_ok_mono
  by (auto simp: kv_inv_def prod_eq_iff)

lemma kv_inv_AsyncTxn [fs_inv]: "kv_inv s \<Longrightarrow> kv_inv (snd (AsyncTxn_Master moved from req s))"
  by (auto simp: AsyncTxn_Master_def Let_def split_beta kv_inv_TryTxn
      intro!: kv_inv_OnTry kv_inv_OnAsync split: option.splits)

lemma kv_inv_Txn [fs_inv]: "kv_inv s \<Longrightarrow> kv_inv (snd (Txn moved req s))"
  by (auto simp: Txn_def Let_def split_beta kv_inv_TryTxn intro!: kv_inv_OnTry)

lemma fold_revoke_one:
  "distinct ks \<Longrightarrow> fold revoke_one ks (ds, s) =
     (ds @ List.map_filter (fmlookup (cache s)) ks, s\<lparr>cache := fmdrop_all ks (cache s)\<rparr>)"
proof (induction ks arbitrary: ds s)
  case (Cons k ks)
  have "List.map_filter (fmlookup (fmdrop k (cache s))) ks = List.map_filter (fmlookup (cache s)) ks"
    using Cons.prems by (auto simp: List.map_filter_def intro!: map_cong filter_cong)
  moreover have "fmdrop k (cache s) = cache s" if "fmlookup (cache s) k = None"
    using that by (auto intro: fmap_ext)
  ultimately show ?case
    using Cons by (auto simp: revoke_one_def fmdrop_all_def List.map_filter_simps split: option.splits)
qed (simp add: List.map_filter_simps)

lemma sorted_list_of_fset_props [simp]:
  "distinct (sorted_list_of_fset A)" "set (sorted_list_of_fset A) = fset A"
  by (simp_all add: sorted_list_of_fset.rep_eq)

lemma OnRevoke_sels:
  "cache (snd (OnRevoke keys s)) = fmdrop_all (sorted_list_of_fset keys) (cache s)"
  "ongoing (snd (OnRevoke keys s)) = ongoing s"
  "modRevision (snd (OnRevoke keys s)) = modRevision s"
  by (simp_all add: OnRevoke_def fold_revoke_one Let_def)

lemma kv_inv_OnRevoke [fs_inv]: "kv_inv s \<Longrightarrow> kv_inv (snd (OnRevoke keys s))"
  by (erule kv_inv_mono) (auto simp: records_def OnRevoke_sels split: if_splits)

lemma fold_emit_sels:
  "cache (fold (\<lambda>x s. if P x then emit (f x) s else s) xs s) = cache s \<and>
   ongoing (fold (\<lambda>x s. if P x then emit (f x) s else s) xs s) = ongoing s \<and>
   modRevision (fold (\<lambda>x s. if P x then emit (f x) s else s) xs s) = modRevision s"
  by (induction xs arbitrary: s) simp_all

lemma OnCreateWatcher_sels [simp]:
  "cache (OnCreateWatcher r s) = cache s" "ongoing (OnCreateWatcher r s) = ongoing s"
  "modRevision (OnCreateWatcher r s) = modRevision s"
  unfolding OnCreateWatcher_def case_prod_beta' by (simp_all only: fold_emit_sels)

lemma kv_inv_watch [fs_inv]:
  assumes "kv_inv s"
  shows "kv_inv (OnCreateWatcher r s)" "kv_inv (snd (AsyncWatch_Master from wreq s))"
    "kv_inv (snd (AsyncGetAndWatch_Master from wreq s))"
    "kv_inv (snd (OnAsyncGetAndWatch from uuid w wresp s))"
  using assms
  by (auto simp: AsyncWatch_Master_def AsyncGetAndWatch_Master_def OnAsyncGetAndWatch_def Let_def
      elim: kv_inv_cong split: option.splits)

lemma kv_inv_admin [fs_inv]:
  assumes "kv_inv s"
  shows "kv_inv (InitExplorer s)" "kv_inv (snd (UpdateLeaderInfo self leader s))"
    "kv_inv (OnHealthyStatus st s)" "kv_inv (Recover s)"
  using assms
  by (auto simp: InitExplorer_def UpdateLeaderInfo_def OnHealthyStatus_def Recover_def Let_def
      elim: kv_inv_cong)

lemma kv_inv_init [fs_inv]: "kv_inv (KvServiceActor backup explore)"
  by (simp add: kv_inv_def KvServiceActor_def records_def records_ok_def)

lemma kv_inv_handle [fs_inv]: "kv_inv s \<Longrightarrow> kv_inv (snd (kv_handle moved req s))"
  by (cases req) (auto simp: kv_handle_def slave_reply_def split: option.splits business.splits
      intro: fs_inv)

end
