(* ===== verification/Kv_Machine.thy ===== *)
theory Kv_Machine
  imports Kv_Invariant "HOL-Library.Multiset"
begin

text \<open>
  The key-value service as a transition system. A state is the actor's state and the writes that
  wait for the backup's answer; a step is the arrival of one message: a client request, an answer
  of the backup (in any order, success or failure), a lease revocation, a leader change. The
  reachable states keep \<open>kv_inv\<close>, and every key that is locked by \<open>ongoing\<close> belongs to a write
  that still waits.
\<close>

section \<open>Transition system\<close>

record kv_sys =
  actor :: kv_state
  pending :: "kv_cont multiset"

fun cont_keys :: "kv_cont \<Rightarrow> string set" where
  "cont_keys (PutCont from req resp) = {pr_key req}"
| "cont_keys (DeleteCont from req deletes resp) = kv_key ` set deletes"
| "cont_keys (TxnCont from req txn resp) =
     (kv_key \<circ> fst) ` set (fst txn) \<union> kv_key ` set (concat (snd txn))"

fun awaited :: "kv_future \<Rightarrow> kv_cont multiset" where
  "awaited (Await c) = {#c#}"
| "awaited _ = {#}"

inductive kv_step :: "(key_value \<Rightarrow> key_value) \<Rightarrow> kv_sys \<Rightarrow> kv_sys \<Rightarrow> bool"
  for moved :: "key_value \<Rightarrow> key_value" where
  request: "kv_handle moved r (actor y) = (fut, s) \<Longrightarrow>
     kv_step moved y \<lparr>actor = s, pending = pending y + awaited fut\<rparr>"
| backup: "c \<in># pending y \<Longrightarrow>
     kv_step moved y \<lparr>actor = snd (resume c st (actor y)), pending = pending y - {#c#}\<rparr>"
| revoke: "kv_step moved y (y\<lparr>actor := snd (OnRevoke keys (actor y))\<rparr>)"
| watcher: "kv_step moved y (y\<lparr>actor := OnCreateWatcher startRevision (actor y)\<rparr>)"
| watch_created: "kv_step moved y
     (y\<lparr>actor := snd (OnAsyncGetAndWatch from uuid w wresp (actor y))\<rparr>)"
| leader: "kv_step moved y (y\<lparr>actor := snd (UpdateLeaderInfo self leader (actor y))\<rparr>)"
| healthy: "kv_step moved y (y\<lparr>actor := OnHealthyStatus st (actor y)\<rparr>)"
| put: "kv_step moved y (y\<lparr>actor := snd (Put moved ereq (actor y))\<rparr>)"
| delete: "kv_step moved y (y\<lparr>actor := snd (DeleteRange dreq (actor y))\<rparr>)"
| txn: "kv_step moved y (y\<lparr>actor := snd (Txn moved treq (actor y))\<rparr>)"

definition kv_start :: "bool \<Rightarrow> bool \<Rightarrow> kv_sys" where
  "kv_start backup explore = \<lparr>actor = InitExplorer (KvServiceActor backup explore), pending = {#}\<rparr>"

definition kv_reachable :: "(key_value \<Rightarrow> key_value) \<Rightarrow> bool \<Rightarrow> bool \<Rightarrow> kv_sys \<Rightarrow> bool" where
  "kv_reachable moved backup explore y \<longleftrightarrow> (kv_step moved)\<^sup>*\<^sup>* (kv_start backup explore) y"

section \<open>Locks\<close>

lemma OnTryPutCache_ongoing [simp]: "ongoing (snd (OnTryPutCache k st s)) = fmdrop k (ongoing s)"
  by (auto simp: OnTryPutCache_def intro: fmap_ext split: option.splits)

lemma OnTryDeleteRange_ongoing [simp]:
  "ongoing (snd (OnTryDeleteRange ds st s)) = fmdrop_all (map kv_key ds) (ongoing s)"
  by (auto simp: OnTryDeleteRange_def)

lemma fold_ongoing_put:
  "ongoing (fold (\<lambda>p s. snd (OnTryPutCache (kv_key (fst p)) st s)) ps s) =
     fmdrop_all (map (kv_key \<circ> fst) ps) (ongoing s)"
  by (induction ps arbitrary: s) (simp_all add: fmdrop_all_def)

lemma fold_ongoing_delete:
  "ongoing (fold (\<lambda>ds s. snd (OnTryDeleteRange ds st s)) dss s) =
     fmdrop_all (map kv_key (concat dss)) (ongoing s)"
  by (induction dss arbitrary: s) (simp_all add: fmdrop_all_def)

lemma OnTryTxn_ongoing [simp]:
  "ongoing (snd (OnTryTxn txn st s)) =
     fmdrop_all (map (kv_key \<circ> fst) (fst txn) @ map kv_key (concat (snd txn))) (ongoing s)"
  by (simp add: OnTryTxn_def Let_def fold_ongoing_put fold_ongoing_delete fmdrop_all_def)

lemma OnAsync_ongoing [simp]:
  "ongoing (snd (OnAsyncPut from req resp st s)) = ongoing s"
  "ongoing (snd (OnAsyncDelete from dreq dresp st s)) = ongoing s"
  "ongoing (snd (OnAsyncTxn from treq tresp st s)) = ongoing s"
  by (simp_all add: OnAsyncPut_def OnAsyncDelete_def OnAsyncTxn_def Let_def)

definition locked :: "kv_state \<Rightarrow> string set" where
  "locked s = {k. fmlookup (ongoing s) k \<noteq> None}"

lemma locked_resume: "locked (snd (resume c st s)) = locked s - cont_keys c"
  by (cases c) (auto simp: locked_def split_beta split: if_splits)

lemma locked_InsertDeleteOngoing:
  "locked (InsertDeleteOngoing ds s) = locked s \<union> kv_key ` set ds"
  unfolding InsertDeleteOngoing_def by (induction ds arbitrary: s) (auto simp: locked_def)

lemma locked_fold_InsertDelete:
  "locked (fold InsertDeleteOngoing dss s) = locked s \<union> kv_key ` set (concat dss)"
  by (induction dss arbitrary: s) (auto simp: locked_InsertDeleteOngoing)

lemma locked_fold_InsertUnique:
  "locked (fold (\<lambda>p. InsertUniqueOngoing t (fst p) (snd p)) ps s) = locked s \<union> (kv_key \<circ> fst) ` set ps"
  by (induction ps arbitrary: s) (auto simp: locked_def)

lemma locked_InsertTxnOngoing:
  "locked (InsertTxnOngoing txn s) =
     locked s \<union> (kv_key \<circ> fst) ` set (fst txn) \<union> kv_key ` set (concat (snd txn))"
  by (simp add: InsertTxnOngoing_def locked_fold_InsertDelete locked_fold_InsertUnique Un_assoc)

lemma locked_simps [simp]:
  "locked (emit m s) = locked s" "locked (CheckAndCreateWatchServiceActor s) = locked s"
  "locked (s\<lparr>modRevision := r\<rparr>) = locked s" "locked (s\<lparr>cache := c\<rparr>) = locked s"
  "locked (snd (OnAsyncPut from req resp st s)) = locked s"
  "locked (snd (OnAsyncDelete from dreq dresp st s)) = locked s"
  "locked (snd (OnAsyncTxn from treq tresp st s)) = locked s"
  "locked (InsertUniqueOngoing t kv p s) = insert (kv_key kv) (locked s)"
  "locked (snd (OnTryPutCache k st s)) = locked s - {k}"
  "locked (snd (OnTryDeleteRange ds st s)) = locked s - kv_key ` set ds"
  by (auto simp: locked_def split: if_splits)

lemma locked_OnTryTxn [simp]:
  "locked (snd (OnTryTxn txn st s)) =
     locked s - ((kv_key \<circ> fst) ` set (fst txn) \<union> kv_key ` set (concat (snd txn)))"
  by (auto simp: locked_def split: if_splits)

lemma TryPutCache_locked [simp]: "locked (snd (snd (TryPutCache req s))) = locked s"
  by (simp add: TryPutCache_def Let_def)

lemma TryPut_locked [simp]: "locked (snd (snd (TryPut moved ereq s))) = locked s"
  by (simp add: TryPut_def Let_def split_beta)

lemma TxnCommon_locked: "locked (snd (snd (TxnCommon moved opr acc))) = locked (snd (snd acc))"
  by (induction moved opr acc rule: TxnCommon.induct) (simp_all add: Let_def split_beta)

lemma TryTxn_locked [simp]: "locked (snd (snd (TryTxn moved req s))) = locked s"
proof -
  have "locked (snd (snd (fold (TxnCommon moved) ops acc))) = locked (snd (snd acc))" for ops acc
    by (induction ops arbitrary: acc) (simp_all add: TxnCommon_locked)
  then show ?thesis
    by (simp add: TryTxn_def TxnThen_def TxnElse_def txn_branch_def Let_def split_beta)
qed

lemma TryPutCache_key:
  assumes "kv_inv s" shows "kv_key (fst (fst (TryPutCache req s))) = pr_key req"
proof -
  obtain kv prev resp s' where p: "TryPutCache req s = ((kv, prev), resp, s')"
    by (metis prod_cases3 surj_pair)
  have "records_ok (records s \<union> {}) (modRevision s)" using assms(1) by (simp add: kv_inv_def)
  from TryPutCache_fresh [OF p this] p show ?thesis by simp
qed

lemma TryPut_key:
  assumes "kv_inv s" shows "kv_key (fst (fst (TryPut moved ereq s))) = ep_key ereq"
  using TryPutCache_key [OF assms] by (simp add: TryPut_def Let_def split_beta)

definition future_keys :: "kv_future \<Rightarrow> string set" where
  "future_keys fut = \<Union> (cont_keys ` set_mset (awaited fut))"

lemma locked_AsyncPut:
  "kv_inv s \<Longrightarrow> AsyncPut_Master from req s = (fut, s') \<Longrightarrow> locked s' \<subseteq> locked s \<union> future_keys fut"
  using TryPutCache_key [of "CheckAndCreateWatchServiceActor s" req]
  by (auto simp: AsyncPut_Master_def Let_def split_beta future_keys_def split: if_splits)

lemma locked_AsyncDelete:
  "AsyncDelete_Master from req s = (fut, s') \<Longrightarrow> locked s' \<subseteq> locked s \<union> future_keys fut"
  by (auto simp: AsyncDelete_Master_def Let_def split_beta future_keys_def
      locked_InsertDeleteOngoing split: if_splits option.splits)

lemma locked_AsyncTxn:
  "AsyncTxn_Master moved from req s = (fut, s') \<Longrightarrow> locked s' \<subseteq> locked s \<union> future_keys fut"
  by (auto simp: AsyncTxn_Master_def Let_def split_beta future_keys_def
      locked_InsertTxnOngoing split: if_splits option.splits)

lemma locked_handle:
  "kv_inv s \<Longrightarrow> kv_handle moved r s = (fut, s') \<Longrightarrow> locked s' \<subseteq> locked s \<union> future_keys fut"
  by (cases r)
    (auto simp: kv_handle_def slave_reply_def AsyncGet_Master_def OnAsyncGet_def
      AsyncWatch_Master_def AsyncGetAndWatch_Master_def
      dest: locked_AsyncPut locked_AsyncDelete locked_AsyncTxn
      split: option.splits business.splits)

lemma locked_Put: "kv_inv s \<Longrightarrow> locked (snd (Put moved ereq s)) \<subseteq> locked s"
  by (auto simp: Put_def Let_def split_beta TryPut_key)

lemma locked_DeleteRange: "locked (snd (DeleteRange req s)) \<subseteq> locked s"
  by (auto simp: DeleteRange_def Let_def split_beta locked_InsertDeleteOngoing)

lemma locked_Txn: "locked (snd (Txn moved req s)) \<subseteq> locked s"
  by (auto simp: Txn_def Let_def split_beta locked_InsertTxnOngoing)

lemma locked_cong: "ongoing t = ongoing s \<Longrightarrow> locked t = locked s"
  by (simp add: locked_def)

lemma locked_admin [simp]:
  "locked (OnCreateWatcher r s) = locked s"
  "locked (snd (OnRevoke keys s)) = locked s"
  "locked (snd (OnAsyncGetAndWatch from uuid w wresp s)) = locked s"
  "locked (snd (UpdateLeaderInfo self leader s)) = locked s"
  "locked (OnHealthyStatus st s) = locked s"
  by (rule locked_cong; simp add: OnRevoke_sels OnAsyncGetAndWatch_def UpdateLeaderInfo_def
      OnHealthyStatus_def Let_def)+

section \<open>Invariant of the reachable states\<close>

definition kv_sys_inv :: "kv_sys \<Rightarrow> bool" where
  "kv_sys_inv y \<longleftrightarrow> kv_inv (actor y) \<and> locked (actor y) \<subseteq> \<Union> (cont_keys ` set_mset (pending y))"

inductive_cases kv_stepE: "kv_step moved y z"

lemma kv_sys_inv_step: "kv_step moved y z \<Longrightarrow> kv_sys_inv y \<Longrightarrow> kv_sys_inv z"
proof (induction rule: kv_step.induct)
  case (request r y fut s)
  then show ?case
    using locked_handle [of "actor y" moved r fut s] kv_inv_handle [of "actor y" moved r]
    by (auto simp: kv_sys_inv_def future_keys_def)
next
  case (backup c y st)
  then have "set_mset (pending y) \<subseteq> insert c (set_mset (pending y - {#c#}))"
    by (metis insert_DiffM set_mset_add_mset_insert subset_refl)
  with backup have "locked (actor y) - cont_keys c \<subseteq> \<Union> (cont_keys ` set_mset (pending y - {#c#}))"
    unfolding kv_sys_inv_def by blast
  with backup show ?case
    by (simp add: kv_sys_inv_def locked_resume kv_inv_resume)
next
  case (put y ereq)
  then show ?case using locked_Put [of "actor y" moved ereq] by (auto simp: kv_sys_inv_def intro: fs_inv)
next
  case (delete y dreq)
  then show ?case using locked_DeleteRange [of dreq "actor y"] by (auto simp: kv_sys_inv_def intro: fs_inv)
next
  case (txn y treq)
  then show ?case using locked_Txn [of moved treq "actor y"] by (auto simp: kv_sys_inv_def intro: fs_inv)
qed (auto simp: kv_sys_inv_def intro: fs_inv)

lemma kv_sys_inv_reachable: "kv_reachable moved backup explore y \<Longrightarrow> kv_sys_inv y"
  unfolding kv_reachable_def
proof (induction rule: rtranclp_induct)
  case base
  show ?case
    by (simp add: kv_sys_inv_def kv_start_def fs_inv)
      (simp add: locked_def InitExplorer_def KvServiceActor_def)
qed (rule kv_sys_inv_step)

end
