(* ===== verification/Kv_Spec.thy ===== *)
theory Kv_Spec
  imports Kv_Machine
begin

text \<open>
  An abstract store, a revision and a map from keys to records, with one function per client
  operation, and the lemmas that relate the actor's operations to it. The abstraction forgets the
  locks, the messages and the actor's mode.
\<close>

section \<open>Abstract store\<close>

record kv_store =
  st_rev :: int
  st_map :: "string \<Rightarrow> key_value option"

definition abs_store :: "kv_state \<Rightarrow> kv_store" where
  "abs_store s = \<lparr>st_rev = modRevision s, st_map = fmlookup (cache s)\<rparr>"

text \<open>A put of an existing key keeps its creation revision and counts its version; a new key
  starts at version one.\<close>

definition next_kv :: "string \<Rightarrow> string \<Rightarrow> int \<Rightarrow> kv_store \<Rightarrow> key_value" where
  "next_kv k v l st =
     \<lparr>kv_key = k, kv_value = v, kv_lease = l,
      kv_version = (case st_map st k of None \<Rightarrow> 1 | Some old \<Rightarrow> kv_version old + 1),
      kv_mod_revision = st_rev st + 1,
      kv_create_revision = (case st_map st k of None \<Rightarrow> st_rev st + 1
        | Some old \<Rightarrow> kv_create_revision old)\<rparr>"

definition spec_put :: "string \<Rightarrow> string \<Rightarrow> int \<Rightarrow> kv_store \<Rightarrow> kv_store" where
  "spec_put k v l st = \<lparr>st_rev = st_rev st + 1, st_map = (st_map st)(k \<mapsto> next_kv k v l st)\<rparr>"

definition spec_delete :: "delete_range_request \<Rightarrow> kv_store \<Rightarrow> kv_store" where
  "spec_delete d st =
     st\<lparr>st_map := (\<lambda>k. if range_match (dr_key d) (dr_range_end d) k then None else st_map st k)\<rparr>"

fun spec_op :: "request_op \<Rightarrow> kv_store \<Rightarrow> kv_store" where
  "spec_op (RequestPut p) st = spec_put (ep_key p) (ep_value p) (ep_lease p) st"
| "spec_op (RequestDeleteRange d) st = spec_delete d st"
| "spec_op (RequestRange r) st = st"
| "spec_op RequestTxn st = st"
| "spec_op REQUEST_NOT_SET st = st"

text \<open>A comparison of a transaction: the numbers of a missing key are zero, its value compares
  with nothing.\<close>

fun spec_compare :: "compare_result \<Rightarrow> 'a::linorder \<Rightarrow> 'a \<Rightarrow> bool" where
  "spec_compare EQUAL x y \<longleftrightarrow> x = y"
| "spec_compare GREATER x y \<longleftrightarrow> y < x"
| "spec_compare LESS x y \<longleftrightarrow> x < y"
| "spec_compare NOT_EQUAL x y \<longleftrightarrow> x \<noteq> y"
| "spec_compare RESULT_OTHER x y \<longleftrightarrow> False"

definition spec_holds :: "kv_store \<Rightarrow> compare \<Rightarrow> bool" where
  "spec_holds st c =
     (let found = st_map st (cmp_key c);
          number = (\<lambda>sel. case found of None \<Rightarrow> 0 | Some kv \<Rightarrow> sel kv)
      in case cmp_target c of
        CMP_VERSION \<Rightarrow> spec_compare (cmp_result c) (number kv_version) (cmp_version c)
      | CMP_CREATE \<Rightarrow> spec_compare (cmp_result c) (number kv_create_revision) (cmp_create_revision c)
      | CMP_MOD \<Rightarrow> spec_compare (cmp_result c) (number kv_mod_revision) (cmp_mod_revision c)
      | CMP_LEASE \<Rightarrow> spec_compare (cmp_result c) (number kv_lease) (cmp_lease c)
      | CMP_VALUE \<Rightarrow> found \<noteq> None \<and> spec_compare (cmp_result c) (kv_value (the found)) (cmp_value c)
      | CMP_OTHER \<Rightarrow> False)"

definition spec_branch :: "txn_request \<Rightarrow> kv_store \<Rightarrow> request_op list" where
  "spec_branch req st =
     (if list_all (spec_holds st) (tr_compare req) then tr_success req else tr_failure req)"

text \<open>What a request does to the abstract store.\<close>

fun spec_request :: "kv_request \<Rightarrow> kv_store \<Rightarrow> kv_store" where
  "spec_request (ReqPut from r) st = spec_put (pr_key r) (pr_value r) (pr_lease r) st"
| "spec_request (ReqDelete from r) st =
     (case rq_payload r of None \<Rightarrow> st | Some d \<Rightarrow> spec_delete d st)"
| "spec_request (ReqTxn from r) st =
     (case rq_payload r of None \<Rightarrow> st | Some x \<Rightarrow> fold spec_op (spec_branch x st) st)"
| "spec_request (ReqGet from r) st = st"
| "spec_request (ReqWatch from w) st = st"
| "spec_request (ReqGetAndWatch from w) st = st"

text \<open>The writes of a transaction are independent: no key is put twice, and no delete range
  contains a key that is put.\<close>

fun put_key :: "request_op \<Rightarrow> string option" where
  "put_key (RequestPut p) = Some (ep_key p)"
| "put_key _ = None"

fun deletes_key :: "request_op \<Rightarrow> string \<Rightarrow> bool" where
  "deletes_key (RequestDeleteRange d) k = range_match (dr_key d) (dr_range_end d) k"
| "deletes_key _ k = False"

definition independent :: "request_op list \<Rightarrow> bool" where
  "independent ops \<longleftrightarrow>
     distinct (List.map_filter put_key ops) \<and> [] \<notin> set (List.map_filter put_key ops) \<and>
     (\<forall>k \<in> set (List.map_filter put_key ops). \<forall>opr \<in> set ops. \<not> deletes_key opr k)"

text \<open>The requests the refinement speaks of: puts name a key, transactions are independent.\<close>

fun request_wf :: "kv_request \<Rightarrow> kv_store \<Rightarrow> bool" where
  "request_wf (ReqPut from r) st \<longleftrightarrow> pr_key r \<noteq> []"
| "request_wf (ReqTxn from r) st \<longleftrightarrow>
     (case rq_payload r of None \<Rightarrow> True | Some x \<Rightarrow> independent (spec_branch x st))"
| "request_wf _ st \<longleftrightarrow> True"

section \<open>Puts and deletes\<close>

lemma abs_store_simps [simp]:
  "abs_store (emit m s) = abs_store s"
  "abs_store (CheckAndCreateWatchServiceActor s) = abs_store s"
  "abs_store (InsertUniqueOngoing t kv p s) = abs_store s"
  "abs_store (InsertDeleteOngoing ds s) = abs_store s"
  "abs_store (InsertTxnOngoing txn s) = abs_store s"
  "abs_store (snd (OnAsyncPut from req resp st s)) = abs_store s"
  "abs_store (snd (OnAsyncDelete from dreq dresp st s)) = abs_store s"
  "abs_store (snd (OnAsyncTxn from treq tresp st s)) = abs_store s"
  "st_rev (abs_store s) = modRevision s" "st_map (abs_store s) = fmlookup (cache s)"
  by (simp_all add: abs_store_def OnAsyncPut_def OnAsyncDelete_def OnAsyncTxn_def Let_def)

definition keys_match :: "kv_state \<Rightarrow> bool" where
  "keys_match s \<longleftrightarrow> (\<forall>k kv. fmlookup (cache s) k = Some kv \<longrightarrow> kv_key kv = k)"

lemma kv_inv_keys_match: "kv_inv s \<Longrightarrow> keys_match s"
  unfolding keys_match_def by (blast intro: kv_inv_cache_key)

lemma TryPutCache_next:
  assumes "keys_match s" "pr_key req \<noteq> []"
  shows "fst (fst (TryPutCache req s)) = next_kv (pr_key req) (pr_value req) (pr_lease req) (abs_store s)"
  using assms
  by (auto simp: keys_match_def TryPutCache_def Let_def next_kv_def cached_def kv_default_def split: option.splits)

lemma TryPutCache_sels [simp]:
  "snd (fst (TryPutCache req s)) = cached (pr_key req) s"
  "cache (snd (snd (TryPutCache req s))) = cache s"
  "ongoing (snd (snd (TryPutCache req s))) = ongoing s"
  "backupActor_ok (snd (snd (TryPutCache req s))) = backupActor_ok s"
  "modRevision (snd (snd (TryPutCache req s))) = modRevision s + 1"
  by (simp_all add: TryPutCache_def Let_def)

lemma OnTryPutCache_cache:
  "IsOk st \<Longrightarrow> fmlookup (ongoing s) k = Some e \<Longrightarrow>
     cache (snd (OnTryPutCache k st s)) = fmupd k (oe_kv e) (cache s)"
  by (simp add: OnTryPutCache_def IsError_def)

lemma OnTryPutCache_error: "IsError st \<Longrightarrow> cache (snd (OnTryPutCache k st s)) = cache s"
  by (simp add: OnTryPutCache_def)

lemma OnTryDeleteRange_cache:
  "IsOk st \<Longrightarrow> cache (snd (OnTryDeleteRange ds st s)) = fmdrop_all (map kv_key ds) (cache s)"
  by (auto simp: OnTryDeleteRange_def IsError_def)

lemma OnTryDeleteRange_error: "IsError st \<Longrightarrow> cache (snd (OnTryDeleteRange ds st s)) = cache s"
  by (simp add: OnTryDeleteRange_def)

lemma abs_put:
  assumes "keys_match s" "pr_key req \<noteq> []"
    "fmlookup (ongoing u) (pr_key req) = Some e" "oe_kv e = fst (fst (TryPutCache req s))"
    "cache u = cache s" "modRevision u = modRevision s + 1"
  shows "abs_store (snd (OnTryPutCache (pr_key req) Status_OK u)) =
    spec_put (pr_key req) (pr_value req) (pr_lease req) (abs_store s)"
  using assms TryPutCache_next [OF assms(1,2)]
  by (auto simp: abs_store_def spec_put_def OnTryPutCache_cache OnTryPutCache_sub fun_eq_iff)

lemma TryDeleteRange_keys:
  assumes "keys_match s"
  shows "k \<in> kv_key ` set (fst (TryDeleteRange d s)) \<longleftrightarrow>
     fmlookup (cache s) k \<noteq> None \<and> range_match (dr_key d) (dr_range_end d) k"
  using assms by (force simp: keys_match_def set_TryDeleteRange image_iff)

lemma abs_delete:
  assumes "keys_match s" "cache u = cache s" "modRevision u = modRevision s"
  shows "abs_store (snd (OnTryDeleteRange (fst (TryDeleteRange d s)) Status_OK u)) =
    spec_delete d (abs_store s)"
  using TryDeleteRange_keys [OF assms(1), of _ d] assms(2,3)
  by (auto simp: abs_store_def spec_delete_def OnTryDeleteRange_cache OnTryDeleteRange_sub fun_eq_iff)

section \<open>Transactions\<close>

definition put_all :: "put_results list \<Rightarrow> (string \<Rightarrow> key_value option) \<Rightarrow> string \<Rightarrow> key_value option" where
  "put_all puts m = fold (\<lambda>p m. m(kv_key (fst p) \<mapsto> fst p)) puts m"

definition apply_txn ::
  "txn_results \<Rightarrow> (string \<Rightarrow> key_value option) \<Rightarrow> string \<Rightarrow> key_value option" where
  "apply_txn txn m =
     (\<lambda>k. if k \<in> kv_key ` set (concat (snd txn)) then None else put_all (fst txn) m k)"

lemma put_all_snoc: "put_all (ps @ [p]) m = (put_all ps m)(kv_key (fst p) \<mapsto> fst p)"
  by (simp add: put_all_def)

lemma put_all_other: "k \<notin> (kv_key \<circ> fst) ` set ps \<Longrightarrow> put_all ps m k = m k"
  unfolding put_all_def by (induction ps arbitrary: m) auto

lemma fold_OnTryPutCache_cache:
  assumes "\<forall>p \<in> set ps. \<exists>e. fmlookup (ongoing s) (kv_key (fst p)) = Some e \<and> oe_kv e = fst p"
    "distinct (map (kv_key \<circ> fst) ps)"
  shows "fmlookup (cache (fold (\<lambda>p s. snd (OnTryPutCache (kv_key (fst p)) Status_OK s)) ps s)) =
    put_all ps (fmlookup (cache s))"
  using assms
proof (induction ps arbitrary: s)
  case (Cons p ps)
  let ?t = "snd (OnTryPutCache (kv_key (fst p)) Status_OK s)"
  obtain e where "fmlookup (ongoing s) (kv_key (fst p)) = Some e" "oe_kv e = fst p"
    using Cons.prems by auto
  then have "fmlookup (cache ?t) = (fmlookup (cache s))(kv_key (fst p) \<mapsto> fst p)"
    by (auto simp: OnTryPutCache_cache)
  moreover have "\<forall>q \<in> set ps. \<exists>e. fmlookup (ongoing ?t) (kv_key (fst q)) = Some e \<and> oe_kv e = fst q"
    using Cons.prems by (force simp: image_iff)
  ultimately show ?case using Cons.IH [of ?t] Cons.prems by (simp add: put_all_def fun_upd_def)
qed (simp add: put_all_def)

lemma fold_OnTryDeleteRange_cache:
  "cache (fold (\<lambda>ds s. snd (OnTryDeleteRange ds Status_OK s)) dss s) =
     fmdrop_all (map kv_key (concat dss)) (cache s)"
  by (induction dss arbitrary: s) (simp_all add: OnTryDeleteRange_cache fmdrop_all_def)

lemma InsertUnique_fold_lookup:
  assumes "distinct (map (kv_key \<circ> fst) ps)" "p \<in> set ps"
  shows "fmlookup (ongoing (fold (\<lambda>p. InsertUniqueOngoing t (fst p) (snd p)) ps s)) (kv_key (fst p)) =
    Some \<lparr>oe_type = t, oe_kv = fst p, oe_preKv = snd p\<rparr>"
  using assms
proof (induction ps rule: rev_induct)
  case (snoc q ps)
  then show ?case by (auto simp: image_iff)
qed simp

lemma InsertDelete_fold_lookup:
  "k \<notin> kv_key ` set (concat dss) \<Longrightarrow>
     fmlookup (ongoing (fold InsertDeleteOngoing dss s)) k = fmlookup (ongoing s) k"
proof (induction dss arbitrary: s)
  case (Cons ds dss)
  have "fmlookup (ongoing (InsertDeleteOngoing ds s)) k = fmlookup (ongoing s) k"
    using Cons.prems unfolding InsertDeleteOngoing_def by (induction ds arbitrary: s) auto
  with Cons show ?case by (simp add: image_Un)
qed simp

lemma OnTryTxn_modRevision [simp]: "modRevision (snd (OnTryTxn txn st s)) = modRevision s"
  using OnTryTxn_sub by blast

lemma OnTryTxn_cache:
  assumes "distinct (map (kv_key \<circ> fst) (fst txn))"
    "\<forall>p \<in> set (fst txn). kv_key (fst p) \<notin> kv_key ` set (concat (snd txn))"
    "ongoing u = ongoing (InsertTxnOngoing txn s)"
  shows "fmlookup (cache (snd (OnTryTxn txn Status_OK u))) = apply_txn txn (fmlookup (cache u))"
proof -
  have "\<forall>p \<in> set (fst txn). \<exists>e. fmlookup (ongoing u) (kv_key (fst p)) = Some e \<and> oe_kv e = fst p"
    using assms by (auto simp: InsertTxnOngoing_def InsertDelete_fold_lookup InsertUnique_fold_lookup)
  from fold_OnTryPutCache_cache [OF this assms(1)] show ?thesis
    by (auto simp: OnTryTxn_def Let_def fold_OnTryDeleteRange_cache apply_txn_def fun_eq_iff)
qed

lemma TryPut_sels [simp]:
  "cache (snd (snd (TryPut moved p s))) = cache s"
  "ongoing (snd (snd (TryPut moved p s))) = ongoing s"
  "backupActor_ok (snd (snd (TryPut moved p s))) = backupActor_ok s"
  "modRevision (snd (snd (TryPut moved p s))) = modRevision s + 1"
  by (simp_all add: TryPut_def Let_def split_beta)

lemma TryPut_next:
  assumes "keys_match s" "ep_key p \<noteq> []"
  shows "fst (fst (TryPut moved p s)) = next_kv (ep_key p) (ep_value p) (ep_lease p) (abs_store s)"
  using TryPutCache_next [of s "\<lparr>pr_requestid = [], pr_key = ep_key p, pr_value = ep_value p,
    pr_lease = ep_lease p, pr_prevkv = ep_prev_kv p, pr_asyncbackup = False\<rparr>"] assms
  by (simp add: TryPut_def Let_def split_beta)

text \<open>What the loop over the operations of a branch has established after a prefix \<open>ops\<close>.\<close>

definition txn_rel :: "kv_state \<Rightarrow> request_op list \<Rightarrow> txn_acc \<Rightarrow> bool" where
  "txn_rel s ops acc \<longleftrightarrow> (case acc of (txn, resps, t) \<Rightarrow>
     cache t = cache s \<and> ongoing t = ongoing s \<and> backupActor_ok t = backupActor_ok s \<and>
     \<lparr>st_rev = modRevision t, st_map = apply_txn txn (fmlookup (cache s))\<rparr> =
       fold spec_op ops (abs_store s) \<and>
     map (kv_key \<circ> fst) (fst txn) = List.map_filter put_key ops \<and>
     (\<forall>k. k \<in> kv_key ` set (concat (snd txn)) \<longleftrightarrow>
        fmlookup (cache s) k \<noteq> None \<and> (\<exists>opr \<in> set ops. deletes_key opr k)))"

lemma independent_snoc:
  assumes "independent (ops @ [opr])"
  shows "independent ops"
    and "put_key opr = Some k \<Longrightarrow>
      k \<noteq> [] \<and> k \<notin> set (List.map_filter put_key ops) \<and> (\<forall>x \<in> set ops. \<not> deletes_key x k)"
    and "deletes_key opr k \<Longrightarrow> k \<notin> set (List.map_filter put_key ops)"
  using assms by (auto simp: independent_def List.map_filter_def split: if_splits)

lemma map_filter_snoc:
  "List.map_filter f (xs @ [x]) = List.map_filter f xs @ (case f x of None \<Rightarrow> [] | Some y \<Rightarrow> [y])"
  by (simp add: List.map_filter_def split: option.splits)

lemma txn_rel_put:
  assumes "keys_match s" "independent (ops @ [RequestPut p])" "txn_rel s ops ((puts, dels), resps, t)"
  shows "txn_rel s (ops @ [RequestPut p]) (TxnCommon moved (RequestPut p) ((puts, dels), resps, t))"
proof -
  note ind = independent_snoc(2) [OF assms(2), of "ep_key p", simplified]
  let ?kv = "fst (fst (TryPut moved p t))" and ?st = "fold spec_op ops (abs_store s)"
  have rel: "cache t = cache s" "st_rev ?st = modRevision t"
    "st_map ?st = apply_txn (puts, dels) (fmlookup (cache s))"
    "map (kv_key \<circ> fst) puts = List.map_filter put_key ops"
    "ep_key p \<notin> kv_key ` set (concat dels)"
    using assms(3) ind by (auto simp: txn_rel_def dest: sym)
  have "ep_key p \<notin> (kv_key \<circ> fst) ` set puts"
    using ind rel(4) by (metis image_set)
  then have same: "st_map ?st (ep_key p) = fmlookup (cache s) (ep_key p)"
    using rel(3,5) by (simp add: apply_txn_def put_all_other)
  have "keys_match t" using assms(1) rel(1) by (simp add: keys_match_def)
  then have kv: "?kv = next_kv (ep_key p) (ep_value p) (ep_lease p) ?st"
    using ind TryPut_next [of t p moved] same rel(1,2) by (simp add: next_kv_def split: option.splits)
  then have "kv_key ?kv = ep_key p" by (simp add: next_kv_def)
  with assms(3) rel kv show ?thesis
    by (auto simp: txn_rel_def split_beta map_filter_snoc spec_put_def apply_txn_def put_all_snoc
        fun_eq_iff dest: sym)
qed

lemma txn_rel_delete:
  assumes "keys_match s" "independent (ops @ [RequestDeleteRange d])"
    "txn_rel s ops ((puts, dels), resps, t)"
  shows "txn_rel s (ops @ [RequestDeleteRange d])
    (TxnCommon moved (RequestDeleteRange d) ((puts, dels), resps, t))"
proof -
  let ?ds = "fst (TryDeleteRange d t)" and ?m = "range_match (dr_key d) (dr_range_end d)"
  have rel: "cache t = cache s" "map (kv_key \<circ> fst) puts = List.map_filter put_key ops"
    using assms(3) by (auto simp: txn_rel_def)
  have "keys_match t" using assms(1) rel(1) by (simp add: keys_match_def)
  then have keys: "k \<in> kv_key ` set ?ds \<longleftrightarrow> fmlookup (cache s) k \<noteq> None \<and> ?m k" for k
    using TryDeleteRange_keys rel(1) by simp
  have "put_all puts (fmlookup (cache s)) k = fmlookup (cache s) k" if "?m k" for k
    using independent_snoc(3) [OF assms(2), of k] that rel(2)
    by (metis put_all_other deletes_key.simps(1) image_set)
  with keys have "apply_txn (puts, dels @ [?ds]) (fmlookup (cache s)) =
      (\<lambda>k. if ?m k then None else apply_txn (puts, dels) (fmlookup (cache s)) k)"
    by (auto simp: apply_txn_def fun_eq_iff image_Un)
  moreover have "fold spec_op ops (abs_store s) =
      \<lparr>st_rev = modRevision t, st_map = apply_txn (puts, dels) (fmlookup (cache s))\<rparr>"
    using assms(3) by (simp add: txn_rel_def)
  ultimately show ?thesis
    using assms(3) keys by (auto simp: txn_rel_def split_beta map_filter_snoc spec_delete_def image_Un)
qed

lemma txn_rel_branch:
  assumes "keys_match s"
  shows "independent ops \<Longrightarrow> txn_rel s ops (txn_branch moved ops s)"
proof (induction ops rule: rev_induct)
  case Nil
  show ?case by (simp add: txn_branch_def txn_rel_def apply_txn_def put_all_def abs_store_def
        List.map_filter_simps)
next
  case (snoc opr ops)
  obtain puts dels resps t where b: "txn_branch moved ops s = ((puts, dels), resps, t)"
    by (metis prod_cases3 surj_pair)
  have rel: "txn_rel s ops ((puts, dels), resps, t)"
    using snoc b independent_snoc(1) by fastforce
  have eq: "txn_branch moved (ops @ [opr]) s = TxnCommon moved opr ((puts, dels), resps, t)"
    using b by (simp add: txn_branch_def)
  show ?case
  proof (cases opr)
    case (RequestPut p)
    then show ?thesis using txn_rel_put [OF assms _ rel] snoc.prems eq by simp
  next
    case (RequestDeleteRange d)
    then show ?thesis using txn_rel_delete [OF assms _ rel] snoc.prems eq by simp
  qed (use rel eq in \<open>auto simp: txn_rel_def map_filter_snoc\<close>)
qed

end
