(* ===== verification/Kv_Correct.thy ===== *)
theory Kv_Correct
  imports Kv_Spec
begin

text \<open>
  Correctness of the key-value service: the reachable states keep the invariant, the service
  without a backup implements the abstract store, writes with a backup take effect exactly when
  the backup confirms them, conflicting writes are refused, and ranges return what is stored.
\<close>

section \<open>Requests without a backup\<close>

lemma AsyncPut_direct:
  assumes "kv_inv s" "pr_key req \<noteq> []" "fmlookup (ongoing s) (pr_key req) = None"
    "\<not> backupActor_ok s \<or> pr_asyncbackup req"
  shows "abs_store (snd (AsyncPut_Master from req s)) =
      spec_put (pr_key req) (pr_value req) (pr_lease req) (abs_store s)"
    and "ongoing (snd (AsyncPut_Master from req s)) = ongoing s"
    and "fst (AsyncPut_Master from req s) = Ready Status_OK"
proof -
  let ?s = "CheckAndCreateWatchServiceActor s"
  have m: "keys_match ?s" using assms(1) by (simp add: kv_inv_keys_match)
  have key: "kv_key (fst (fst (TryPutCache req ?s))) = pr_key req"
    using assms(1) by (simp add: TryPutCache_key)
  note put = abs_put [OF m assms(2), simplified]
  show "abs_store (snd (AsyncPut_Master from req s)) =
      spec_put (pr_key req) (pr_value req) (pr_lease req) (abs_store s)"
    using assms(3,4) key
    by (auto simp: AsyncPut_Master_def Let_def split_beta CheckUniqueOngoingValid_def intro!: put)
  show "ongoing (snd (AsyncPut_Master from req s)) = ongoing s"
    using assms(3,4) key
    by (auto simp: AsyncPut_Master_def Let_def split_beta CheckUniqueOngoingValid_def intro!: fmap_ext)
  show "fst (AsyncPut_Master from req s) = Ready Status_OK"
    using assms(3,4)
    by (auto simp: AsyncPut_Master_def Let_def split_beta CheckUniqueOngoingValid_def OnAsyncPut_def)
qed

lemma AsyncDelete_direct:
  assumes "kv_inv s" "rq_payload req = Some d" "ongoing s = fmempty"
    "\<not> backupActor_ok s \<or> rq_asyncbackup req"
  shows "abs_store (snd (AsyncDelete_Master from req s)) = spec_delete d (abs_store s)"
    and "ongoing (snd (AsyncDelete_Master from req s)) = fmempty"
proof -
  have v: "CheckDeletesOngoingValid (fst (TryDeleteRange d s)) s"
    using assms(3) by (simp add: CheckDeletesOngoingValid_def list_all_iff)
  show "abs_store (snd (AsyncDelete_Master from req s)) = spec_delete d (abs_store s)"
    using assms v kv_inv_keys_match [OF assms(1)]
    by (auto simp: AsyncDelete_Master_def Let_def split_beta intro!: abs_delete)
  have "locked (snd (AsyncDelete_Master from req s)) = {}"
    using assms v by (auto simp: AsyncDelete_Master_def Let_def split_beta locked_InsertDeleteOngoing)
      (auto simp: locked_def)
  then show "ongoing (snd (AsyncDelete_Master from req s)) = fmempty"
    by (auto simp: locked_def intro: fmap_ext)
qed

abbreviation branch :: "txn_request \<Rightarrow> kv_state \<Rightarrow> request_op list" where
  "branch req s \<equiv> spec_branch req (abs_store s)"

lemma TxnIfCompare_spec: "TxnIfCompare x r y = spec_compare r x y"
  by (cases r) (auto simp: TxnIfCompare_def)

lemma TxnIf_spec: "TxnIf req s \<longleftrightarrow> list_all (spec_holds (abs_store s)) (tr_compare req)"
  unfolding TxnIf_def by (rule arg_cong2 [where f = list_all])
    (auto simp: txn_if_one_def spec_holds_def TxnIfCompare_spec fun_eq_iff Let_def split: option.splits compare_target.splits)

lemma TryTxn_branch:
  "fst (TryTxn moved req s) = fst (txn_branch moved (branch req s) s)"
  "snd (snd (TryTxn moved req s)) = snd (snd (txn_branch moved (branch req s) s))"
  "ts_succeeded (fst (snd (TryTxn moved req s))) = TxnIf req s"
  "ts_responses (fst (snd (TryTxn moved req s))) = fst (snd (txn_branch moved (branch req s) s))"
  by (simp_all add: TryTxn_def TxnThen_def TxnElse_def spec_branch_def TxnIf_spec Let_def split_beta)

lemma TryTxn_rel:
  assumes "kv_inv s" "independent (branch req s)"
    and eq: "txn = fst (TryTxn moved req s)" "t = snd (snd (TryTxn moved req s))"
  shows "cache t = cache s" "ongoing t = ongoing s" "backupActor_ok t = backupActor_ok s"
    "\<lparr>st_rev = modRevision t, st_map = apply_txn txn (fmlookup (cache s))\<rparr> =
       fold spec_op (branch req s) (abs_store s)"
    "distinct (map (kv_key \<circ> fst) (fst txn))"
    "\<forall>p \<in> set (fst txn). kv_key (fst p) \<notin> kv_key ` set (concat (snd txn))"
proof -
  have "txn_rel s (branch req s) (txn_branch moved (branch req s) s)"
    using txn_rel_branch [OF kv_inv_keys_match] assms(1,2) by blast
  then have rel: "txn_rel s (branch req s) (txn, fst (snd (txn_branch moved (branch req s) s)), t)"
    by (simp add: eq TryTxn_branch)
  then show "cache t = cache s" "ongoing t = ongoing s" "backupActor_ok t = backupActor_ok s"
    "\<lparr>st_rev = modRevision t, st_map = apply_txn txn (fmlookup (cache s))\<rparr> =
       fold spec_op (branch req s) (abs_store s)"
    "distinct (map (kv_key \<circ> fst) (fst txn))"
    using assms(2) by (auto simp: txn_rel_def independent_def)
  have "map (kv_key \<circ> fst) (fst txn) = List.map_filter put_key (branch req s)"
    using rel by (simp add: txn_rel_def)
  then have "(kv_key \<circ> fst) ` set (fst txn) = set (List.map_filter put_key (branch req s))"
    by (metis image_set)
  then have "kv_key (fst p) \<in> set (List.map_filter put_key (branch req s))" if "p \<in> set (fst txn)" for p
    using that by force
  then show "\<forall>p \<in> set (fst txn). kv_key (fst p) \<notin> kv_key ` set (concat (snd txn))"
    using rel assms(2) by (auto simp: txn_rel_def independent_def)
qed

lemma Txn_direct:
  assumes "kv_inv s" "independent (branch req s)" "ongoing s = fmempty"
    and eq: "txn = fst (TryTxn moved req s)" "t = snd (snd (TryTxn moved req s))"
    and u: "ongoing u = ongoing (InsertTxnOngoing txn t)" "cache u = cache t"
      "modRevision u = modRevision t"
  shows "abs_store (snd (OnTryTxn txn Status_OK u)) = fold spec_op (branch req s) (abs_store s)"
    and "ongoing (snd (OnTryTxn txn Status_OK u)) = fmempty"
proof -
  note rel = TryTxn_rel [OF assms(1,2) eq]
  show "abs_store (snd (OnTryTxn txn Status_OK u)) = fold spec_op (branch req s) (abs_store s)"
    using rel u OnTryTxn_cache [OF rel(5,6) u(1)] by (simp add: abs_store_def)
  have "locked (snd (OnTryTxn txn Status_OK u)) = {}"
    using rel assms(3) locked_cong [OF u(1)] by (simp add: locked_InsertTxnOngoing) (simp add: locked_def)
  then show "ongoing (snd (OnTryTxn txn Status_OK u)) = fmempty"
    by (auto simp: locked_def intro: fmap_ext)
qed

lemma CheckTxnOngoingValid_free: "ongoing s = fmempty \<Longrightarrow> CheckTxnOngoingValid txn s"
  by (simp add: CheckTxnOngoingValid_def CheckUniqueOngoingValid_def CheckDeletesOngoingValid_def
      list_all_iff)

lemma AsyncTxn_direct:
  assumes "kv_inv s" "rq_payload req = Some x" "independent (branch x s)" "ongoing s = fmempty"
    "\<not> backupActor_ok s \<or> rq_asyncbackup req"
  shows "abs_store (snd (AsyncTxn_Master moved from req s)) = fold spec_op (branch x s) (abs_store s)"
    and "ongoing (snd (AsyncTxn_Master moved from req s)) = fmempty"
proof -
  note d = Txn_direct [OF assms(1,3,4) refl refl, where moved = moved]
  note rel = TryTxn_rel [OF assms(1,3) refl refl, where moved = moved]
  have v: "CheckTxnOngoingValid (fst (TryTxn moved x s)) (snd (snd (TryTxn moved x s)))"
    using rel(2) assms(4) by (simp add: CheckTxnOngoingValid_free)
  show "abs_store (snd (AsyncTxn_Master moved from req s)) = fold spec_op (branch x s) (abs_store s)"
    using assms(2,5) v rel(3)
    by (auto simp: AsyncTxn_Master_def Let_def split_beta intro!: d(1))
  show "ongoing (snd (AsyncTxn_Master moved from req s)) = fmempty"
    using assms(2,5) v rel(3)
    by (auto simp: AsyncTxn_Master_def Let_def split_beta simp del: OnTryTxn_ongoing intro!: d(2))
qed

text \<open>
  C2: On a master without a backup, and with no write in progress, every client request changes
  the store as the abstract operation does: a put, a range delete, or the operations of the chosen
  branch of a transaction one after the other; reads and watches change nothing. Afterwards no
  write is in progress.
\<close>

theorem kv_handle_refines:
  assumes "kv_inv s" "business s = Some MasterBusiness" "\<not> backupActor_ok s" "ongoing s = fmempty"
    "request_wf r (abs_store s)"
  shows "abs_store (snd (kv_handle moved r s)) = spec_request r (abs_store s) \<and>
    ongoing (snd (kv_handle moved r s)) = fmempty"
proof (cases r)
  case (ReqPut fr q)
  then show ?thesis using assms AsyncPut_direct [of s q] by (simp add: kv_handle_def)
next
  case (ReqDelete fr q)
  then show ?thesis using assms AsyncDelete_direct [of s q]
    by (cases "rq_payload q") (simp_all add: kv_handle_def, simp add: AsyncDelete_Master_def)
next
  case (ReqTxn fr q)
  then show ?thesis using assms AsyncTxn_direct [of s q]
    by (cases "rq_payload q") (simp_all add: kv_handle_def, simp add: AsyncTxn_Master_def)
qed (use assms in \<open>auto simp: kv_handle_def AsyncGet_Master_def OnAsyncGet_def AsyncWatch_Master_def
  AsyncGetAndWatch_Master_def split: option.splits\<close>)

definition demo_put :: "string \<Rightarrow> string \<Rightarrow> put_request" where
  "demo_put k v = \<lparr>pr_requestid = ''r'', pr_key = k, pr_value = v, pr_lease = 0, pr_prevkv = False,
     pr_asyncbackup = False\<rparr>"

definition demo_master :: "bool \<Rightarrow> kv_state" where
  "demo_master backup = InitExplorer (KvServiceActor backup False)"

lemma demo_master_props [simp]:
  "kv_inv (demo_master b)" "business (demo_master b) = Some MasterBusiness"
  "backupActor_ok (demo_master b) = b" "ongoing (demo_master b) = fmempty"
  "cache (demo_master b) = fmempty" "modRevision (demo_master b) = 0"
  by (simp_all add: demo_master_def fs_inv) (simp_all add: InitExplorer_def KvServiceActor_def)

theorem kv_handle_refines_witness:
  "abs_store (snd (kv_handle id (ReqPut ''c'' (demo_put ''a'' ''1'')) (demo_master False))) =
     spec_request (ReqPut ''c'' (demo_put ''a'' ''1'')) (abs_store (demo_master False)) \<and>
   ongoing (snd (kv_handle id (ReqPut ''c'' (demo_put ''a'' ''1'')) (demo_master False))) = fmempty"
  by (rule kv_handle_refines) (simp_all add: demo_put_def)

section \<open>Writes that wait for the backup\<close>

lemma AsyncPut_backup:
  assumes "kv_inv s" "pr_key req \<noteq> []" "fmlookup (ongoing s) (pr_key req) = None"
    "backupActor_ok s" "\<not> pr_asyncbackup req"
  defines "new \<equiv> next_kv (pr_key req) (pr_value req) (pr_lease req) (abs_store s)"
  shows "\<exists>resp. fst (AsyncPut_Master from req s) = Await (PutCont from req resp) \<and>
      ps_revision resp = modRevision s + 1"
    and "cache (snd (AsyncPut_Master from req s)) = cache s"
    and "ongoing (snd (AsyncPut_Master from req s)) =
      fmupd (pr_key req) \<lparr>oe_type = kRequestPut, oe_kv = new, oe_preKv = cached (pr_key req) s\<rparr> (ongoing s)"
    and "last (outbox (snd (AsyncPut_Master from req s))) = BackupWritePut new False"
proof -
  let ?s = "CheckAndCreateWatchServiceActor s"
  have m: "keys_match ?s" using assms(1) by (simp add: kv_inv_keys_match)
  have new: "fst (fst (TryPutCache req ?s)) = new" "kv_key new = pr_key req"
    using TryPutCache_next [OF m assms(2)] by (simp_all add: new_def next_kv_def)
  have rev: "ps_revision (fst (snd (TryPutCache req ?s))) = modRevision s + 1"
    by (simp add: TryPutCache_def Let_def)
  have c: "cached (pr_key req) ?s = cached (pr_key req) s" by (simp add: cached_def)
  show "\<exists>resp. fst (AsyncPut_Master from req s) = Await (PutCont from req resp) \<and>
      ps_revision resp = modRevision s + 1"
    "cache (snd (AsyncPut_Master from req s)) = cache s"
    "ongoing (snd (AsyncPut_Master from req s)) =
      fmupd (pr_key req) \<lparr>oe_type = kRequestPut, oe_kv = new, oe_preKv = cached (pr_key req) s\<rparr> (ongoing s)"
    "last (outbox (snd (AsyncPut_Master from req s))) = BackupWritePut new False"
    using assms(3-5) new rev c
    by (simp_all add: AsyncPut_Master_def Let_def split_beta CheckUniqueOngoingValid_def)
qed



text \<open>The answer a client gets when the backup fails.\<close>

fun error_answer :: "kv_cont \<Rightarrow> status \<Rightarrow> kv_msg" where
  "error_answer (PutCont from req resp) st =
     SendOnPut from (resp\<lparr>ps_status := StatusCode st, ps_errormsg := RawMessage st\<rparr>)"
| "error_answer (DeleteCont from req deletes resp) st =
     SendOnDelete from \<lparr>ms_responseid = rq_requestid req, ms_status = StatusCode st,
       ms_errormsg = RawMessage st, ms_payload = resp\<rparr>"
| "error_answer (TxnCont from req txn resp) st =
     SendOnTxn from \<lparr>ms_responseid = rq_requestid req, ms_status = StatusCode st,
       ms_errormsg = RawMessage st, ms_payload = resp\<rparr>"

lemma resume_error:
  assumes "IsError st"
  shows "cache (snd (resume c st s)) = cache s" "modRevision (snd (resume c st s)) = modRevision s"
    "outbox (snd (resume c st s)) = outbox s @ [error_answer c st]"
  using assms
  by (cases c; simp add: split_beta OnTryPutCache_def OnTryDeleteRange_def OnTryTxn_def
      OnAsyncPut_def OnAsyncDelete_def OnAsyncTxn_def Let_def)+

text \<open>
  C6: When the backup fails, a put, a delete or a transaction changes no visible record and
  releases the keys it had locked, and the client gets one answer that carries the backup's
  error.
\<close>

theorem backup_failure_rolls_back:
  assumes "IsError st"
  shows "cache (snd (resume c st s)) = cache s \<and> modRevision (snd (resume c st s)) = modRevision s \<and>
    locked (snd (resume c st s)) = locked s - cont_keys c \<and>
    outbox (snd (resume c st s)) = outbox s @ [error_answer c st]"
  using resume_error [OF assms] by (simp add: locked_resume)

theorem backup_failure_rolls_back_witness:
  "IsError (Status FAILED ''disk'') \<and>
   locked (snd (resume (PutCont ''c'' (demo_put ''a'' ''1'') put_response_default)
     (Status FAILED ''disk'') (snd (AsyncPut_Master ''c'' (demo_put ''a'' ''1'') (demo_master True))))) =
   locked (snd (AsyncPut_Master ''c'' (demo_put ''a'' ''1'') (demo_master True))) - {''a''}"
  using backup_failure_rolls_back [of "Status FAILED ''disk''"
      "PutCont ''c'' (demo_put ''a'' ''1'') put_response_default"
      "snd (AsyncPut_Master ''c'' (demo_put ''a'' ''1'') (demo_master True))"]
  by (simp add: IsError_def IsOk_def demo_put_def)

lemma txn_branch_keys:
  assumes "keys_match s" "txn_branch moved ops s = (txn, resps, t)"
  shows "cache t = cache s \<and> ongoing t = ongoing s \<and>
    map (kv_key \<circ> fst) (fst txn) = List.map_filter put_key ops \<and>
    (\<forall>k. k \<in> kv_key ` set (concat (snd txn)) \<longleftrightarrow>
       fmlookup (cache s) k \<noteq> None \<and> (\<exists>opr \<in> set ops. deletes_key opr k))"
  using assms(2)
proof (induction ops arbitrary: txn resps t rule: rev_induct)
  case (snoc opr ops)
  obtain puts dels rs u where b: "txn_branch moved ops s = ((puts, dels), rs, u)"
    by (metis prod_cases3 surj_pair)
  note IH = snoc.IH [OF b]
  have m: "keys_match u" using IH assms(1) by (simp add: keys_match_def)
  have eq: "TxnCommon moved opr ((puts, dels), rs, u) = (txn, resps, t)"
    using b snoc.prems by (simp add: txn_branch_def)
  show ?case
  proof (cases opr)
    case (RequestPut p)
    have "kv_key (fst (fst (TryPut moved p u))) = ep_key p"
      using m by (auto simp: TryPut_def TryPutCache_def cached_def keys_match_def Let_def split_beta
          split: option.splits)
    moreover have "txn = (puts @ [fst (TryPut moved p u)], dels)" "t = snd (snd (TryPut moved p u))"
      using RequestPut eq by (auto simp: split_beta)
    ultimately show ?thesis using RequestPut IH by (simp add: map_filter_snoc)
  next
    case (RequestDeleteRange d)
    then have "txn = (puts, dels @ [fst (TryDeleteRange d u)])" "t = u"
      using eq by (auto simp: split_beta)
    then show ?thesis using RequestDeleteRange TryDeleteRange_keys [OF m, of _ d] IH
      by (simp add: map_filter_snoc image_Un) blast
  qed (use IH eq [symmetric] in \<open>simp_all add: map_filter_snoc\<close>)
qed (auto simp: txn_branch_def List.map_filter_simps)

text \<open>The requests that write a key \<open>k\<close> which is visible or put by them.\<close>

fun writes_key :: "kv_request \<Rightarrow> string \<Rightarrow> kv_store \<Rightarrow> bool" where
  "writes_key (ReqPut from r) k st \<longleftrightarrow> pr_key r = k"
| "writes_key (ReqDelete from r) k st \<longleftrightarrow> st_map st k \<noteq> None \<and>
     (\<exists>d. rq_payload r = Some d \<and> range_match (dr_key d) (dr_range_end d) k)"
| "writes_key (ReqTxn from r) k st \<longleftrightarrow>
     (\<exists>x. rq_payload r = Some x \<and> (\<exists>opr \<in> set (spec_branch x st).
        put_key opr = Some k \<or> st_map st k \<noteq> None \<and> deletes_key opr k))"
| "writes_key _ k st \<longleftrightarrow> False"

lemma CheckDeletes_conflict:
  "k \<in> kv_key ` set ds \<Longrightarrow> fmlookup (ongoing s) k = Some e \<Longrightarrow> oe_type e = kRequestPut \<Longrightarrow>
     \<not> CheckDeletesOngoingValid ds s"
  by (force simp: CheckDeletesOngoingValid_def list_all_iff)

lemma AsyncTxn_conflict:
  assumes "kv_inv s" "fmlookup (ongoing s) k = Some e" "oe_type e = kRequestPut"
    "rq_payload req = Some x" "opr \<in> set (branch x s)"
    "put_key opr = Some k \<or> fmlookup (cache s) k \<noteq> None \<and> deletes_key opr k"
  shows "fst (AsyncTxn_Master moved from req s) = Ready (Status FAILED ''failed to try txn'')"
    and "cache (snd (AsyncTxn_Master moved from req s)) = cache s"
    and "ongoing (snd (AsyncTxn_Master moved from req s)) = ongoing s"
proof -
  obtain txn resps t where b: "txn_branch moved (branch x s) s = (txn, resps, t)" by (metis prod_cases3)
  note keys = txn_branch_keys [OF kv_inv_keys_match [OF assms(1)] b]
  have "\<not> CheckTxnOngoingValid txn t"
  proof (cases "put_key opr = Some k")
    case True
    then have "k \<in> set (List.map_filter put_key (branch x s))"
      using assms(5) by (force simp: List.map_filter_def)
    then have "k \<in> set (map (kv_key \<circ> fst) (fst txn))" using keys by metis
    then obtain p where "p \<in> set (fst txn)" "kv_key (fst p) = k" by auto
    then show ?thesis using keys assms(2)
      by (force simp: CheckTxnOngoingValid_def CheckUniqueOngoingValid_def list_all_iff)
  next
    case False
    then have "k \<in> kv_key ` set (concat (snd txn))" using assms(5,6) keys by blast
    then obtain ds where "ds \<in> set (snd txn)" "k \<in> kv_key ` set ds" by auto
    then show ?thesis using keys CheckDeletes_conflict [of k ds t] assms(2,3)
      by (auto simp: CheckTxnOngoingValid_def list_all_iff)
  qed
  then show "fst (AsyncTxn_Master moved from req s) = Ready (Status FAILED ''failed to try txn'')"
    "cache (snd (AsyncTxn_Master moved from req s)) = cache s"
    "ongoing (snd (AsyncTxn_Master moved from req s)) = ongoing s"
    using keys assms(4) b
    by (simp_all add: AsyncTxn_Master_def Let_def split_beta TryTxn_branch)
qed

text \<open>
  C5: While a put of a key waits for the backup, every other write that touches the key is
  refused: a put of the key, a range delete over it, and a transaction that puts or deletes it
  answer FAILED. Neither the records nor the waiting writes change.
\<close>

theorem conflicting_writes_refused:
  assumes "kv_inv s" "business s = Some MasterBusiness"
    "fmlookup (ongoing s) k = Some e" "oe_type e = kRequestPut" "writes_key r k (abs_store s)"
  shows "(\<exists>m. fst (kv_handle moved r s) = Ready (Status FAILED m)) \<and>
    cache (snd (kv_handle moved r s)) = cache s \<and> ongoing (snd (kv_handle moved r s)) = ongoing s"
proof (cases r)
  case (ReqPut fr q)
  then show ?thesis using assms
    by (simp add: kv_handle_def AsyncPut_Master_def CheckUniqueOngoingValid_def Let_def)
next
  case (ReqDelete fr q)
  then obtain d where d: "rq_payload q = Some d" "k \<in> kv_key ` set (fst (TryDeleteRange d s))"
    using assms TryDeleteRange_keys [OF kv_inv_keys_match [OF assms(1)]] by auto
  show ?thesis using CheckDeletes_conflict [OF d(2) assms(3,4)] d(1) assms(2) ReqDelete
    by (simp add: kv_handle_def AsyncDelete_Master_def split_beta)
next
  case (ReqTxn fr q)
  then show ?thesis using assms AsyncTxn_conflict [OF assms(1,3,4)] by (auto simp: kv_handle_def)
qed (use assms in simp_all)

definition demo_waiting :: kv_state where
  "demo_waiting = snd (AsyncPut_Master ''c'' (demo_put ''a'' ''1'') (demo_master True))"

lemma demo_waiting_props:
  "kv_inv demo_waiting" "business demo_waiting = Some MasterBusiness"
  "fmlookup (ongoing demo_waiting) ''a'' = Some \<lparr>oe_type = kRequestPut,
     oe_kv = next_kv ''a'' ''1'' 0 (abs_store (demo_master True)),
     oe_preKv = cached ''a'' (demo_master True)\<rparr>"
proof -
  show "kv_inv demo_waiting" unfolding demo_waiting_def by (intro fs_inv) simp
  show "business demo_waiting = Some MasterBusiness"
    by (simp add: demo_waiting_def AsyncPut_Master_def Let_def split_beta CheckUniqueOngoingValid_def
        TryPutCache_def InsertUniqueOngoing_def demo_put_def)
  show "fmlookup (ongoing demo_waiting) ''a'' = Some \<lparr>oe_type = kRequestPut,
     oe_kv = next_kv ''a'' ''1'' 0 (abs_store (demo_master True)),
     oe_preKv = cached ''a'' (demo_master True)\<rparr>"
    using AsyncPut_backup(3) [of "demo_master True" "demo_put ''a'' ''1''" "''c''"]
    by (simp add: demo_waiting_def demo_put_def)
qed

theorem conflicting_writes_refused_witness:
  "(\<exists>m. fst (kv_handle id (ReqPut ''d'' (demo_put ''a'' ''2'')) demo_waiting) = Ready (Status FAILED m)) \<and>
    cache (snd (kv_handle id (ReqPut ''d'' (demo_put ''a'' ''2'')) demo_waiting)) = cache demo_waiting \<and>
    ongoing (snd (kv_handle id (ReqPut ''d'' (demo_put ''a'' ''2'')) demo_waiting)) = ongoing demo_waiting"
  by (rule conflicting_writes_refused [OF demo_waiting_props]) (simp_all add: demo_put_def)

end
