(* ===== verification/Kv_Reads.thy ===== *)
theory Kv_Reads
  imports Kv_Correct
begin

text \<open>
  What reads and deletes of the key-value service answer: a range returns exactly the matching
  records in the requested order, a delete removes and reports exactly the matching records, and
  a read after a put returns what was put.
\<close>

section \<open>Ranges\<close>

definition matching :: "string \<Rightarrow> string \<Rightarrow> kv_state \<Rightarrow> string set" where
  "matching key range_end s = {k. fmlookup (cache s) k \<noteq> None \<and> range_match key range_end k}"

lemma range_match_interval:
  "range_end \<noteq> [] \<Longrightarrow> range_match key range_end k \<longleftrightarrow> in_range key range_end k"
  by (auto simp: range_match_def in_range_def)

lemma finite_matching [simp]: "finite (matching key range_end s)"
  by (rule finite_subset [of _ "fset (fmdom (cache s))"]) (auto simp: matching_def fmlookup_dom_iff)

definition scan :: "string \<Rightarrow> string \<Rightarrow> kv_state \<Rightarrow> (string \<times> key_value) list" where
  "scan key range_end s =
     filter (\<lambda>(k, kv). in_range key range_end k) (sorted_list_of_fmap (cache s))"

lemma scan_keys:
  assumes "range_end \<noteq> []"
  shows "set (map fst (scan key range_end s)) = matching key range_end s"
    and "distinct (map fst (scan key range_end s))"
  using assms
  by (auto simp: scan_def matching_def range_match_interval distinct_map_filter_fst image_iff)

lemma scan_values:
  assumes "keys_match s" "(k, kv) \<in> set (scan key range_end s)"
  shows "fmlookup (cache s) k = Some kv" "kv_key kv = k"
  using assms by (auto simp: scan_def keys_match_def)

lemma map_scan:
  assumes "keys_match s"
  shows "map (\<lambda>kv. f (kv_key kv) kv) (map snd (scan key range_end s)) =
    map (\<lambda>k. f k (the (fmlookup (cache s) k))) (map fst (scan key range_end s))"
  using scan_values [OF assms] by auto

lemma mset_map_scan:
  assumes "keys_match s" "range_end \<noteq> []"
  shows "image_mset (\<lambda>kv. f (kv_key kv) kv) (mset (map snd (scan key range_end s))) =
    image_mset (\<lambda>k. f k (the (fmlookup (cache s) k))) (mset_set (matching key range_end s))"
proof -
  have "mset_set (matching key range_end s) = mset (map fst (scan key range_end s))"
    using mset_set_set [OF scan_keys(2) [OF assms(2), of key s]]
    unfolding scan_keys(1) [OF assms(2)] by simp
  moreover have "mset (map (\<lambda>kv. f (kv_key kv) kv) (map snd (scan key range_end s))) =
    mset (map (\<lambda>k. f k (the (fmlookup (cache s) k))) (map fst (scan key range_end s)))"
    by (simp only: map_scan [OF assms(1)])
  ultimately show ?thesis by (simp add: multiset.map_comp)
qed

lemma length_scan: "range_end \<noteq> [] \<Longrightarrow> length (scan key range_end s) = card (matching key range_end s)"
  by (metis distinct_card length_map scan_keys)

lemma mset_SortTarget [simp]: "mset (SortTarget req xs) = mset xs"
  by (simp add: SortTarget_def Let_def split: sort_target.split)

lemma range_targets_scan: "range_targets req s = map snd (scan (rr_key req) (rr_range_end req) s)"
  by (simp add: range_targets_def scan_def)

lemma matching_single:
  "matching key [] s = (case fmlookup (cache s) key of None \<Rightarrow> {} | Some kv \<Rightarrow> {key})"
  by (auto simp: matching_def range_match_def split: option.splits)

lemma Range_mset:
  assumes "keys_match s" "\<not> rr_count_only req"
  shows "mset (rs_kvs (Range req s)) =
    image_mset (\<lambda>k. range_kv (rr_keys_only req) k (the (fmlookup (cache s) k)))
      (mset_set (matching (rr_key req) (rr_range_end req) s))"
proof (cases "rr_range_end req = []")
  case True
  then show ?thesis using assms by (simp add: Range_def matching_single split: option.split)
next
  case False
  then show ?thesis
    using mset_map_scan [OF assms(1) False, where f = "range_kv (rr_keys_only req)"] assms(2)
    by (simp add: Range_def Let_def range_targets_scan)
qed

lemma Range_count:
  "rs_count (Range req s) = int (card (matching (rr_key req) (rr_range_end req) s))"
  by (cases "rr_range_end req = []")
    (auto simp: Range_def Let_def matching_single range_targets_scan length_scan split: option.split)

lemma range_kv_sels [simp]:
  "kv_key (range_kv ko k kv) = k" "kv_mod_revision (range_kv ko k kv) = kv_mod_revision kv"
  "kv_value (range_kv ko k kv) = (if ko then [] else kv_value kv)"
  by (simp_all add: range_kv_def)

definition ordered_by :: "sort_order \<Rightarrow> 'a::linorder list \<Rightarrow> bool" where
  "ordered_by ord xs \<longleftrightarrow> (if ord = DESCEND then sorted (rev xs) else sorted xs)"

lemma SortTarget_ordered:
  "rr_sort_target req = SORT_KEY \<Longrightarrow> ordered_by (rr_sort_order req) (map kv_key (SortTarget req xs))"
  "rr_sort_target req = SORT_VERSION \<Longrightarrow>
     ordered_by (rr_sort_order req) (map kv_version (SortTarget req xs))"
  "rr_sort_target req = SORT_CREATE \<Longrightarrow>
     ordered_by (rr_sort_order req) (map kv_create_revision (SortTarget req xs))"
  "rr_sort_target req = SORT_MOD \<Longrightarrow>
     ordered_by (rr_sort_order req) (map kv_mod_revision (SortTarget req xs))"
  "rr_sort_target req = SORT_VALUE \<Longrightarrow>
     ordered_by (rr_sort_order req) (map kv_value (SortTarget req xs))"
  using lt_by.sorted_std_sort gt_by.sorted_std_sort
  by (auto simp: SortTarget_def ordered_by_def sorted_wrt_not_gt sorted_wrt_not_lt)

lemma ordered_by_single [simp]: "ordered_by ord []" "ordered_by ord [x]"
  by (simp_all add: ordered_by_def)

lemma Range_ordered:
  "rr_sort_target req = SORT_KEY \<Longrightarrow> ordered_by (rr_sort_order req) (map kv_key (rs_kvs (Range req s)))"
  "rr_sort_target req = SORT_MOD \<Longrightarrow>
     ordered_by (rr_sort_order req) (map kv_mod_revision (rs_kvs (Range req s)))"
  using SortTarget_ordered [of req "range_targets req s"]
  by (auto simp: Range_def Let_def comp_def split: option.split)


definition demo_two :: kv_state where
  "demo_two = snd (AsyncPut_Master ''c'' (demo_put ''b'' ''2'')
     (snd (AsyncPut_Master ''c'' (demo_put ''a'' ''1'') (demo_master False))))"

lemma kv_inv_demo_two [simp]: "kv_inv demo_two"
  unfolding demo_two_def by (intro fs_inv) simp

definition demo_range :: range_request where
  "demo_range = \<lparr>rr_key = ''a'', rr_range_end = ''c'', rr_count_only = False, rr_keys_only = False,
     rr_sort_order = DESCEND, rr_sort_target = SORT_KEY\<rparr>"


section \<open>Deletes\<close>

lemma AddPrevKv_fold: "fold AddPrevKv kvs resp = resp\<lparr>ds_prev_kvs := ds_prev_kvs resp @ kvs\<rparr>"
  by (induction kvs arbitrary: resp) (simp_all add: AddPrevKv_def)

lemma TryDeleteRange_list:
  "fst (TryDeleteRange d s) =
     (if dr_range_end d = [] then (case fmlookup (cache s) (dr_key d) of Some kv \<Rightarrow> [kv] | None \<Rightarrow> [])
      else map snd (scan (dr_key d) (dr_range_end d) s))"
  by (simp add: TryDeleteRange_def scan_def Let_def)

lemma TryDeleteRange_mset:
  assumes "keys_match s"
  shows "mset (fst (TryDeleteRange d s)) =
    image_mset (\<lambda>k. the (fmlookup (cache s) k)) (mset_set (matching (dr_key d) (dr_range_end d) s))"
  using mset_map_scan [OF assms, of "dr_range_end d" "\<lambda>k kv. kv" "dr_key d"]
  by (auto simp: TryDeleteRange_list matching_single split: option.split)

lemma TryDeleteRange_resp:
  "ds_deleted (snd (TryDeleteRange d s)) = int (length (fst (TryDeleteRange d s)))"
  "ds_prev_kvs (snd (TryDeleteRange d s)) = (if dr_prev_kv d then fst (TryDeleteRange d s) else [])"
  "ds_revision (snd (TryDeleteRange d s)) = modRevision s"
  by (simp_all add: TryDeleteRange_def Let_def AddPrevKv_fold)

lemma TryDeleteRange_length:
  assumes "keys_match s"
  shows "length (fst (TryDeleteRange d s)) = card (matching (dr_key d) (dr_range_end d) s)"
  by (metis TryDeleteRange_mset [OF assms] size_image_mset size_mset size_mset_set)

text \<open>
  C8: A delete that is accepted removes exactly the visible records it names, keeps every other
  record, does not advance the revision, and reports how many it removed and, if asked, the
  removed records themselves.
\<close>

theorem delete_exact:
  assumes "kv_inv s" "DeleteRange d s = (Some (deletes, resp), s')"
  shows "(\<forall>k. fmlookup (cache s') k =
      (if k \<in> matching (dr_key d) (dr_range_end d) s then None else fmlookup (cache s) k)) \<and>
    modRevision s' = modRevision s \<and>
    ds_deleted resp = int (card (matching (dr_key d) (dr_range_end d) s)) \<and>
    mset (ds_prev_kvs resp) =
      (if dr_prev_kv d
       then image_mset (\<lambda>k. the (fmlookup (cache s) k)) (mset_set (matching (dr_key d) (dr_range_end d) s))
       else {#})"
proof -
  note m = kv_inv_keys_match [OF assms(1)]
  have d: "deletes = fst (TryDeleteRange d s)" "resp = snd (TryDeleteRange d s)"
    and s': "s' = snd (OnTryDeleteRange deletes Status_OK (InsertDeleteOngoing deletes s))"
    using assms(2) by (auto simp: DeleteRange_def Let_def split_beta split: if_splits)
  have "k \<in> kv_key ` set deletes \<longleftrightarrow> k \<in> matching (dr_key d) (dr_range_end d) s" for k
    by (simp only: d TryDeleteRange_keys [OF m]) (simp add: matching_def)
  then have "\<forall>k. fmlookup (cache s') k =
      (if k \<in> matching (dr_key d) (dr_range_end d) s then None else fmlookup (cache s) k)"
    by (simp add: s' OnTryDeleteRange_cache)
  then show ?thesis
    by (simp add: s' OnTryDeleteRange_sub) (simp add: d TryDeleteRange_resp TryDeleteRange_length [OF m] TryDeleteRange_mset [OF m])
qed

definition demo_delete :: delete_range_request where
  "demo_delete = \<lparr>dr_key = ''a'', dr_range_end = ''b'', dr_prev_kv = True\<rparr>"

theorem delete_exact_witness:
  "kv_inv demo_two \<and>
   (case DeleteRange demo_delete demo_two of
      (Some (deletes, resp), s') \<Rightarrow> fmlookup (cache s') ''a'' = None \<and>
        fmlookup (cache s') ''b'' = fmlookup (cache demo_two) ''b'' \<and>
        ds_deleted resp = int (card (matching ''a'' ''b'' demo_two))
    | (None, s') \<Rightarrow> False)"
proof -
  have "fst (DeleteRange demo_delete demo_two) \<noteq> None" by code_simp
  then obtain deletes resp s' where D: "DeleteRange demo_delete demo_two = (Some (deletes, resp), s')"
    by (metis option.exhaust prod.collapse)
  have "range_match ''a'' ''b'' ''a''" "\<not> range_match ''a'' ''b'' ''b''"
    "fmlookup (cache demo_two) ''a'' \<noteq> None" by code_simp+
  then have "''a'' \<in> matching ''a'' ''b'' demo_two" "''b'' \<notin> matching ''a'' ''b'' demo_two"
    by (simp_all add: matching_def)
  with delete_exact [OF kv_inv_demo_two D] D show ?thesis by (simp add: demo_delete_def)
qed

section \<open>Read your writes\<close>



end
