(* ===== verification/Kv_Runs.thy ===== *)
theory Kv_Runs
  imports Kv_Reads
begin

text \<open>
  Properties of the runs of the key-value service: what holds in every reachable state, that
  revisions only grow, and two runs in which a write that was acknowledged is lost.
\<close>

section \<open>Reachable states\<close>


lemma kv_reachable_start: "kv_reachable moved backup explore (kv_start backup explore)"
  by (simp add: kv_reachable_def)

lemma kv_reachable_step:
  "kv_reachable moved backup explore y \<Longrightarrow> kv_step moved y z \<Longrightarrow> kv_reachable moved backup explore z"
  unfolding kv_reachable_def by simp

definition request_step :: "(key_value \<Rightarrow> key_value) \<Rightarrow> kv_request \<Rightarrow> kv_sys \<Rightarrow> kv_sys" where
  "request_step moved r y =
     (let (fut, s) = kv_handle moved r (actor y) in \<lparr>actor = s, pending = pending y + awaited fut\<rparr>)"

lemma kv_reachable_request:
  "kv_reachable moved backup explore y \<Longrightarrow> kv_reachable moved backup explore (request_step moved r y)"
  by (erule kv_reachable_step) (auto simp: request_step_def split_beta intro: kv_step.request)

definition backup_step :: "kv_cont \<Rightarrow> status \<Rightarrow> kv_sys \<Rightarrow> kv_sys" where
  "backup_step c st y = \<lparr>actor = snd (resume c st (actor y)), pending = pending y - {#c#}\<rparr>"

lemma kv_reachable_backup:
  "kv_reachable moved backup explore y \<Longrightarrow> c \<in># pending y \<Longrightarrow>
     kv_reachable moved backup explore (backup_step c st y)"
  by (erule kv_reachable_step) (auto simp: backup_step_def intro: kv_step.backup)


section \<open>Revisions only grow\<close>

lemma TxnCommon_modRevision: "modRevision (snd (snd acc)) \<le> modRevision (snd (snd (TxnCommon moved opr acc)))"
  by (induction moved opr acc rule: TxnCommon.induct) (simp_all add: Let_def split_beta)

lemma TryTxn_modRevision: "modRevision s \<le> modRevision (snd (snd (TryTxn moved req s)))"
proof -
  have step: "modRevision (snd (snd acc)) \<le> modRevision (snd (snd (fold (TxnCommon moved) ops acc)))"
    for ops acc
  proof (induction ops arbitrary: acc)
    case (Cons opr ops)
    from TxnCommon_modRevision [of acc moved opr] Cons [of "TxnCommon moved opr acc"]
    show ?case by (simp del: split_paired_All)
  qed simp
  from step [of "(([], []), [], s)"] show ?thesis
    by (simp add: TryTxn_def TxnThen_def TxnElse_def txn_branch_def Let_def split_beta)
qed

text \<open>A waiting write is never older than the visible record of its key.\<close>

definition fresh_locks :: "kv_state \<Rightarrow> bool" where
  "fresh_locks s \<longleftrightarrow> (\<forall>k e kv. fmlookup (ongoing s) k = Some e \<longrightarrow> fmlookup (cache s) k = Some kv \<longrightarrow>
     kv_mod_revision kv \<le> kv_mod_revision (oe_kv e))"

definition cache_le :: "kv_state \<Rightarrow> kv_state \<Rightarrow> bool" where
  "cache_le s t \<longleftrightarrow> (\<forall>k v v'. fmlookup (cache s) k = Some v \<longrightarrow> fmlookup (cache t) k = Some v' \<longrightarrow>
     kv_mod_revision v \<le> kv_mod_revision v')"

definition keeps_keys :: "kv_state \<Rightarrow> kv_state \<Rightarrow> bool" where
  "keeps_keys s t \<longleftrightarrow> (\<forall>k. fmlookup (cache s) k \<noteq> None \<longrightarrow> fmlookup (cache t) k \<noteq> None)"

definition shrinks :: "kv_state \<Rightarrow> kv_state \<Rightarrow> bool" where
  "shrinks s t \<longleftrightarrow> (\<forall>k v. fmlookup (cache t) k = Some v \<longrightarrow> fmlookup (cache s) k = Some v) \<and>
     (\<forall>k e. fmlookup (ongoing t) k = Some e \<longrightarrow> fmlookup (ongoing s) k = Some e)"

lemma shrinks_fresh: "shrinks s t \<Longrightarrow> fresh_locks s \<Longrightarrow> fresh_locks t"
  unfolding shrinks_def fresh_locks_def by blast

lemma shrinks_cache_le: "cache_le s t \<Longrightarrow> shrinks t u \<Longrightarrow> cache_le s u"
  unfolding shrinks_def cache_le_def by blast

lemma shrinks_trans: "shrinks s t \<Longrightarrow> shrinks t u \<Longrightarrow> shrinks s u"
  unfolding shrinks_def by blast

lemma cache_le_refl [simp]: "cache_le s s"
  by (simp add: cache_le_def)

lemma cache_le_trans: "cache_le s t \<Longrightarrow> keeps_keys s t \<Longrightarrow> cache_le t u \<Longrightarrow> cache_le s u"
  unfolding cache_le_def keeps_keys_def by (metis option.distinct(1) option.exhaust order_trans)

lemma OnTryPutCache_fresh:
  assumes "fresh_locks s"
  shows "fresh_locks (snd (OnTryPutCache k st s)) \<and> cache_le s (snd (OnTryPutCache k st s)) \<and>
    keeps_keys s (snd (OnTryPutCache k st s))"
  using assms
  by (auto simp: OnTryPutCache_def fresh_locks_def cache_le_def keeps_keys_def split: option.splits if_splits)

lemma fold_OnTryPutCache_fresh:
  assumes "fresh_locks s"
  defines "f \<equiv> \<lambda>p s. snd (OnTryPutCache (kv_key (fst p)) Status_OK s)"
  shows "fresh_locks (fold f ps s) \<and> cache_le s (fold f ps s) \<and> keeps_keys s (fold f ps s)"
  using assms(1)
proof (induction ps arbitrary: s)
  case (Cons p ps)
  have p: "fresh_locks (f p s)" "cache_le s (f p s)" "keeps_keys s (f p s)"
    using OnTryPutCache_fresh [OF Cons.prems] by (simp_all add: f_def)
  from Cons.IH [OF p(1)] p show ?case
    by (auto intro: cache_le_trans) (auto simp: keeps_keys_def)
qed (simp add: keeps_keys_def)

lemma OnTryDeleteRange_shrinks: "shrinks s (snd (OnTryDeleteRange ds st s))"
  by (auto simp: OnTryDeleteRange_def shrinks_def split: if_splits)

lemma fold_shrinks:
  assumes "\<And>x s. shrinks s (f x s)" shows "shrinks s (fold f xs s)"
proof (induction xs arbitrary: s)
  case (Cons x xs)
  from shrinks_trans [OF assms [of s x] Cons [of "f x s"]] show ?case by simp
qed (simp add: shrinks_def)

lemma OnTryTxn_fresh:
  assumes "fresh_locks s"
  shows "fresh_locks (snd (OnTryTxn txn st s)) \<and> cache_le s (snd (OnTryTxn txn st s))"
proof (cases "IsError st")
  case True
  then have "shrinks s (snd (OnTryTxn txn st s))"
    by (auto simp: OnTryTxn_def shrinks_def split: if_splits)
  from shrinks_fresh [OF this assms] shrinks_cache_le [OF cache_le_refl this] show ?thesis by simp
next
  case False
  let ?t = "fold (\<lambda>p s. snd (OnTryPutCache (kv_key (fst p)) Status_OK s)) (fst txn) s"
  let ?u = "fold (\<lambda>ds s. snd (OnTryDeleteRange ds Status_OK s)) (snd txn) ?t"
  have u: "snd (OnTryTxn txn st s) = ?u" using False by (simp add: OnTryTxn_def Let_def)
  have sh: "shrinks ?t ?u" by (rule fold_shrinks) (rule OnTryDeleteRange_shrinks)
  have f: "fresh_locks ?t" "cache_le s ?t" using fold_OnTryPutCache_fresh [OF assms, of "fst txn"] by simp_all
  show ?thesis unfolding u using shrinks_fresh [OF sh f(1)] shrinks_cache_le [OF f(2) sh] by simp
qed

lemma fresh_cong: "cache t = cache s \<Longrightarrow> ongoing t = ongoing s \<Longrightarrow> fresh_locks t = fresh_locks s"
  by (simp add: fresh_locks_def)

lemma cache_le_cong: "cache t = cache s \<Longrightarrow> cache_le s t"
  by (simp add: cache_le_def)

lemma OnAsync_fresh [simp]:
  "fresh_locks (snd (OnAsyncPut from req resp st s)) = fresh_locks s"
  "fresh_locks (snd (OnAsyncDelete from dreq dresp st s)) = fresh_locks s"
  "fresh_locks (snd (OnAsyncTxn from treq tresp st s)) = fresh_locks s"
  "cache_le u (snd (OnAsyncPut from req resp st s)) = cache_le u s"
  "cache_le u (snd (OnAsyncDelete from dreq dresp st s)) = cache_le u s"
  "cache_le u (snd (OnAsyncTxn from treq tresp st s)) = cache_le u s"
  by (simp_all add: OnAsyncPut_def OnAsyncDelete_def OnAsyncTxn_def Let_def fresh_locks_def cache_le_def)

lemma resume_fresh:
  "fresh_locks s \<Longrightarrow> fresh_locks (snd (resume c st s)) \<and> cache_le s (snd (resume c st s))"
  using OnTryPutCache_fresh [of s] OnTryTxn_fresh [of s]
    shrinks_fresh [OF OnTryDeleteRange_shrinks] shrinks_cache_le [OF cache_le_refl OnTryDeleteRange_shrinks]
  by (cases c) (simp_all add: split_beta)

lemma InsertUnique_fresh:
  assumes "fresh_locks s" "\<And>v. fmlookup (cache s) (kv_key kv) = Some v \<Longrightarrow> kv_mod_revision v \<le> kv_mod_revision kv"
  shows "fresh_locks (InsertUniqueOngoing t kv p s)"
  using assms by (simp add: fresh_locks_def)

lemma fold_InsertUnique_fresh:
  assumes "fresh_locks s"
    "\<And>x v. x \<in> set xs \<Longrightarrow> fmlookup (cache s) (kv_key (f x)) = Some v \<Longrightarrow>
       kv_mod_revision v \<le> kv_mod_revision (f x)"
  shows "fresh_locks (fold (\<lambda>x. InsertUniqueOngoing t (f x) (g x)) xs s)"
  using assms
proof (induction xs arbitrary: s)
  case (Cons x xs)
  have "fresh_locks (InsertUniqueOngoing t (f x) (g x) s)"
    by (rule InsertUnique_fresh [OF Cons.prems(1)]) (simp add: Cons.prems(2))
  from Cons.IH [OF this] show ?case by (simp add: Cons.prems(2))
qed simp

lemma InsertDelete_fresh:
  assumes "fresh_locks s" "\<And>kv. kv \<in> set ds \<Longrightarrow> fmlookup (cache s) (kv_key kv) = Some kv"
  shows "fresh_locks (InsertDeleteOngoing ds s)"
  unfolding InsertDeleteOngoing_def
  by (rule fold_InsertUnique_fresh [OF assms(1), where f = "\<lambda>x. x" and g = "\<lambda>_. kv_default"])
    (simp add: assms(2))

lemma fold_InsertDelete_fresh:
  assumes "fresh_locks s" "\<And>kv. kv \<in> set (concat dss) \<Longrightarrow> fmlookup (cache s) (kv_key kv) = Some kv"
  shows "fresh_locks (fold InsertDeleteOngoing dss s)"
  using assms
proof (induction dss arbitrary: s)
  case (Cons ds dss)
  have "fresh_locks (InsertDeleteOngoing ds s)"
    by (rule InsertDelete_fresh [OF Cons.prems(1)]) (simp add: Cons.prems(2))
  from Cons.IH [OF this] show ?case using Cons.prems(2) by auto
qed simp

definition txn_fresh :: "kv_state \<Rightarrow> txn_acc \<Rightarrow> bool" where
  "txn_fresh s acc \<longleftrightarrow> (case acc of (txn, resps, t) \<Rightarrow> cache t = cache s \<and> ongoing t = ongoing s \<and>
     modRevision s \<le> modRevision t \<and> (\<forall>p \<in> set (fst txn). modRevision s < kv_mod_revision (fst p)) \<and>
     (\<forall>kv \<in> set (concat (snd txn)). fmlookup (cache s) (kv_key kv) = Some kv))"

lemma TryPut_mod: "kv_mod_revision (fst (fst (TryPut moved p s))) = modRevision s + 1"
  by (simp add: TryPut_def TryPutCache_def Let_def split_beta)

lemma TryDeleteRange_cached:
  "keys_match s \<Longrightarrow> kv \<in> set (fst (TryDeleteRange d s)) \<Longrightarrow> fmlookup (cache s) (kv_key kv) = Some kv"
  by (auto simp: set_TryDeleteRange keys_match_def)

lemma txn_fresh_step:
  assumes "keys_match s" "txn_fresh s acc"
  shows "txn_fresh s (TxnCommon moved opr acc)"
proof -
  obtain puts dels resps t where acc: "acc = ((puts, dels), resps, t)" by (metis prod_cases3 surj_pair)
  have "keys_match t" using assms by (simp add: keys_match_def txn_fresh_def acc)
  then show ?thesis using assms(2) TryDeleteRange_cached [of t]
    by (cases opr) (auto simp: acc txn_fresh_def split_beta TryPut_mod)
qed

lemma TryTxn_fresh:
  assumes "kv_inv s" "fresh_locks s"
  shows "fresh_locks (InsertTxnOngoing (fst (TryTxn moved req s)) (snd (snd (TryTxn moved req s))))"
    and "cache (snd (snd (TryTxn moved req s))) = cache s"
    and "ongoing (snd (snd (TryTxn moved req s))) = ongoing s"
proof -
  have fold: "txn_fresh s acc \<Longrightarrow> txn_fresh s (fold (TxnCommon moved) ops acc)" for ops acc
    by (induction ops arbitrary: acc) (simp_all add: txn_fresh_step [OF kv_inv_keys_match [OF assms(1)]])
  have "txn_fresh s (([], []), [], s)" by (simp add: txn_fresh_def)
  then have "txn_fresh s (txn_branch moved (branch req s) s)" unfolding txn_branch_def by (rule fold)
  moreover define txn t where eq: "txn = fst (TryTxn moved req s)" "t = snd (snd (TryTxn moved req s))"
  ultimately have "txn_fresh s (txn, fst (snd (txn_branch moved (branch req s) s)), t)"
    by (simp add: TryTxn_branch)
  then have f: "cache t = cache s" "ongoing t = ongoing s"
      "\<And>p. p \<in> set (fst txn) \<Longrightarrow> modRevision s < kv_mod_revision (fst p)"
      "\<And>kv. kv \<in> set (concat (snd txn)) \<Longrightarrow> fmlookup (cache s) (kv_key kv) = Some kv"
    by (auto simp: txn_fresh_def)
  have old: "kv_mod_revision v \<le> modRevision s" if "fmlookup (cache s) k = Some v" for k v
    using kv_inv_cache [OF assms(1) that] by (simp add: kv_ok_def)
  have "fresh_locks t" using assms(2) f fresh_cong by blast
  then have "fresh_locks (InsertTxnOngoing txn t)"
    unfolding InsertTxnOngoing_def
    by (intro fold_InsertDelete_fresh fold_InsertUnique_fresh) (use f old in force)+
  then show "fresh_locks (InsertTxnOngoing (fst (TryTxn moved req s)) (snd (snd (TryTxn moved req s))))"
    "cache (snd (snd (TryTxn moved req s))) = cache s"
    "ongoing (snd (snd (TryTxn moved req s))) = ongoing s"
    using f(1,2) eq by simp_all
qed

lemma fresh_emit [simp]:
  "fresh_locks (emit m s) = fresh_locks s" "cache_le u (emit m s) = cache_le u s"
  "cache_le (emit m s) u = cache_le s u"
  by (simp_all add: fresh_locks_def cache_le_def)

definition advances :: "kv_state \<Rightarrow> kv_state \<Rightarrow> bool" where
  "advances s t \<longleftrightarrow> modRevision s \<le> modRevision t \<and> fresh_locks t \<and> cache_le s t"

lemma advances_simps [simp]:
  "advances s (emit m t) = advances s t"
  "advances s (snd (OnAsyncPut from req resp st t)) = advances s t"
  "advances s (snd (OnAsyncDelete from dreq dresp st t)) = advances s t"
  "advances s (snd (OnAsyncTxn from treq tresp st t)) = advances s t"
  by (simp_all add: advances_def)

text \<open>The state of a write whose locks are set and whose records are not yet visible.\<close>

definition poised :: "kv_state \<Rightarrow> kv_state \<Rightarrow> bool" where
  "poised s u \<longleftrightarrow> fresh_locks u \<and> cache u = cache s \<and> modRevision s \<le> modRevision u"

lemma poised_emit [simp]: "poised s (emit m u) = poised s u"
  by (simp add: poised_def)

lemma poised_refl: "fresh_locks s \<Longrightarrow> poised s s"
  by (simp add: poised_def)

lemma poised_advances:
  assumes "poised s u"
  shows "advances s u" "advances s (snd (OnTryPutCache k st u))"
    "advances s (snd (OnTryDeleteRange ds st u))" "advances s (snd (OnTryTxn txn st u))"
proof -
  have u: "fresh_locks u" "modRevision s \<le> modRevision u" "cache_le u v \<Longrightarrow> cache_le s v" for v
    using assms by (simp_all add: poised_def cache_le_def)
  show "advances s u" using u by (simp add: advances_def)
  show "advances s (snd (OnTryPutCache k st u))"
    using u OnTryPutCache_fresh [OF u(1)] by (simp add: advances_def OnTryPutCache_sub)
  show "advances s (snd (OnTryTxn txn st u))"
    using u OnTryTxn_fresh [OF u(1)] by (simp add: advances_def)
  show "advances s (snd (OnTryDeleteRange ds st u))"
    using u shrinks_fresh [OF OnTryDeleteRange_shrinks u(1)]
      shrinks_cache_le [OF cache_le_refl OnTryDeleteRange_shrinks]
    by (simp add: advances_def OnTryDeleteRange_sub)
qed

lemma put_locks_fresh:
  assumes "kv_inv s" "fresh_locks s"
  shows "fresh_locks (InsertUniqueOngoing t (fst (fst (TryPutCache req s))) p (snd (snd (TryPutCache req s))))"
proof (rule InsertUnique_fresh)
  show "fresh_locks (snd (snd (TryPutCache req s)))"
    using assms(2) fresh_cong [of "snd (snd (TryPutCache req s))" s] by simp
  have m: "kv_mod_revision (fst (fst (TryPutCache req s))) = modRevision s + 1"
    by (simp add: TryPutCache_def Let_def)
  show "kv_mod_revision v \<le> kv_mod_revision (fst (fst (TryPutCache req s)))"
    if "fmlookup (cache (snd (snd (TryPutCache req s)))) (kv_key (fst (fst (TryPutCache req s)))) = Some v" for v
    using kv_inv_cache [OF assms(1) that [simplified]] by (simp add: m kv_ok_def)
qed

lemma delete_locks_fresh:
  "kv_inv s \<Longrightarrow> fresh_locks s \<Longrightarrow> fresh_locks (InsertDeleteOngoing (fst (TryDeleteRange d s)) s)"
  by (rule InsertDelete_fresh) (auto intro: TryDeleteRange_cached kv_inv_keys_match)

lemma poised_writes:
  assumes "kv_inv s" "fresh_locks s"
  shows "poised s (InsertUniqueOngoing t (fst (fst (TryPutCache req s))) p (snd (snd (TryPutCache req s))))"
    "poised s (InsertDeleteOngoing (fst (TryDeleteRange d s)) s)"
    "poised s (InsertTxnOngoing (fst (TryTxn moved treq s)) (snd (snd (TryTxn moved treq s))))"
    "poised s (snd (snd (TryTxn moved treq s)))"
  using put_locks_fresh [OF assms] delete_locks_fresh [OF assms] TryTxn_fresh [OF assms]
    TryTxn_modRevision [of s moved treq] fresh_cong [of "snd (snd (TryTxn moved treq s))" s] assms(2)
  by (simp_all add: poised_def)

lemma advances_CheckAndCreate [simp]:
  "advances (CheckAndCreateWatchServiceActor s) t = advances s t"
  by (simp add: advances_def cache_le_def)

lemma advances_handlers:
  assumes "kv_inv s" "fresh_locks s"
  shows "advances s (snd (AsyncPut_Master from req s))"
    "advances s (snd (AsyncDelete_Master from dreq s))"
    "advances s (snd (AsyncTxn_Master moved from treq s))"
    "advances s (snd (Put moved ereq s))"
    "advances s (snd (DeleteRange d s))" "advances s (snd (Txn moved t s))"
proof -
  let ?s = "CheckAndCreateWatchServiceActor s"
  have s: "kv_inv ?s" "fresh_locks ?s" using assms fresh_cong [of ?s s] by simp_all
  have "advances ?s (snd (AsyncPut_Master from req s))"
    using poised_writes(1) [OF s, of kRequestPut req] poised_refl [OF s(2)]
    by (auto simp: AsyncPut_Master_def Let_def split_beta simp del: advances_CheckAndCreate
        intro: poised_advances)
  then show "advances s (snd (AsyncPut_Master from req s))" by simp
qed (use poised_writes [OF assms] poised_refl [OF assms(2)] in \<open>auto simp: AsyncDelete_Master_def
  AsyncTxn_Master_def Put_def DeleteRange_def Txn_def TryPut_def Let_def split_beta
  intro: poised_advances split: option.split\<close>)

lemma advances_admin:
  assumes "fresh_locks s"
  shows "advances s (snd (OnRevoke keys s))" "advances s (OnCreateWatcher r s)"
    "advances s (snd (OnAsyncGetAndWatch from uuid w wresp s))"
    "advances s (snd (UpdateLeaderInfo self leader s))" "advances s (OnHealthyStatus st s)"
    "advances s (snd (AsyncGet_Master from gq s))" "advances s (snd (AsyncWatch_Master from wq s))"
    "advances s (snd (AsyncGetAndWatch_Master from wq s))"
proof -
  show "advances s (snd (OnRevoke keys s))"
    using assms by (auto simp: advances_def fresh_locks_def cache_le_def OnRevoke_sels split: if_splits)
qed (rule poised_advances(1), use assms in \<open>auto simp: poised_def fresh_locks_def OnAsyncGetAndWatch_def
  UpdateLeaderInfo_def OnHealthyStatus_def AsyncGet_Master_def OnAsyncGet_def AsyncWatch_Master_def
  AsyncGetAndWatch_Master_def Let_def split: option.split\<close>)+

lemma advances_handle:
  assumes "kv_inv s" "fresh_locks s" shows "advances s (snd (kv_handle moved r s))"
  using advances_handlers [OF assms] advances_admin [OF assms(2)] poised_advances(1) [OF poised_refl [OF assms(2)]]
  by (cases r) (auto simp: kv_handle_def slave_reply_def split: option.split business.split)

lemma advances_step:
  assumes "kv_step moved y z" "kv_inv (actor y)" "fresh_locks (actor y)"
  shows "advances (actor y) (actor z)"
  using assms
proof (induction rule: kv_step.induct)
  case (request r y fut s)
  then show ?case using advances_handle [of "actor y" moved r] by simp
next
  case (backup c y st)
  have "modRevision (snd (resume c st (actor y))) = modRevision (actor y)"
    by (cases c) (simp_all add: split_beta OnTryPutCache_sub OnTryDeleteRange_sub)
  then show ?case using resume_fresh [OF backup.prems(2)] by (simp add: advances_def)
qed (simp_all add: advances_handlers advances_admin)

lemma reachable_fresh: "kv_reachable moved backup explore y \<Longrightarrow> kv_inv (actor y) \<and> fresh_locks (actor y)"
  unfolding kv_reachable_def
proof (induction rule: rtranclp_induct)
  case base
  show ?case
    by (simp add: kv_start_def fs_inv) (simp add: fresh_locks_def InitExplorer_def KvServiceActor_def)
next
  case (step y z)
  have "kv_reachable moved backup explore z"
    using step(1,2) unfolding kv_reachable_def by (rule rtranclp.rtrancl_into_rtrancl)
  then show ?case
    using kv_sys_inv_reachable advances_step [OF step(2)] step(3) by (simp add: kv_sys_inv_def advances_def)
qed



section \<open>A lost write\<close>

text \<open>Runs as lists of inputs: a request, or the answer to the waiting write at a position.\<close>

datatype kv_input = Request kv_request | Answer nat status

definition drop_nth :: "nat \<Rightarrow> 'a list \<Rightarrow> 'a list" where
  "drop_nth i xs = take i xs @ drop (Suc i) xs"

fun kv_exec :: "(key_value \<Rightarrow> key_value) \<Rightarrow> kv_input \<Rightarrow> kv_state \<times> kv_cont list \<Rightarrow> kv_state \<times> kv_cont list" where
  "kv_exec moved (Request r) (s, cs) =
     (case kv_handle moved r s of (Await c, s) \<Rightarrow> (s, cs @ [c]) | (_, s) \<Rightarrow> (s, cs))"
| "kv_exec moved (Answer i st) (s, cs) =
     (if i < length cs then (snd (resume (cs ! i) st s), drop_nth i cs) else (s, cs))"

definition kv_run :: "(key_value \<Rightarrow> key_value) \<Rightarrow> bool \<Rightarrow> kv_input list \<Rightarrow> kv_state \<times> kv_cont list" where
  "kv_run moved backup ins = fold (kv_exec moved) ins (InitExplorer (KvServiceActor backup False), [])"

definition as_sys :: "kv_state \<times> kv_cont list \<Rightarrow> kv_sys" where
  "as_sys p = \<lparr>actor = fst p, pending = mset (snd p)\<rparr>"

lemma mset_drop_nth: "i < length xs \<Longrightarrow> mset (drop_nth i xs) = mset xs - {#xs ! i#}"
  unfolding drop_nth_def by (metis add_mset_remove_trivial id_take_nth_drop mset.simps(2)
      mset_append union_mset_add_mset_right)

lemma kv_exec_reachable:
  assumes "kv_reachable moved backup explore (as_sys p)"
  shows "kv_reachable moved backup explore (as_sys (kv_exec moved i p))"
proof -
  obtain s cs where p: "p = (s, cs)" by force
  show ?thesis
  proof (cases i)
    case (Request r)
    obtain fut t where h: "kv_handle moved r s = (fut, t)" by force
    have "as_sys (kv_exec moved i p) = request_step moved r (as_sys p)"
      by (cases fut) (simp_all add: Request p h as_sys_def request_step_def)
    then show ?thesis using assms kv_reachable_request by simp
  next
    case (Answer j st)
    show ?thesis
    proof (cases "j < length cs")
      case True
      then have "as_sys (kv_exec moved i p) = backup_step (cs ! j) st (as_sys p)"
        by (simp add: Answer p as_sys_def backup_step_def mset_drop_nth)
      moreover have "cs ! j \<in># pending (as_sys p)" using True by (simp add: p as_sys_def)
      ultimately show ?thesis using assms kv_reachable_backup by simp
    qed (use assms Answer p in simp)
  qed
qed

lemma kv_run_reachable: "kv_reachable moved backup False (as_sys (kv_run moved backup ins))"
proof -
  have "kv_reachable moved backup False (as_sys p) \<Longrightarrow>
    kv_reachable moved backup False (as_sys (fold (kv_exec moved) ins p))" for p
    by (induction ins arbitrary: p) (simp_all add: kv_exec_reachable del: split_paired_All)
  moreover have "as_sys (InitExplorer (KvServiceActor backup False), []) = kv_start backup False"
    by (simp add: as_sys_def kv_start_def)
  ultimately show ?thesis by (simp add: kv_run_def kv_reachable_start)
qed

definition demo_del_req :: "delete_range_request meta_request" where
  "demo_del_req = \<lparr>rq_requestid = ''d'', rq_payload = Some \<lparr>dr_key = ''a'', dr_range_end = [],
     dr_prev_kv = False\<rparr>, rq_asyncbackup = False\<rparr>"

text \<open>Two deletes of a key wait together; the first is confirmed, a put of the key is accepted,
  and the second delete's confirmation drops the put.\<close>

definition lost_put_run :: "kv_input list" where
  "lost_put_run =
     [Request (ReqPut ''c'' (demo_put ''a'' ''1'')), Answer 0 Status_OK,
      Request (ReqDelete ''d'' demo_del_req), Request (ReqDelete ''e'' demo_del_req), Answer 0 Status_OK,
      Request (ReqPut ''f'' (demo_put ''a'' ''2'')), Answer 0 Status_OK, Answer 0 Status_OK]"

text \<open>
  A put can be acknowledged and lost: there is a reachable state with no write in progress
  whose last message tells the client \<^verbatim>\<open>f\<close> that its put of a key succeeded, although the key is
  absent and the put was the last request the service accepted.
\<close>

theorem acknowledged_put_can_be_lost:
  "\<exists>y resp. kv_reachable id True False y \<and> pending y = {#} \<and>
     y = as_sys (kv_run id True lost_put_run) \<and>
     last (outbox (actor y)) = SendOnPut ''f'' resp \<and> ps_status resp = SUCCESS \<and> ps_revision resp = 2 \<and>
     fmlookup (cache (actor y)) ''a'' = None"
proof -
  let ?p = "kv_run id True lost_put_run"
  let ?resp = "put_response_default\<lparr>ps_requestid := ''r'', ps_revision := 2\<rparr>"
  have "snd ?p = []" "last (outbox (fst ?p)) = SendOnPut ''f'' ?resp"
    "ps_status ?resp = SUCCESS" "ps_revision ?resp = 2" "fmlookup (cache (fst ?p)) ''a'' = None"
    by code_simp+
  then show ?thesis
    using kv_run_reachable [of id True lost_put_run]
    by (intro exI [of _ "as_sys ?p"] exI [of _ ?resp]) (simp add: as_sys_def)
qed

end
