(* ===== verification/Kv_Replica.thy ===== *)
theory Kv_Replica
  imports Kv_Runs
begin

text \<open>
  Correctness of recovery and replication: a full comparison with the backup makes the visible
  records equal to the backup's, a follower that replays events mirrors them, and the records it
  takes over keep the invariant. The protobuf encoding is a parameter; the theorems use that
  decoding an encoded record gives the record back.
\<close>

section \<open>Single events\<close>

lemma fmlookup_fmupd_fun: "fmlookup (fmupd k v m) = (fmlookup m)(k \<mapsto> v)"
  by auto

lemma fmlookup_fmdrop_fun: "fmlookup (fmdrop k m) = (fmlookup m)(k := None)"
  by auto

lemma foldM_append:
  "foldM f (xs @ ys) s = (case foldM f xs s of None \<Rightarrow> None | Some t \<Rightarrow> foldM f ys t)"
  by (induction xs arbitrary: s) (simp_all split: option.split)

lemma foldM_induct:
  assumes "foldM f xs s = Some t" "P s"
    "\<And>x s t. x \<in> set xs \<Longrightarrow> P s \<Longrightarrow> f x s = Some t \<Longrightarrow> P t"
  shows "P t"
  using assms
proof (induction xs arbitrary: s)
  case (Cons x xs)
  then obtain u where "f x s = Some u" "foldM f xs u = Some t" by (auto split: option.splits)
  with Cons show ?case by auto
qed simp

lemma strip_prefix_append [simp]: "strip_prefix (META_STORE_BACKUP_KV_PREFIX @ k) = Some k"
  by (simp add: strip_prefix_def)

lemma raise_revision_sels [simp]:
  "cache (raise_revision kv s) = cache s" "ongoing (raise_revision kv s) = ongoing s"
  "curStatus (raise_revision kv s) = curStatus s"
  "modRevision (raise_revision kv s) = max (modRevision s) (kv_mod_revision kv)"
  by (auto simp: raise_revision_def)

lemma attach_lease_sels [simp]:
  "cache (attach_lease kv s) = cache s" "ongoing (attach_lease kv s) = ongoing s"
  "curStatus (attach_lease kv s) = curStatus s" "modRevision (attach_lease kv s) = modRevision s"
  by (simp_all add: attach_lease_def)

lemma put_event_apply_sels [simp]:
  "cache (put_event_apply k kv s) = fmupd k kv (cache s)"
  "ongoing (put_event_apply k kv s) = ongoing s"
  "curStatus (put_event_apply k kv s) = curStatus s"
  "modRevision (put_event_apply k kv s) = max (modRevision s) (kv_mod_revision kv)"
  by (simp_all add: put_event_apply_def Let_def)

lemma delete_event_apply_sels [simp]:
  "cache (delete_event_apply k s) = fmdrop k (cache s)"
  "ongoing (delete_event_apply k s) = ongoing s"
  "curStatus (delete_event_apply k s) = curStatus s"
  "modRevision (delete_event_apply k s) = modRevision s"
  by (simp_all add: delete_event_apply_def Let_def)

definition put_event :: "(key_value \<Rightarrow> string) \<Rightarrow> string \<Rightarrow> key_value \<Rightarrow> watch_event" where
  "put_event ser k kv = \<lparr>we_type = EVENT_TYPE_PUT, we_key = META_STORE_BACKUP_KV_PREFIX @ k,
     we_value = ser kv\<rparr>"

definition delete_event :: "string \<Rightarrow> string \<Rightarrow> watch_event" where
  "delete_event k v = \<lparr>we_type = EVENT_TYPE_DELETE, we_key = META_STORE_BACKUP_KV_PREFIX @ k,
     we_value = v\<rparr>"

lemma HandleKvEvent_put:
  assumes "parse (ser kv) = Some kv" "synced \<or> curStatus s \<noteq> MASTER_BUSINESS"
  shows "HandleKvEvent ser parse synced r (put_event ser k kv) s = Some (put_event_apply k kv s)"
  using assms by (auto simp: HandleKvEvent_def put_event_def HandleKvPutEvent_def)

lemma HandleKvEvent_delete:
  "HandleKvEvent ser parse synced r (delete_event k v) s = Some (delete_event_apply k s)"
  by (simp add: HandleKvEvent_def delete_event_def)

section \<open>Replay\<close>

text \<open>What a backup store records: puts and deletes, in order.\<close>

datatype change = Stored string key_value | Erased string string

fun change_event :: "(key_value \<Rightarrow> string) \<Rightarrow> change \<Rightarrow> watch_event" where
  "change_event ser (Stored k kv) = put_event ser k kv"
| "change_event ser (Erased k v) = delete_event k v"

fun apply_change :: "change \<Rightarrow> (string \<Rightarrow> key_value option) \<Rightarrow> string \<Rightarrow> key_value option" where
  "apply_change (Stored k kv) m = m(k \<mapsto> kv)"
| "apply_change (Erased k v) m = m(k := None)"

fun change_rev :: "change \<Rightarrow> int" where
  "change_rev (Stored k kv) = kv_mod_revision kv"
| "change_rev (Erased k v) = 0"

fun change_ok :: "(key_value \<Rightarrow> string) \<Rightarrow> (string \<Rightarrow> key_value option) \<Rightarrow> change \<Rightarrow> bool" where
  "change_ok ser parse (Stored k kv) \<longleftrightarrow> parse (ser kv) = Some kv"
| "change_ok ser parse (Erased k v) \<longleftrightarrow> True"

lemma replay:
  assumes "synced \<or> curStatus s \<noteq> MASTER_BUSINESS" "\<forall>c \<in> set cs. change_ok ser parse c"
    "0 \<le> modRevision s"
  shows "\<exists>t. foldM (HandleKvEvent ser parse synced r) (map (change_event ser) cs) s = Some t \<and>
    fmlookup (cache t) = fold apply_change cs (fmlookup (cache s)) \<and>
    ongoing t = ongoing s \<and> curStatus t = curStatus s \<and>
    modRevision t = fold max (map change_rev cs) (modRevision s)"
  using assms
proof (induction cs arbitrary: s)
  case (Cons c cs)
  show ?case
  proof (cases c)
    case (Stored k kv)
    from Cons.IH [of "put_event_apply k kv s"] Cons.prems Stored show ?thesis
      by (auto simp: HandleKvEvent_put fmlookup_fmupd_fun fun_upd_def max.commute le_max_iff_disj)
  next
    case (Erased k v)
    from Cons.IH [of "delete_event_apply k s"] Cons.prems Erased show ?thesis
      by (auto simp: HandleKvEvent_delete fmlookup_fmdrop_fun fun_upd_def max_absorb2)
  qed
qed simp

text \<open>
  C11: A follower that receives the backup's changes, in order, holds exactly the records the
  changes lead to, raises its revision to the highest it has seen, and touches no lock.
\<close>

theorem follower_mirrors_backup:
  assumes "curStatus s \<noteq> MASTER_BUSINESS" "\<forall>c \<in> set cs. change_ok ser parse c" "0 \<le> modRevision s"
  shows "\<exists>t. HandleKvEvents ser parse (map (change_event ser) cs) False s = Some t \<and>
    fmlookup (cache t) = fold apply_change cs (fmlookup (cache s)) \<and>
    ongoing t = ongoing s \<and> modRevision t = fold max (map change_rev cs) (modRevision s)"
  using replay [of False s cs ser parse "to_uint32 (modRevision s)"] assms
  by (auto simp: HandleKvEvents_def)

definition demo_kv :: key_value where
  "demo_kv = \<lparr>kv_key = ''a'', kv_value = ''1'', kv_lease = 0, kv_version = 1, kv_mod_revision = 7,
     kv_create_revision = 7\<rparr>"

definition demo_follower :: kv_state where
  "demo_follower = InitExplorer (KvServiceActor True True)"

theorem follower_mirrors_backup_witness:
  "\<exists>t. HandleKvEvents kv_value (\<lambda>_. Some demo_kv)
       (map (change_event kv_value) [Stored ''a'' demo_kv, Erased ''b'' []]) False demo_follower = Some t \<and>
     fmlookup (cache t) ''a'' = Some demo_kv \<and> modRevision t = 7"
  using follower_mirrors_backup [of demo_follower "[Stored ''a'' demo_kv, Erased ''b'' []]" kv_value
      "\<lambda>_. Some demo_kv"]
  by (auto simp: demo_follower_def InitExplorer_def KvServiceActor_def SLAVE_BUSINESS_def
      MASTER_BUSINESS_def demo_kv_def)

section \<open>Full comparison\<close>

lemma foldM_prefixes:
  "foldM (\<lambda>kv ks. map_option (\<lambda>k. ks @ [k]) (strip_prefix (fst kv)))
     (map (\<lambda>(k, kv). (META_STORE_BACKUP_KV_PREFIX @ k, ser kv)) L) ks = Some (ks @ map fst L)"
  by (induction L arbitrary: ks) auto

lemma fold_Stored: "fold apply_change (map (\<lambda>(k, kv). Stored k kv) L) m = m ++ map_of (rev L)"
  by (induction L arbitrary: m) (auto simp: map_add_def fun_eq_iff split: option.splits)

lemma fold_Erased:
  "fold apply_change (map (\<lambda>(k, v). Erased k (f v)) xs) m k = (if k \<in> fst ` set xs then None else m k)"
  by (induction xs arbitrary: m) auto

lemma map_of_rev:
  assumes "distinct (map fst L)" shows "map_of (rev L) = map_of L"
proof
  fix k
  have "map_of (rev L) k = Some v \<longleftrightarrow> map_of L k = Some v" for v
    using assms by (simp add: map_of_eq_Some_iff flip: rev_map)
  then show "map_of (rev L) k = map_of L k" by (metis not_None_eq)
qed

text \<open>
  C10: When the service compares itself with a listing of the backup that is not empty, it ends
  with exactly the records of the listing: missing and stale records are replaced, records the
  backup does not have are removed.
\<close>

theorem KvSyncer_makes_equal:
  assumes "IsOk (gr_status resp)" "L \<noteq> []" "distinct (map fst L)"
    "gr_kvs resp = map (\<lambda>(k, kv). (META_STORE_BACKUP_KV_PREFIX @ k, ser kv)) L"
    "\<forall>(k, kv) \<in> set L. parse (ser kv) = Some kv" "0 \<le> modRevision s"
  shows "\<exists>t. KvSyncer ser parse resp s = Some (Status_OK, t) \<and> fmlookup (cache t) = map_of L \<and>
    ongoing t = ongoing s"
proof -
  let ?old = "filter (\<lambda>(k, kv). k \<notin> set (map fst L)) (sorted_list_of_fmap (cache s))"
  let ?cs = "map (\<lambda>(k, kv). Stored k kv) L @ map (\<lambda>(k, kv). Erased k (ser kv)) ?old"
  have ok: "\<forall>c \<in> set ?cs. change_ok ser parse c" using assms(5) by auto
  obtain t where t: "foldM (HandleKvEvent ser parse True (to_uint32 (modRevision s)))
      (map (change_event ser) ?cs) s = Some t"
    "fmlookup (cache t) = fold apply_change ?cs (fmlookup (cache s))" "ongoing t = ongoing s"
    using replay [of True s ?cs ser parse "to_uint32 (modRevision s)"] ok assms(6) by blast
  have ev: "map (change_event ser) ?cs =
      map (\<lambda>(k, v). \<lparr>we_type = EVENT_TYPE_PUT, we_key = k, we_value = v\<rparr>) (gr_kvs resp) @
      map (\<lambda>(k, kv). \<lparr>we_type = EVENT_TYPE_DELETE, we_key = META_STORE_BACKUP_KV_PREFIX @ k,
        we_value = ser kv\<rparr>) ?old"
    by (auto simp: assms(4) put_event_def delete_event_def)
  have "KvSyncer ser parse resp s = Some (Status_OK, t)"
    using t(1) assms(1,2) foldM_prefixes [of ser L "[]"]
    unfolding ev by (simp add: KvSyncer_def HandleKvEvents_def IsError_def assms(4))
  moreover have "fmlookup (cache t) k = map_of L k" for k
  proof (cases "k \<in> set (map fst L)")
    case True
    then have "k \<in> dom (map_of L)" by (simp add: dom_map_of_conv_image_fst)
    with True show ?thesis
      by (auto simp: t(2) fold_Stored fold_Erased map_of_rev [OF assms(3)] map_add_def image_iff)
  next
    case False
    then have none: "map_of L k = None" by (simp add: map_of_eq_None_iff)
    then show ?thesis using False
      by (cases "fmlookup (cache s) k")
        (force simp: t(2) fold_Stored fold_Erased map_of_rev [OF assms(3)] map_add_def image_iff)+
  qed
  ultimately show ?thesis using t(3) by blast
qed

theorem KvSyncer_makes_equal_witness:
  "\<exists>t. KvSyncer kv_value (\<lambda>_. Some demo_kv) \<lparr>gr_status = Status_OK,
       gr_revision = 9, gr_kvs = [(META_STORE_BACKUP_KV_PREFIX @ ''a'', ''1'')]\<rparr> demo_two =
       Some (Status_OK, t) \<and>
     fmlookup (cache t) = [''a'' \<mapsto> demo_kv] \<and> fmlookup (cache demo_two) ''b'' \<noteq> None"
proof -
  have "fmlookup (cache demo_two) ''b'' \<noteq> None" "0 \<le> modRevision demo_two" by code_simp+
  then show ?thesis
    using KvSyncer_makes_equal [of "\<lparr>gr_status = Status_OK,
       gr_revision = 9, gr_kvs = [(META_STORE_BACKUP_KV_PREFIX @ ''a'', ''1'')]\<rparr>" "[(''a'', demo_kv)]"
       kv_value "\<lambda>_. Some demo_kv" demo_two]
    by (auto simp: demo_kv_def)
qed

section \<open>The invariant under replication\<close>

text \<open>The records ever written, with no revision used for two keys.\<close>

definition history_ok :: "(string \<times> key_value) set \<Rightarrow> bool" where
  "history_ok H \<longleftrightarrow> (\<forall>k kv. (k, kv) \<in> H \<longrightarrow> kv_ok (kv_mod_revision kv) k kv) \<and>
     (\<forall>k kv k' kv'. (k, kv) \<in> H \<longrightarrow> (k', kv') \<in> H \<longrightarrow>
        kv_mod_revision kv = kv_mod_revision kv' \<longrightarrow> k = k')"

definition event_from :: "(string \<times> key_value) set \<Rightarrow> (string \<Rightarrow> key_value option) \<Rightarrow> watch_event \<Rightarrow> bool" where
  "event_from H parse e \<longleftrightarrow> (\<forall>k kv. we_type e = EVENT_TYPE_PUT \<longrightarrow> strip_prefix (we_key e) = Some k \<longrightarrow>
     parse (we_value e) = Some kv \<longrightarrow> (k, kv) \<in> H)"

lemma history_put_event:
  assumes "history_ok H" "records s \<subseteq> H" "kv_inv s" "(k, kv) \<in> H"
  shows "kv_inv (put_event_apply k kv s)" "records (put_event_apply k kv s) \<subseteq> H"
proof -
  show sub: "records (put_event_apply k kv s) \<subseteq> H"
    using assms(2,4) by (auto simp: records_def split: if_splits)
  have new: "records (put_event_apply k kv s) \<subseteq> insert (k, kv) (records s)"
    by (auto simp: records_def split: if_splits)
  have "kv_ok (max (modRevision s) (kv_mod_revision kv)) k' kv'"
    if "(k', kv') \<in> insert (k, kv) (records s)" for k' kv'
    using that assms unfolding history_ok_def kv_inv_def records_ok_def
    by (metis insert_iff kv_ok_mono max.cobounded1 max.cobounded2 prod.inject)
  moreover have "0 \<le> max (modRevision s) (kv_mod_revision kv)"
    using assms(3) by (simp add: kv_inv_def records_ok_def le_max_iff_disj)
  ultimately show "kv_inv (put_event_apply k kv s)"
    using new sub assms(1) unfolding kv_inv_def records_ok_def history_ok_def
    by (simp only: put_event_apply_sels) (meson in_mono)
qed

lemma history_event:
  assumes "history_ok H" "kv_inv s \<and> records s \<subseteq> H" "event_from H parse e"
    "HandleKvEvent ser parse synced r e s = Some t"
  shows "kv_inv t \<and> records t \<subseteq> H"
proof (cases "we_type e")
  case EVENT_TYPE_PUT
  note put = history_put_event [OF assms(1) conjunct2 [OF assms(2)] conjunct1 [OF assms(2)]]
  have "t = s \<or> (\<exists>m. t = emit m s) \<or> (\<exists>k kv. (k, kv) \<in> H \<and> t = put_event_apply k kv s)"
    using assms(3,4) EVENT_TYPE_PUT
    by (auto simp: HandleKvEvent_def HandleKvPutEvent_def event_from_def split: option.splits if_splits)
  then show ?thesis using assms(2) put by (elim disjE exE) simp_all
next
  case EVENT_TYPE_DELETE
  then obtain k where t: "t = delete_event_apply k s"
    using assms(4) by (auto simp: HandleKvEvent_def)
  then have "records t \<subseteq> records s" by (auto simp: records_def split: if_splits)
  then show ?thesis using assms(2) kv_inv_mono [of s t] t by auto
qed (use assms in \<open>simp add: HandleKvEvent_def\<close>)

text \<open>
  C12: A service, master or follower, that handles events whose records come from a consistent
  history of writes keeps the invariant, and holds only records of that history.
\<close>

theorem replication_keeps_invariant:
  assumes "history_ok H" "kv_inv s" "records s \<subseteq> H" "\<forall>e \<in> set events. event_from H parse e"
    "HandleKvEvents ser parse events synced s = Some t"
  shows "kv_inv t \<and> records t \<subseteq> H"
proof (rule foldM_induct [of "HandleKvEvent ser parse synced (to_uint32 (modRevision s))" events s t
      "\<lambda>s. kv_inv s \<and> records s \<subseteq> H"])
  show "foldM (HandleKvEvent ser parse synced (to_uint32 (modRevision s))) events s = Some t"
    using assms(5) by (simp add: HandleKvEvents_def)
qed (use assms history_event in \<open>blast+\<close>)

theorem replication_keeps_invariant_witness:
  "history_ok {(''a'', demo_kv)} \<and>
   (\<exists>t. HandleKvEvents kv_value (\<lambda>_. Some demo_kv) [put_event kv_value ''a'' demo_kv] False demo_follower
          = Some t \<and> kv_inv t \<and> records t \<subseteq> {(''a'', demo_kv)})"
proof -
  have h: "history_ok {(''a'', demo_kv)}" by (simp add: history_ok_def kv_ok_def demo_kv_def)
  have i: "kv_inv demo_follower" "records demo_follower \<subseteq> {(''a'', demo_kv)}"
    by (simp_all add: demo_follower_def fs_inv)
      (simp add: records_def InitExplorer_def KvServiceActor_def)
  have e: "\<forall>e \<in> set [put_event kv_value ''a'' demo_kv]. event_from {(''a'', demo_kv)} (\<lambda>_. Some demo_kv) e"
    by (simp add: event_from_def put_event_def)
  obtain t where t: "HandleKvEvents kv_value (\<lambda>_. Some demo_kv) [put_event kv_value ''a'' demo_kv] False
      demo_follower = Some t"
    by (auto simp: HandleKvEvents_def HandleKvEvent_put demo_follower_def InitExplorer_def
        KvServiceActor_def SLAVE_BUSINESS_def MASTER_BUSINESS_def)
  from replication_keeps_invariant [OF h i e t] h t show ?thesis by blast
qed

section \<open>Late events at the master\<close>


definition demo_late :: "int \<Rightarrow> kv_state" where
  "demo_late r = (demo_master True)\<lparr>modRevision := r,
     cache := fmupd ''a'' (demo_kv\<lparr>kv_mod_revision := r, kv_version := 2\<rparr>) fmempty\<rparr>"

lemma demo_late_sels:
  "curStatus (demo_late r) = MASTER_BUSINESS" "ongoing (demo_late r) = fmempty"
  "modRevision (demo_late r) = r"
  "fmlookup (cache (demo_late r)) k =
     (if k = ''a'' then Some (demo_kv\<lparr>kv_mod_revision := r, kv_version := 2\<rparr>) else None)"
  by (simp_all add: demo_late_def) (simp_all add: demo_master_def InitExplorer_def KvServiceActor_def)

lemma kv_inv_demo_late: "8 \<le> r \<Longrightarrow> kv_inv (demo_late r)"
  by (simp add: kv_inv_def records_ok_def records_def demo_late_sels kv_ok_def demo_kv_def)

lemma demo_late_event:
  "HandleKvEvents kv_value (\<lambda>_. Some demo_kv) [put_event kv_value ''a'' demo_kv] False (demo_late r) =
     Some (if 7 \<le> to_uint32 r then demo_late r else put_event_apply ''a'' demo_kv (demo_late r))"
  by (simp add: HandleKvEvents_def HandleKvEvent_def HandleKvPutEvent_def put_event_def demo_late_sels
      demo_kv_def)


text \<open>
  With a larger revision counter it does not: the counter is passed as a \<^verbatim>\<open>uint32_t\<close>, so a
  late event counts as new, and the master replaces a record by an older one.
\<close>

theorem late_event_accepted_beyond_uint32:
  "kv_inv (demo_late (2 ^ 32 + 4)) \<and> curStatus (demo_late (2 ^ 32 + 4)) = MASTER_BUSINESS \<and>
   (\<exists>t new. HandleKvEvents kv_value (\<lambda>_. Some demo_kv) [put_event kv_value ''a'' demo_kv] False
        (demo_late (2 ^ 32 + 4)) = Some t \<and>
      fmlookup (cache (demo_late (2 ^ 32 + 4))) ''a'' = Some new \<and>
      fmlookup (cache t) ''a'' = Some demo_kv \<and> kv_mod_revision demo_kv < kv_mod_revision new)"
  by (simp add: kv_inv_demo_late demo_late_sels demo_late_event to_uint32_def)
    (simp add: demo_kv_def)

end
