(* ===== verification/Watch_Service.thy ===== *)
theory Watch_Service
  imports Kv_Service
begin

text \<open>
  The watch service of the meta store
  (\<^verbatim>\<open>src/functionsystem/src/meta_store/server/src/watch_service_actor.cpp\<close> and
  \<^verbatim>\<open>watch_service_async_push_actor.cpp\<close>): clients watch one key or all keys with a prefix; every
  change of a record becomes an event for the watchers concerned; the push actor groups the
  events per watcher, keeps the newest of each key, and sends them.

  Observers are shared pointers to values that are never changed after their creation; the model
  copies them. The \<^verbatim>\<open>unordered_map\<close>s are visited in the order of their keys.
\<close>

section \<open>Prefix ranges\<close>

text \<open>\<^verbatim>\<open>StringPlusOne\<close>: the last byte below \<^verbatim>\<open>0xff\<close> is incremented and ends the result; the loop
  runs from the last byte to the first.\<close>

fun plus_one_from :: "nat \<Rightarrow> string \<Rightarrow> string" where
  "plus_one_from 0 v = []"
| "plus_one_from (Suc i) v =
     (if (of_char (v ! i) :: nat) < 255
      then (take (i + 1) v)[i := char_of ((of_char (v ! i) :: nat) + 1)]
      else plus_one_from i v)"

definition StringPlusOne :: "string \<Rightarrow> string" where
  "StringPlusOne v = plus_one_from (length v) v"

section \<open>State\<close>

type_synonym client_info = "aid \<times> int"

record observer =
  ob_clientInfo :: client_info
  ob_request :: watch_create_request

record range_cache =
  rc_keyPrefix :: string
  rc_keyPrefixEnd :: string
  rc_to :: "client_info list"
  rc_toWithPrevKv :: "client_info list"

text \<open>\<^verbatim>\<open>mvccpb::Event\<close>, and \<^verbatim>\<open>UnsyncedEvents\<close>\<close>

record event =
  ev_type :: event_type
  ev_kv :: key_value
  ev_prev_kv :: "key_value option"

record unsynced_events =
  ue_to :: "client_info list"
  ue_event :: event
  ue_toWithPrevKv :: "client_info list"
  ue_eventWithPrevKv :: event

text \<open>\<open>PushThenSend\<close> asks the push actor to push, and sends a cancel response afterwards;
  \<open>SelfCancel\<close> is a message of the actor to itself.\<close>

datatype watch_msg =
    Link aid
  | SendCreated aid string watch_response
  | PushThenSend aid int string
  | SelfCancel aid int string
  | PushEvents unsynced_events

record watch_state =
  strictObserversById :: "(int, observer) fmap"
  strictObserversByKey :: "(string, observer list) fmap"
  rangeObserverCaches :: "(string, range_cache) fmap"
  w_index :: int
  watchKeyCount :: "(aid, nat) fmap"
  w_outbox :: "watch_msg list"

definition WatchServiceActor :: watch_state where
  "WatchServiceActor = \<lparr>strictObserversById = fmempty, strictObserversByKey = fmempty,
     rangeObserverCaches = fmempty, w_index = 0, watchKeyCount = fmempty, w_outbox = []\<rparr>"

definition w_emit :: "watch_msg \<Rightarrow> watch_state \<Rightarrow> watch_state" where
  "w_emit m s = s\<lparr>w_outbox := w_outbox s @ [m]\<rparr>"

section \<open>Creating watches\<close>

definition RangeObserverCache :: "string \<Rightarrow> range_cache" where
  "RangeObserverCache p = \<lparr>rc_keyPrefix = p, rc_keyPrefixEnd = StringPlusOne p, rc_to = [],
     rc_toWithPrevKv = []\<rparr>"

definition AddObserver :: "observer \<Rightarrow> range_cache \<Rightarrow> range_cache" where
  "AddObserver ob c =
     (if wc_prev_kv (ob_request ob)
      then c\<lparr>rc_toWithPrevKv := rc_toWithPrevKv c @ [ob_clientInfo ob]\<rparr>
      else c\<lparr>rc_to := rc_to c @ [ob_clientInfo ob]\<rparr>)"

definition IsRangeObserver :: "watch_create_request \<Rightarrow> bool" where
  "IsRangeObserver req \<longleftrightarrow> wc_range_end req \<noteq> []"

definition CreateInternal ::
  "aid \<Rightarrow> watch_create_request \<Rightarrow> watch_state \<Rightarrow> watch_response \<times> watch_state" where
  "CreateInternal from req s =
     (let i = w_index s;
          ob = \<lparr>ob_clientInfo = (from, i), ob_request = req\<rparr>;
          s = (if IsRangeObserver req
               then
                 let c = (case fmlookup (rangeObserverCaches s) (wc_key req) of
                            Some c \<Rightarrow> c | None \<Rightarrow> RangeObserverCache (wc_key req))
                 in s\<lparr>rangeObserverCaches :=
                        fmupd (wc_key req) (AddObserver ob c) (rangeObserverCaches s)\<rparr>
               else
                 let obs = (case fmlookup (strictObserversByKey s) (wc_key req) of
                              Some obs \<Rightarrow> obs | None \<Rightarrow> [])
                 in s\<lparr>strictObserversById := (if fmlookup (strictObserversById s) i = None
                         then fmupd i ob (strictObserversById s) else strictObserversById s),
                      strictObserversByKey :=
                        fmupd (wc_key req) (obs @ [ob]) (strictObserversByKey s)\<rparr>);
          s = s\<lparr>w_index := i + 1\<rparr>;
          s = (if fmlookup (watchKeyCount s) from = None then w_emit (Link from) s else s);
          n = (case fmlookup (watchKeyCount s) from of Some n \<Rightarrow> n | None \<Rightarrow> 0)
      in (\<lparr>wr_watch_id = i, wr_created = True\<rparr>,
          s\<lparr>watchKeyCount := fmupd from (n + 1) (watchKeyCount s)\<rparr>))"

definition CreateWatch ::
  "aid \<Rightarrow> watch_create_request \<Rightarrow> watch_state \<Rightarrow> watch_response \<times> watch_state" where
  "CreateWatch from req s = CreateInternal from req s"

definition Create :: "aid \<Rightarrow> string \<Rightarrow> watch_create_request \<Rightarrow> watch_state \<Rightarrow> watch_state" where
  "Create from uuid req s =
     (let (resp, s) = CreateWatch from req s in w_emit (SendCreated from uuid resp) s)"

section \<open>Removing watches\<close>

text \<open>\<^verbatim>\<open>std::swap(*it, vec.back()); vec.pop_back();\<close>\<close>

definition swap_remove :: "nat \<Rightarrow> 'a list \<Rightarrow> 'a list" where
  "swap_remove i xs = butlast (xs[i := last xs])"

fun find_index :: "('a \<Rightarrow> bool) \<Rightarrow> 'a list \<Rightarrow> nat option" where
  "find_index P [] = None"
| "find_index P (x # xs) = (if P x then Some 0 else map_option Suc (find_index P xs))"

definition RemoveRangeObserverById ::
  "int \<Rightarrow> client_info list \<Rightarrow> aid \<Rightarrow> aid \<times> client_info list" where
  "RemoveRangeObserverById watchId vec from =
     (case find_index (\<lambda>ci. snd ci = watchId) vec of
        None \<Rightarrow> ([], vec)
      | Some i \<Rightarrow>
          let a = fst (vec ! i)
          in if aid_ok from \<and> a \<noteq> from then ([], vec) else (a, swap_remove i vec))"

definition RemoveRangeObserverByAid :: "aid \<Rightarrow> client_info list \<Rightarrow> int \<times> client_info list" where
  "RemoveRangeObserverByAid a vec =
     (case find_index (\<lambda>ci. fst ci = a) vec of
        None \<Rightarrow> (-1, vec)
      | Some i \<Rightarrow> (snd (vec ! i), swap_remove i vec))"

definition RemoveStrictObserverById :: "string \<Rightarrow> int \<Rightarrow> watch_state \<Rightarrow> watch_state" where
  "RemoveStrictObserverById key watchId s =
     (case fmlookup (strictObserversByKey s) key of
        None \<Rightarrow> s
      | Some vec \<Rightarrow>
          let vec = (case find_index (\<lambda>ob. snd (ob_clientInfo ob) = watchId) vec of
                       None \<Rightarrow> vec | Some i \<Rightarrow> swap_remove i vec)
          in s\<lparr>strictObserversByKey :=
                 (if vec = [] then fmdrop key (strictObserversByKey s)
                  else fmupd key vec (strictObserversByKey s))\<rparr>)"

fun remove_in_ranges ::
  "int \<Rightarrow> aid \<Rightarrow> (string \<times> range_cache) list \<Rightarrow> (string, range_cache) fmap \<Rightarrow>
     bool \<times> (string, range_cache) fmap" where
  "remove_in_ranges watchId from [] m = (False, m)"
| "remove_in_ranges watchId from ((p, c) # rest) m =
     (let (a, to) = RemoveRangeObserverById watchId (rc_to c) from;
          c = c\<lparr>rc_to := to\<rparr>
      in if aid_ok a then (True, fmupd p c m)
         else
           let (a, to) = RemoveRangeObserverById watchId (rc_toWithPrevKv c) from;
               c = c\<lparr>rc_toWithPrevKv := to\<rparr>
           in if aid_ok a then (True, fmupd p c m)
              else remove_in_ranges watchId from rest (fmupd p c m))"

definition RemoveObserverById :: "int \<Rightarrow> aid \<Rightarrow> watch_state \<Rightarrow> bool \<times> watch_state" where
  "RemoveObserverById watchId from s =
     (case fmlookup (strictObserversById s) watchId of
        Some ob \<Rightarrow>
          if aid_ok from \<and> from \<noteq> fst (ob_clientInfo ob) then (False, s)
          else
            let s = RemoveStrictObserverById (wc_key (ob_request ob)) (snd (ob_clientInfo ob)) s
            in (True, s\<lparr>strictObserversById := fmdrop watchId (strictObserversById s)\<rparr>)
      | None \<Rightarrow>
          let (found, m) = remove_in_ranges watchId from (sorted_list_of_fmap (rangeObserverCaches s))
                             (rangeObserverCaches s)
          in (found, s\<lparr>rangeObserverCaches := m\<rparr>))"

definition Cancel :: "aid \<Rightarrow> int \<Rightarrow> string \<Rightarrow> watch_state \<Rightarrow> watch_state" where
  "Cancel from watchId msg s =
     (let s = w_emit (PushThenSend from watchId msg) s
      in case fmlookup (watchKeyCount s) from of
           None \<Rightarrow> s
         | Some n \<Rightarrow> s\<lparr>watchKeyCount :=
             (if n - 1 = 0 then fmdrop from (watchKeyCount s)
              else fmupd from (n - 1) (watchKeyCount s))\<rparr>)"

definition ReceiveCancel :: "aid \<Rightarrow> int \<Rightarrow> watch_state \<Rightarrow> watch_state" where
  "ReceiveCancel from watchId s =
     (let (found, s) = RemoveObserverById watchId from s
      in if \<not> found then s else Cancel from watchId ''by user'' s)"

definition exit_strict :: "aid \<Rightarrow> int \<times> observer \<Rightarrow> watch_state \<Rightarrow> watch_state" where
  "exit_strict a = (\<lambda>(i, ob) s.
     if fst (ob_clientInfo ob) = a
     then
       let watchId = snd (ob_clientInfo ob);
           s = RemoveStrictObserverById (wc_key (ob_request ob)) watchId s;
           s = w_emit (SelfCancel a watchId ''client disconnected'') s
       in s\<lparr>strictObserversById := fmdrop i (strictObserversById s)\<rparr>
     else s)"

definition exit_range :: "aid \<Rightarrow> string \<times> range_cache \<Rightarrow> watch_state \<Rightarrow> watch_state" where
  "exit_range a = (\<lambda>(p, c) s.
     let (w1, to) = RemoveRangeObserverByAid a (rc_to c);
         s = (if w1 \<noteq> -1 then w_emit (SelfCancel a w1 ''client disconnected'') s else s);
         (w2, toPrev) = RemoveRangeObserverByAid a (rc_toWithPrevKv c);
         s = (if w2 \<noteq> -1 then w_emit (SelfCancel a w2 ''client disconnected'') s else s)
     in s\<lparr>rangeObserverCaches :=
            fmupd p (c\<lparr>rc_to := to, rc_toWithPrevKv := toPrev\<rparr>) (rangeObserverCaches s)\<rparr>)"

definition Exited :: "aid \<Rightarrow> watch_state \<Rightarrow> watch_state" where
  "Exited a s =
     (let s = fold (exit_strict a) (sorted_list_of_fmap (strictObserversById s)) s
      in fold (exit_range a) (sorted_list_of_fmap (rangeObserverCaches s)) s)"

section \<open>Events\<close>

definition IsPrefix :: "string \<Rightarrow> range_cache \<Rightarrow> bool" where
  "IsPrefix key c \<longleftrightarrow> rc_keyPrefix c \<le> key \<and> key < rc_keyPrefixEnd c"

definition SetPrevKv :: "key_value \<Rightarrow> event \<Rightarrow> event" where
  "SetPrevKv prevKv e = e\<lparr>ev_prev_kv := Some prevKv\<rparr>"

definition BuildUnsyncedEventsForPut :: "key_value \<Rightarrow> key_value \<Rightarrow> unsynced_events" where
  "BuildUnsyncedEventsForPut kv prevKv =
     (let e = \<lparr>ev_type = EVENT_TYPE_PUT, ev_kv = kv, ev_prev_kv = None\<rparr>
      in \<lparr>ue_to = [], ue_event = e, ue_toWithPrevKv = [], ue_eventWithPrevKv = SetPrevKv prevKv e\<rparr>)"

definition BuildUnsyncedEventsForDelete :: "key_value \<Rightarrow> unsynced_events" where
  "BuildUnsyncedEventsForDelete prevKv =
     \<lparr>ue_to = [],
      ue_event = \<lparr>ev_type = EVENT_TYPE_DELETE,
        ev_kv = kv_default\<lparr>kv_key := kv_key prevKv, kv_mod_revision := kv_mod_revision prevKv + 1\<rparr>,
        ev_prev_kv = None\<rparr>,
      ue_toWithPrevKv = [],
      ue_eventWithPrevKv = SetPrevKv prevKv \<lparr>ev_type = EVENT_TYPE_DELETE,
        ev_kv = kv_default\<lparr>kv_key := kv_key prevKv\<rparr>, ev_prev_kv = None\<rparr>\<rparr>"

definition UpdateResponseWithCache :: "range_cache \<Rightarrow> unsynced_events \<Rightarrow> unsynced_events" where
  "UpdateResponseWithCache c r =
     r\<lparr>ue_to := ue_to r @ rc_to c, ue_toWithPrevKv := ue_toWithPrevKv r @ rc_toWithPrevKv c\<rparr>"

definition CheckIfValidRangeCacheAndUpdateResponse ::
  "key_value \<Rightarrow> watch_state \<Rightarrow> unsynced_events \<Rightarrow> unsynced_events" where
  "CheckIfValidRangeCacheAndUpdateResponse kv s r =
     fold (\<lambda>(p, c) r. if IsPrefix (kv_key kv) c then UpdateResponseWithCache c r else r)
       (sorted_list_of_fmap (rangeObserverCaches s)) r"

definition AddObserverToResponse :: "observer \<Rightarrow> unsynced_events \<Rightarrow> unsynced_events" where
  "AddObserverToResponse ob r =
     (if wc_prev_kv (ob_request ob)
      then r\<lparr>ue_toWithPrevKv := ue_toWithPrevKv r @ [ob_clientInfo ob]\<rparr>
      else r\<lparr>ue_to := ue_to r @ [ob_clientInfo ob]\<rparr>)"

definition Watch_AddToUnsyncedEvents :: "unsynced_events \<Rightarrow> watch_state \<Rightarrow> watch_state" where
  "Watch_AddToUnsyncedEvents r s =
     (if ue_to r = [] \<and> ue_toWithPrevKv r = [] then s else w_emit (PushEvents r) s)"

definition add_watchers :: "key_value \<Rightarrow> watch_state \<Rightarrow> unsynced_events \<Rightarrow> unsynced_events" where
  "add_watchers kv s r =
     (let r = CheckIfValidRangeCacheAndUpdateResponse kv s r
      in case fmlookup (strictObserversByKey s) (kv_key kv) of
           None \<Rightarrow> r | Some obs \<Rightarrow> fold AddObserverToResponse obs r)"

definition OnPut :: "key_value \<Rightarrow> key_value \<Rightarrow> watch_state \<Rightarrow> watch_state" where
  "OnPut kv prevKv s =
     Watch_AddToUnsyncedEvents (add_watchers kv s (BuildUnsyncedEventsForPut kv prevKv)) s"

definition OnDelete :: "key_value \<Rightarrow> watch_state \<Rightarrow> watch_state" where
  "OnDelete prevKv s =
     Watch_AddToUnsyncedEvents (add_watchers prevKv s (BuildUnsyncedEventsForDelete prevKv)) s"

definition OnDeleteList :: "key_value list \<Rightarrow> watch_state \<Rightarrow> watch_state" where
  "OnDeleteList kvs s = fold OnDelete kvs s"

section \<open>The push actor\<close>

definition pushEventThreshold :: nat where "pushEventThreshold = 200"

text \<open>\<^verbatim>\<open>WatchResponse\<close> with events, as sent to a client.\<close>

record push_response =
  wp_watch_id :: int
  wp_revision :: int
  wp_events :: "event list"

text \<open>\<open>scheduled\<close> counts the messages \<^verbatim>\<open>PushGroupedEvents\<close> in the actor's mailbox, sent by itself or
  by \<^verbatim>\<open>Cancel\<close>.\<close>

record push_state =
  unsyncedEvents :: "(int, aid \<times> event list) fmap"
  aboutToPush :: bool
  maxEventCount :: nat
  scheduled :: nat
  pushed :: "(aid \<times> push_response) list"

definition WatchServiceAsyncPushActor :: push_state where
  "WatchServiceAsyncPushActor = \<lparr>unsyncedEvents = fmempty, aboutToPush = False, maxEventCount = 0,
     scheduled = 0, pushed = []\<rparr>"

definition AddEventsForWatchId :: "event \<Rightarrow> client_info \<Rightarrow> push_state \<Rightarrow> push_state" where
  "AddEventsForWatchId e ci s =
     (let (client, es) = (case fmlookup (unsyncedEvents s) (snd ci) of
             None \<Rightarrow> (fst ci, []) | Some p \<Rightarrow> p);
          es = es @ [e]
      in s\<lparr>unsyncedEvents := fmupd (snd ci) (client, es) (unsyncedEvents s),
           maxEventCount := (if length es > maxEventCount s then length es else maxEventCount s)\<rparr>)"

text \<open>The loop visits the events from the last to the first and clears those whose key it has met.\<close>

fun stale_step :: "event \<Rightarrow> string list \<times> event option list \<Rightarrow> string list \<times> event option list" where
  "stale_step e (seen, out) =
     (if kv_key (ev_kv e) \<in> set seen then (seen, None # out)
      else (kv_key (ev_kv e) # seen, Some e # out))"

definition RemoveStaleEventsForSameKey :: "event list \<Rightarrow> event option list" where
  "RemoveStaleEventsForSameKey es = snd (foldr stale_step es ([], []))"

definition CheckAndSendEventResponse ::
  "aid \<Rightarrow> int \<Rightarrow> event list \<Rightarrow> push_state \<Rightarrow> push_state" where
  "CheckAndSendEventResponse client watchId es s =
     (let kept = List.map_filter (\<lambda>x. x) (RemoveStaleEventsForSameKey es);
          rev = foldl (\<lambda>r e. max (kv_mod_revision (ev_kv e)) r) 0 kept
      in if kept = [] then s
         else s\<lparr>pushed := pushed s @
                  [(client, \<lparr>wp_watch_id = watchId, wp_revision = rev, wp_events = kept\<rparr>)]\<rparr>)"

definition PushGroupedEvents :: "push_state \<Rightarrow> bool \<times> push_state" where
  "PushGroupedEvents s =
     (if \<not> aboutToPush s then (False, s)
      else
        let s = fold (\<lambda>(watchId, client, es). CheckAndSendEventResponse client watchId es)
                  (sorted_list_of_fmap (unsyncedEvents s)) s
        in (True, s\<lparr>unsyncedEvents := fmempty, maxEventCount := 0, aboutToPush := False\<rparr>))"

definition AddToUnsyncedEvents :: "unsynced_events \<Rightarrow> push_state \<Rightarrow> push_state" where
  "AddToUnsyncedEvents r s =
     (let s = fold (AddEventsForWatchId (ue_event r)) (ue_to r) s;
          s = fold (AddEventsForWatchId (ue_eventWithPrevKv r)) (ue_toWithPrevKv r) s
      in if maxEventCount s > pushEventThreshold
         then
           let backup = aboutToPush s;
               s = snd (PushGroupedEvents (s\<lparr>aboutToPush := True\<rparr>))
           in s\<lparr>aboutToPush := backup\<rparr>
         else if \<not> aboutToPush s
         then s\<lparr>aboutToPush := True, scheduled := scheduled s + 1\<rparr>
         else s)"

text \<open>The arrival of a message \<^verbatim>\<open>PushGroupedEvents\<close>, and \<^verbatim>\<open>Cancel\<close> sending one.\<close>

definition push_message :: "push_state \<Rightarrow> push_state" where
  "push_message s = snd (PushGroupedEvents (s\<lparr>scheduled := scheduled s - 1\<rparr>))"

definition request_push :: "push_state \<Rightarrow> push_state" where
  "request_push s = s\<lparr>scheduled := scheduled s + 1\<rparr>"

end
