(* ===== verification/Watch_Push.thy ===== *)
theory Watch_Push
  imports Watch_Service
begin

text \<open>
  The push actor of the watch service: what a batch of waiting events becomes, and that no event
  waits without a push message in the actor's mailbox.
\<close>

section \<open>The newest event of each key\<close>

text \<open>The reference: an event is kept unless a later one of the batch has the same key.\<close>

fun newest :: "event list \<Rightarrow> event list" where
  "newest [] = []"
| "newest (e # es) = (if kv_key (ev_kv e) \<in> (\<lambda>e. kv_key (ev_kv e)) ` set es then newest es else e # newest es)"

lemma stale_foldr:
  "List.map_filter (\<lambda>x. x) (snd (foldr stale_step es ([], []))) = newest es \<and>
   set (fst (foldr stale_step es ([], []))) = (\<lambda>e. kv_key (ev_kv e)) ` set es"
proof (induction es)
  case (Cons e es)
  obtain seen out where f: "foldr stale_step es ([], []) = (seen, out)" by fastforce
  with Cons show ?case by (auto simp: List.map_filter_simps)
qed (simp add: List.map_filter_simps)

lemma kept_newest: "List.map_filter (\<lambda>x. x) (RemoveStaleEventsForSameKey es) = newest es"
  using stale_foldr by (simp add: RemoveStaleEventsForSameKey_def)

lemma newest_distinct: "distinct (map (\<lambda>e. kv_key (ev_kv e)) (newest es))"
proof -
  have "(\<lambda>e. kv_key (ev_kv e)) ` set (newest es) \<subseteq> (\<lambda>e. kv_key (ev_kv e)) ` set es" for es
    by (induction es) auto
  then show ?thesis by (induction es) auto
qed

lemma newest_mem:
  "e \<in> set (newest es) \<longleftrightarrow>
     (\<exists>xs ys. es = xs @ e # ys \<and> (\<forall>e' \<in> set ys. kv_key (ev_kv e') \<noteq> kv_key (ev_kv e)))"
proof (induction es)
  case (Cons a es)
  have "(\<exists>xs ys. a # es = xs @ e # ys \<and> (\<forall>e' \<in> set ys. kv_key (ev_kv e') \<noteq> kv_key (ev_kv e))) \<longleftrightarrow>
      (a = e \<and> (\<forall>e' \<in> set es. kv_key (ev_kv e') \<noteq> kv_key (ev_kv e))) \<or>
      (\<exists>xs ys. es = xs @ e # ys \<and> (\<forall>e' \<in> set ys. kv_key (ev_kv e') \<noteq> kv_key (ev_kv e)))"
    unfolding Cons_eq_append_conv by blast
  moreover have "e \<in> set (newest (a # es)) \<longleftrightarrow>
      (a = e \<and> (\<forall>e' \<in> set es. kv_key (ev_kv e') \<noteq> kv_key (ev_kv e))) \<or> e \<in> set (newest es)"
    by (auto simp: image_iff)
  ultimately show ?case using Cons.IH by simp
qed simp

lemma newest_empty [simp]: "newest es = [] \<longleftrightarrow> es = []"
  by (induction es) auto

text \<open>
  C21: The backward pass that clears superseded events keeps, in their order, exactly the last
  event of each key, and of each key only one.
\<close>

theorem RemoveStaleEventsForSameKey_newest:
  "List.map_filter (\<lambda>x. x) (RemoveStaleEventsForSameKey es) = newest es \<and>
   length (RemoveStaleEventsForSameKey es) = length es \<and>
   distinct (map (\<lambda>e. kv_key (ev_kv e)) (newest es)) \<and>
   (\<forall>e. e \<in> set (newest es) \<longleftrightarrow>
     (\<exists>xs ys. es = xs @ e # ys \<and> \<not> (\<exists>e' \<in> set ys. kv_key (ev_kv e') = kv_key (ev_kv e))))"
proof -
  have "length (snd (foldr stale_step es ([], []))) = length es"
  proof (induction es)
    case (Cons e es)
    then show ?case by (cases "foldr stale_step es ([], [])") simp
  qed simp
  then show ?thesis
    using kept_newest newest_distinct newest_mem [of _ es] by (simp add: RemoveStaleEventsForSameKey_def)
qed

section \<open>No lost wake-up\<close>

inductive push_reachable :: "push_state \<Rightarrow> bool" where
  start: "push_reachable WatchServiceAsyncPushActor"
| add: "push_reachable s \<Longrightarrow> push_reachable (AddToUnsyncedEvents r s)"
| request: "push_reachable s \<Longrightarrow> push_reachable (request_push s)"
| message: "push_reachable s \<Longrightarrow> scheduled s > 0 \<Longrightarrow> push_reachable (push_message s)"

definition push_inv :: "push_state \<Rightarrow> bool" where
  "push_inv s \<longleftrightarrow> (\<not> aboutToPush s \<longrightarrow> unsyncedEvents s = fmempty) \<and>
     (aboutToPush s \<longrightarrow> scheduled s > 0) \<and>
     (\<forall>i client es. fmlookup (unsyncedEvents s) i = Some (client, es) \<longrightarrow>
        es \<noteq> [] \<and> length es \<le> maxEventCount s)"

lemma AddEvents_fold:
  "aboutToPush (fold (AddEventsForWatchId e) cs s) = aboutToPush s \<and>
   scheduled (fold (AddEventsForWatchId e) cs s) = scheduled s"
  by (induction cs arbitrary: s) (simp_all add: AddEventsForWatchId_def split_beta Let_def)

lemma AddEvents_batches:
  "\<forall>i client es. fmlookup (unsyncedEvents s) i = Some (client, es) \<longrightarrow> es \<noteq> [] \<and> length es \<le> maxEventCount s \<Longrightarrow>
   fmlookup (unsyncedEvents (fold (AddEventsForWatchId e) cs s)) i = Some (client, es) \<Longrightarrow>
   es \<noteq> [] \<and> length es \<le> maxEventCount (fold (AddEventsForWatchId e) cs s)"
proof (induction cs arbitrary: s)
  case (Cons c cs)
  have "\<forall>i client es. fmlookup (unsyncedEvents (AddEventsForWatchId e c s)) i = Some (client, es) \<longrightarrow>
      es \<noteq> [] \<and> length es \<le> maxEventCount (AddEventsForWatchId e c s)"
    using Cons.prems(1)
    by (auto simp: AddEventsForWatchId_def split_beta Let_def split: option.splits)
      (meson le_trans less_imp_le)+
  then show ?case using Cons.IH Cons.prems(2) by simp
qed simp

lemma send_fold_sels:
  "scheduled (fold (\<lambda>(i, client, es). CheckAndSendEventResponse client i es) xs s) = scheduled s"
  by (induction xs arbitrary: s) (auto simp: CheckAndSendEventResponse_def Let_def)

lemma push_inv_reachable: "push_reachable s \<Longrightarrow> push_inv s"
proof (induction rule: push_reachable.induct)
  case (add s r)
  let ?s1 = "fold (AddEventsForWatchId (ue_event r)) (ue_to r) s"
  let ?s2 = "fold (AddEventsForWatchId (ue_eventWithPrevKv r)) (ue_toWithPrevKv r) ?s1"
  have "\<forall>i client es. fmlookup (unsyncedEvents ?s2) i = Some (client, es) \<longrightarrow>
      es \<noteq> [] \<and> length es \<le> maxEventCount ?s2"
    using AddEvents_batches add.IH unfolding push_inv_def by metis
  then show ?case
    using add.IH by (auto simp: push_inv_def AddToUnsyncedEvents_def AddEvents_fold send_fold_sels
        PushGroupedEvents_def Let_def)
qed (auto simp: push_inv_def WatchServiceAsyncPushActor_def request_push_def push_message_def
    PushGroupedEvents_def Let_def)

lemma send_fold_pushed:
  "(i, client, es) \<in> set xs \<Longrightarrow> es \<noteq> [] \<Longrightarrow>
   \<exists>n. (client, \<lparr>wp_watch_id = i, wp_revision = n, wp_events = newest es\<rparr>) \<in>
      set (pushed (fold (\<lambda>(i, client, es). CheckAndSendEventResponse client i es) xs s))"
proof (induction xs arbitrary: s)
  case (Cons x xs)
  have mono: "set (pushed s) \<subseteq> set (pushed (fold (\<lambda>(i, client, es). CheckAndSendEventResponse client i es) ys s))"
    for ys s
    by (induction ys arbitrary: s) (force simp: CheckAndSendEventResponse_def Let_def split: if_splits)+
  show ?case
  proof (cases "x = (i, client, es)")
    case True
    let ?s = "CheckAndSendEventResponse client i es s"
    have "\<exists>n. (client, \<lparr>wp_watch_id = i, wp_revision = n, wp_events = newest es\<rparr>) \<in> set (pushed ?s)"
      using Cons.prems(2) by (auto simp: CheckAndSendEventResponse_def kept_newest Let_def)
    then show ?thesis using mono [of ?s xs] True by auto
  next
    case False
    then show ?thesis using Cons by auto
  qed
qed simp

text \<open>
  C22: No event is left waiting. Whenever events wait for a watch, a push message is in the
  mailbox of the actor, and handling it sends the client of the watch the newest event of every
  key that waits, and leaves nothing waiting.
\<close>

theorem waiting_events_are_pushed:
  assumes "push_reachable s" "fmlookup (unsyncedEvents s) i = Some (client, es)"
  shows "scheduled s > 0 \<and> unsyncedEvents (push_message s) = fmempty \<and>
    (\<exists>n. (client, \<lparr>wp_watch_id = i, wp_revision = n, wp_events = newest es\<rparr>) \<in> set (pushed (push_message s)))"
proof -
  note inv = push_inv_reachable [OF assms(1)]
  have a: "aboutToPush s" using inv assms(2) by (auto simp: push_inv_def)
  have "(i, client, es) \<in> set (sorted_list_of_fmap (unsyncedEvents s))" using assms(2) by simp
  moreover have "es \<noteq> []" using inv assms(2) by (auto simp: push_inv_def)
  ultimately show ?thesis
    using send_fold_pushed [of i client es] inv a
    by (simp add: push_message_def PushGroupedEvents_def push_inv_def Let_def)
qed

theorem waiting_events_are_pushed_witness:
  "let kv = kv_default\<lparr>kv_key := ''/a''\<rparr>;
       r = (BuildUnsyncedEventsForPut kv kv_default)\<lparr>ue_to := [(''c1'', 7)]\<rparr>
   in \<exists>n. (''c1'', \<lparr>wp_watch_id = 7, wp_revision = n, wp_events = [ue_event r]\<rparr>) \<in>
        set (pushed (push_message (AddToUnsyncedEvents r (AddToUnsyncedEvents r WatchServiceAsyncPushActor))))"
proof -
  let ?r = "(BuildUnsyncedEventsForPut (kv_default\<lparr>kv_key := ''/a''\<rparr>) kv_default)\<lparr>ue_to := [(''c1'', 7)]\<rparr>"
  let ?s = "AddToUnsyncedEvents ?r (AddToUnsyncedEvents ?r WatchServiceAsyncPushActor)"
  have s: "push_reachable ?s" by (intro push_reachable.intros)
  have l: "fmlookup (unsyncedEvents ?s) 7 = Some (''c1'', [ue_event ?r, ue_event ?r])" by code_simp
  show ?thesis using waiting_events_are_pushed [OF s l] unfolding Let_def by simp
qed

end
