(* ===== verification/Backup_Actor.thy ===== *)
theory Backup_Actor
  imports Kv_Service "HOL-Library.Sublist"
begin

text \<open>
  The backup of the meta store (\<^verbatim>\<open>src/functionsystem/src/meta_store/server/src/backup_actor.cpp\<close>):
  writes of the key-value service are collected into batches, batches wait in a queue, and the
  queue is sent as transactions to the persistent store, with a bound on their size and on how
  many are under way. Synchronous writes get a promise that is set when their transaction is
  answered; asynchronous writes have a queue of their own and no promise.

  A promise is a number. \<open>b_mail\<close> is the actor's mailbox of messages to itself, \<open>b_sent\<close> the
  transactions sent to the persistent store, and \<open>b_inflight\<close> the promises of those that have no
  answer yet. The size of a record (\<^verbatim>\<open>ByteSizeLong\<close>) and its bytes (\<^verbatim>\<open>SerializeAsString\<close>) are the
  parameters \<open>bsz\<close> and \<open>ser\<close>: they come from the protobuf package.
\<close>

section \<open>State\<close>

definition ETCD_BODY_LIMIT :: nat where "ETCD_BODY_LIMIT = 1 * 1024 * 1024"

text \<open>A batch: the record to write for a key, or \<open>None\<close> to delete the key.\<close>

type_synonym batch = "(string, key_value option) fmap"

text \<open>\<^verbatim>\<open>TxnOperation::Create\<close>: a put of a key and value, or the deletion of a key.\<close>

datatype txn_operation = OpPut string string | OpDelete string

datatype backup_msg = MFlush | MFlushAsync | MDoFlush | MDoFlushForAsync

record backup_state =
  toBackupAsyncSize :: nat
  toBackupSize :: nat
  toBackup :: batch
  promises :: "nat list"
  toFlush :: "(batch \<times> nat) list"
  toFlushPromises :: "nat list list"
  toBackupAsync :: batch
  toFlushAsync :: "(batch \<times> nat) list"
  enableSyncSysFunc :: bool
  metaStoreMaxFlushConcurrency :: nat
  metaStoreMaxFlushBatchSize :: nat
  currentFlushThreshold :: nat
  inFlushing :: nat
  inFlushingAsync :: bool
  b_next :: nat
  b_mail :: "backup_msg list"
  b_sent :: "txn_operation list list"
  b_inflight :: "nat list list"
  b_answers :: "(nat \<times> status) list"

definition BackupActor :: "bool \<Rightarrow> nat \<Rightarrow> nat \<Rightarrow> backup_state" where
  "BackupActor sync conc bsize = \<lparr>toBackupAsyncSize = 0, toBackupSize = 0, toBackup = fmempty,
     promises = [], toFlush = [], toFlushPromises = [], toBackupAsync = fmempty, toFlushAsync = [],
     enableSyncSysFunc = sync, metaStoreMaxFlushConcurrency = conc,
     metaStoreMaxFlushBatchSize = bsize, currentFlushThreshold = conc, inFlushing = 0,
     inFlushingAsync = False, b_next = 0, b_mail = [], b_sent = [], b_inflight = [], b_answers = []\<rparr>"

definition post :: "backup_msg \<Rightarrow> backup_state \<Rightarrow> backup_state" where
  "post m s = s\<lparr>b_mail := b_mail s @ [m]\<rparr>"

text \<open>The counter of transactions under way is a \<^verbatim>\<open>uint32_t\<close>.\<close>

definition inc32 :: "nat \<Rightarrow> nat" where "inc32 n = (n + 1) mod 2 ^ 32"
definition dec32 :: "nat \<Rightarrow> nat" where "dec32 n = (n + (2 ^ 32 - 1)) mod 2 ^ 32"

section \<open>Sending a transaction\<close>

definition SYSTEM_FUNC_SYMBOL :: "string list" where
  "SYSTEM_FUNC_SYMBOL = [''0-system-faascontroller'', ''0-system-faasfrontend'',
     ''0-system-faasmanager'', ''0-system-faasscheduler'']"

text \<open>\<^verbatim>\<open>key.find(it) != npos\<close>\<close>

fun has_substring :: "string \<Rightarrow> string \<Rightarrow> bool" where
  "has_substring p [] \<longleftrightarrow> p = []"
| "has_substring p (c # cs) \<longleftrightarrow> prefix p (c # cs) \<or> has_substring p cs"

definition IsSystemFuncInstanceInfo :: "string \<Rightarrow> bool" where
  "IsSystemFuncInstanceInfo key \<longleftrightarrow> list_ex (\<lambda>it. has_substring it key) SYSTEM_FUNC_SYMBOL"

definition backup_ops :: "(key_value \<Rightarrow> string) \<Rightarrow> bool \<Rightarrow> string \<times> key_value option \<Rightarrow> txn_operation list" where
  "backup_ops ser sync = (\<lambda>(k, v).
     case v of
       None \<Rightarrow> OpDelete (META_STORE_BACKUP_KV_PREFIX @ k) #
         (if sync \<and> IsSystemFuncInstanceInfo k then [OpDelete k] else [])
     | Some kv \<Rightarrow> OpPut (META_STORE_BACKUP_KV_PREFIX @ k) (ser kv) #
         (if sync \<and> IsSystemFuncInstanceInfo k then [OpPut k (kv_value kv)] else []))"

definition CommitBackup ::
  "(key_value \<Rightarrow> string) \<Rightarrow> batch \<Rightarrow> nat list \<Rightarrow> backup_state \<Rightarrow> backup_state" where
  "CommitBackup ser b ps s =
     s\<lparr>b_sent := b_sent s @ [concat (map (backup_ops ser (enableSyncSysFunc s)) (sorted_list_of_fmap b))],
       b_inflight := b_inflight s @ [ps]\<rparr>"

section \<open>Flushing\<close>

text \<open>The loops of \<^verbatim>\<open>DoFlush\<close> and \<^verbatim>\<open>DoFlushForAsync\<close>: batches are merged from the front of the queue
  while the merged batch is not too long and the next one fits. Assigning every entry of a batch
  to a map is \<open>fmadd\<close>.\<close>

fun take_batches ::
  "nat \<Rightarrow> (batch \<times> nat) list \<Rightarrow> nat list list \<Rightarrow> batch \<Rightarrow> nat list \<Rightarrow> nat \<Rightarrow>
     batch \<times> nat list \<times> (batch \<times> nat) list \<times> nat list list" where
  "take_batches lim ((b, n) # q) (p # qp) acc ps body =
     (if fcard (fmdom acc) \<le> lim \<and> body + n < ETCD_BODY_LIMIT
      then take_batches lim q qp (acc ++\<^sub>f b) (ps @ p) (body + n)
      else (acc, ps, (b, n) # q, p # qp))"
| "take_batches lim q qp acc ps body = (acc, ps, q, qp)"

fun take_batches_async ::
  "nat \<Rightarrow> (batch \<times> nat) list \<Rightarrow> batch \<Rightarrow> nat \<Rightarrow> batch \<times> (batch \<times> nat) list" where
  "take_batches_async lim ((b, n) # q) acc body =
     (if fcard (fmdom acc) \<le> lim \<and> body + n < ETCD_BODY_LIMIT
      then take_batches_async lim q (acc ++\<^sub>f b) (body + n)
      else (acc, (b, n) # q))"
| "take_batches_async lim [] acc body = (acc, [])"

definition DoFlush :: "(key_value \<Rightarrow> string) \<Rightarrow> backup_state \<Rightarrow> backup_state" where
  "DoFlush ser s =
     (if toFlush s = [] then s
      else if inFlushing s \<ge> currentFlushThreshold s then s
      else
        let (b, ps, q, qp) =
              take_batches (metaStoreMaxFlushBatchSize s) (toFlush s) (toFlushPromises s) fmempty [] 0;
            s = s\<lparr>toFlush := q, toFlushPromises := qp\<rparr>
        in if b = fmempty then s
           else CommitBackup ser b ps (s\<lparr>inFlushing := inc32 (inFlushing s)\<rparr>))"

definition DoFlushForAsync :: "(key_value \<Rightarrow> string) \<Rightarrow> backup_state \<Rightarrow> backup_state" where
  "DoFlushForAsync ser s =
     (if toFlushAsync s = [] then s
      else if inFlushingAsync s then s
      else
        let (b, q) = take_batches_async (metaStoreMaxFlushBatchSize s) (toFlushAsync s) fmempty 0;
            s = s\<lparr>toFlushAsync := q\<rparr>
        in if b = fmempty then s
           else CommitBackup ser b [] (s\<lparr>inFlushingAsync := True\<rparr>))"

definition Flush :: "(key_value \<Rightarrow> string) \<Rightarrow> backup_state \<Rightarrow> backup_state" where
  "Flush ser s =
     (if toBackup s = fmempty then s
      else
        let n = fcard (fmdom (toBackup s));
            s = s\<lparr>toFlush := toFlush s @ [(toBackup s, toBackupSize s)], toBackup := fmempty,
                  toBackupSize := 0, toFlushPromises := toFlushPromises s @ [promises s],
                  promises := []\<rparr>
        in if n \<ge> metaStoreMaxFlushBatchSize s then DoFlush ser s else post MDoFlush s)"

definition FlushAsync :: "(key_value \<Rightarrow> string) \<Rightarrow> backup_state \<Rightarrow> backup_state" where
  "FlushAsync ser s =
     (if toBackupAsync s = fmempty then s
      else
        let n = fcard (fmdom (toBackupAsync s));
            s = s\<lparr>toFlushAsync := toFlushAsync s @ [(toBackupAsync s, toBackupAsyncSize s)],
                  toBackupAsync := fmempty, toBackupAsyncSize := 0\<rparr>
        in if n \<ge> metaStoreMaxFlushBatchSize s then DoFlushForAsync ser s
           else post MDoFlushForAsync s)"

section \<open>Writes\<close>

definition CheckFlush ::
  "(key_value \<Rightarrow> string) \<Rightarrow> bool \<Rightarrow> backup_state \<Rightarrow> nat option \<times> backup_state" where
  "CheckFlush ser async s =
     (if async
      then (None, if fcard (fmdom (toBackupAsync s)) \<ge> metaStoreMaxFlushBatchSize s
                  then FlushAsync ser s else s)
      else
        let p = b_next s;
            s = s\<lparr>promises := promises s @ [p], b_next := p + 1\<rparr>
        in (Some p, if fcard (fmdom (toBackup s)) \<ge> metaStoreMaxFlushBatchSize s
                    then Flush ser s else post MFlush s))"

definition WritePutInternal ::
  "(key_value \<Rightarrow> nat) \<Rightarrow> (key_value \<Rightarrow> string) \<Rightarrow> key_value \<Rightarrow> bool \<Rightarrow> backup_state \<Rightarrow> backup_state" where
  "WritePutInternal bsz ser kv async s =
     (if async
      then
        let s = (if bsz kv + toBackupAsyncSize s \<ge> ETCD_BODY_LIMIT then FlushAsync ser s else s)
        in s\<lparr>toBackupAsync := fmupd (kv_key kv) (Some kv) (toBackupAsync s),
             toBackupAsyncSize := toBackupAsyncSize s + bsz kv\<rparr>
      else
        let s = (if bsz kv + toBackupSize s \<ge> ETCD_BODY_LIMIT then Flush ser s else s)
        in s\<lparr>toBackup := fmupd (kv_key kv) (Some kv) (toBackup s),
             toBackupSize := toBackupSize s + bsz kv\<rparr>)"

text \<open>A \<^verbatim>\<open>DeleteResults\<close> is a pointer; \<open>None\<close> is null.\<close>

definition delete_one :: "bool \<Rightarrow> key_value \<Rightarrow> backup_state \<Rightarrow> backup_state" where
  "delete_one async kv s =
     (if async then s\<lparr>toBackupAsync := fmupd (kv_key kv) None (toBackupAsync s)\<rparr>
      else s\<lparr>toBackup := fmupd (kv_key kv) None (toBackup s)\<rparr>)"

definition WriteDeletesInternal ::
  "key_value list option \<Rightarrow> bool \<Rightarrow> backup_state \<Rightarrow> bool \<times> backup_state" where
  "WriteDeletesInternal kvs async s =
     (case kvs of None \<Rightarrow> (False, s) | Some kvs \<Rightarrow> (True, fold (delete_one async) kvs s))"

definition WritePut ::
  "(key_value \<Rightarrow> nat) \<Rightarrow> (key_value \<Rightarrow> string) \<Rightarrow> key_value \<Rightarrow> bool \<Rightarrow> backup_state \<Rightarrow>
     nat option \<times> backup_state" where
  "WritePut bsz ser kv async s = CheckFlush ser async (WritePutInternal bsz ser kv async s)"

definition WriteDeletes ::
  "(key_value \<Rightarrow> string) \<Rightarrow> key_value list option \<Rightarrow> bool \<Rightarrow> backup_state \<Rightarrow> nat option \<times> backup_state" where
  "WriteDeletes ser kvs async s = CheckFlush ser async (snd (WriteDeletesInternal kvs async s))"

definition txn_put ::
  "(key_value \<Rightarrow> nat) \<Rightarrow> (key_value \<Rightarrow> string) \<Rightarrow> bool \<Rightarrow> put_results \<Rightarrow> nat \<times> backup_state \<Rightarrow> nat \<times> backup_state" where
  "txn_put bsz ser async puts = (\<lambda>(writes, s). (writes + 1, WritePutInternal bsz ser (fst puts) async s))"

definition txn_delete ::
  "bool \<Rightarrow> key_value list option \<Rightarrow> nat \<times> backup_state \<Rightarrow> nat \<times> backup_state" where
  "txn_delete async kvs = (\<lambda>(writes, s).
     let (ok, s) = WriteDeletesInternal kvs async s
     in (if ok then writes + length (the kvs) else writes, s))"

definition WriteTxn ::
  "(key_value \<Rightarrow> nat) \<Rightarrow> (key_value \<Rightarrow> string) \<Rightarrow> put_results list \<times> key_value list option list \<Rightarrow>
     bool \<Rightarrow> backup_state \<Rightarrow> nat option \<times> backup_state" where
  "WriteTxn bsz ser txn async s =
     (let (writes, s) = fold (txn_delete async) (snd txn) (fold (txn_put bsz ser async) (fst txn) (0, s))
      in if writes = 0 then (None, s) else CheckFlush ser async s)"

section \<open>Answers and messages\<close>

definition SetPromises :: "status \<Rightarrow> nat list \<Rightarrow> backup_state \<Rightarrow> backup_state" where
  "SetPromises st ps s =
     (if ps = []
      then
        let s = s\<lparr>inFlushingAsync := False\<rparr>
        in if toFlushAsync s \<noteq> [] \<and> toBackupAsync s \<noteq> fmempty then post MFlushAsync s
           else post MDoFlushForAsync s
      else
        let s = s\<lparr>inFlushing := dec32 (inFlushing s), b_answers := b_answers s @ map (\<lambda>p. (p, st)) ps\<rparr>;
            s = (if IsOk st
                 then if currentFlushThreshold s < metaStoreMaxFlushConcurrency s
                      then s\<lparr>currentFlushThreshold := currentFlushThreshold s + 1\<rparr> else s
                 else if currentFlushThreshold s > 1
                      then s\<lparr>currentFlushThreshold := currentFlushThreshold s - 1\<rparr> else s)
        in if inFlushing s = 0 then post MDoFlush s else s)"

text \<open>The timer.\<close>

definition TriggerAsyncBackup :: "(key_value \<Rightarrow> string) \<Rightarrow> backup_state \<Rightarrow> backup_state" where
  "TriggerAsyncBackup ser s = FlushAsync ser s"

fun handle_msg :: "(key_value \<Rightarrow> string) \<Rightarrow> backup_msg \<Rightarrow> backup_state \<Rightarrow> backup_state" where
  "handle_msg ser MFlush s = Flush ser s"
| "handle_msg ser MFlushAsync s = FlushAsync ser s"
| "handle_msg ser MDoFlush s = DoFlush ser s"
| "handle_msg ser MDoFlushForAsync s = DoFlushForAsync ser s"

text \<open>The actor handles the first message of its mailbox; the persistent store answers the
  transaction at position \<open>i\<close> of those under way.\<close>

definition next_message :: "(key_value \<Rightarrow> string) \<Rightarrow> backup_state \<Rightarrow> backup_state" where
  "next_message ser s =
     (case b_mail s of [] \<Rightarrow> s | m # ms \<Rightarrow> handle_msg ser m (s\<lparr>b_mail := ms\<rparr>))"

definition answer :: "nat \<Rightarrow> status \<Rightarrow> backup_state \<Rightarrow> backup_state" where
  "answer i st s =
     (if i < length (b_inflight s)
      then SetPromises st (b_inflight s ! i)
             (s\<lparr>b_inflight := take i (b_inflight s) @ drop (Suc i) (b_inflight s)\<rparr>)
      else s)"

end
