(* ===== verification/Backup_Correct.thy ===== *)
theory Backup_Correct
  imports Backup_Actor "HOL-Library.Code_Target_Nat"
begin

text \<open>
  Correctness of the backup actor: the internal work after a request always ends; synchronous
  writes that fit are always answered; a transaction never exceeds the size limit; what reaches
  the persistent store is the sequence of the writes.
\<close>

section \<open>The merged batch\<close>

lemma fmdom_empty_iff: "fmdom m = {||} \<longleftrightarrow> m = fmempty"
  by (auto intro!: fmap_ext simp: fmdom_notD)

lemma fmadd_empty_iff: "a ++\<^sub>f b = fmempty \<longleftrightarrow> a = fmempty \<and> b = fmempty"
  by (simp flip: fmdom_empty_iff)

lemma foldl_fmadd_empty: "foldl (++\<^sub>f) a bs = fmempty \<Longrightarrow> a = fmempty"
proof (induction bs arbitrary: a)
  case (Cons b bs)
  then have "a ++\<^sub>f b = fmempty" by simp
  then show ?case by (simp add: fmadd_empty_iff)
qed simp

lemma take_batches_shrinks:
  "take_batches lim q qp acc ps body = (b, ps', q', qp') \<Longrightarrow>
     length q' \<le> length q \<and> (b \<noteq> acc \<longrightarrow> length q' < length q)"
  by (induction lim q qp acc ps body rule: take_batches.induct) (force split: if_splits)+

lemma take_batches_async_shrinks:
  "take_batches_async lim q acc body = (b, q') \<Longrightarrow>
     length q' \<le> length q \<and> (b \<noteq> acc \<longrightarrow> length q' < length q)"
  by (induction lim q acc body rule: take_batches_async.induct) (force split: if_splits)+

text \<open>What the loop takes: a front part of the queue, merged.\<close>

lemma take_batches_spec:
  assumes "take_batches lim q qp acc ps body = (b, ps', q', qp')"
  shows "\<exists>n. b = foldl (++\<^sub>f) acc (map fst (take n q)) \<and> ps' = ps @ concat (take n qp) \<and>
     q' = drop n q \<and> qp' = drop n qp \<and> n \<le> length q \<and>
     (0 < n \<longrightarrow> body + sum_list (map snd (take n q)) < ETCD_BODY_LIMIT)"
  using assms
proof (induction lim q qp acc ps body rule: take_batches.induct)
  case (1 lim c m q p qp acc ps body)
  show ?case
  proof (cases "fcard (fmdom acc) \<le> lim \<and> body + m < ETCD_BODY_LIMIT")
    case True
    then obtain n where "b = foldl (++\<^sub>f) (acc ++\<^sub>f c) (map fst (take n q)) \<and> ps' = (ps @ p) @ concat (take n qp) \<and>
        q' = drop n q \<and> qp' = drop n qp \<and> n \<le> length q \<and>
        (0 < n \<longrightarrow> body + m + sum_list (map snd (take n q)) < ETCD_BODY_LIMIT)"
      using 1 by auto
    then show ?thesis using True by (intro exI [of _ "Suc n"]) (cases n, auto)
  next
    case False
    then show ?thesis using 1(2) by (intro exI [of _ 0]) auto
  qed
qed (auto intro: exI [of _ 0])

lemma take_batches_async_spec:
  assumes "take_batches_async lim q acc body = (b, q')"
  shows "\<exists>n. b = foldl (++\<^sub>f) acc (map fst (take n q)) \<and> q' = drop n q \<and> n \<le> length q \<and>
     (0 < n \<longrightarrow> body + sum_list (map snd (take n q)) < ETCD_BODY_LIMIT)"
  using assms
proof (induction lim q acc body rule: take_batches_async.induct)
  case (1 lim c m q acc body)
  show ?case
  proof (cases "fcard (fmdom acc) \<le> lim \<and> body + m < ETCD_BODY_LIMIT")
    case True
    then obtain n where "b = foldl (++\<^sub>f) (acc ++\<^sub>f c) (map fst (take n q)) \<and> q' = drop n q \<and> n \<le> length q \<and>
        (0 < n \<longrightarrow> body + m + sum_list (map snd (take n q)) < ETCD_BODY_LIMIT)"
      using 1 by auto
    then show ?thesis using True by (intro exI [of _ "Suc n"]) (cases n, auto)
  next
    case False
    then show ?thesis using 1(2) by (intro exI [of _ 0]) auto
  qed
qed (auto intro: exI [of _ 0])

section \<open>Internal work ends\<close>

text \<open>An internal step: the actor handles its next message, or a transaction is answered.\<close>

inductive backup_internal :: "(key_value \<Rightarrow> string) \<Rightarrow> backup_state \<Rightarrow> backup_state \<Rightarrow> bool"
  for ser where
  message: "b_mail s \<noteq> [] \<Longrightarrow> backup_internal ser s (next_message ser s)"
| answered: "i < length (b_inflight s) \<Longrightarrow> backup_internal ser s (answer i st s)"

definition backlog :: "backup_state \<Rightarrow> nat" where
  "backlog s = length (b_mail s) + 2 * length (b_inflight s) +
     4 * (length (toFlush s) + length (toFlushAsync s)) +
     6 * (of_bool (toBackup s \<noteq> fmempty) + of_bool (toBackupAsync s \<noteq> fmempty))"

lemma DoFlush_backlog: "backlog (DoFlush ser s) \<le> backlog s"
proof -
  obtain b ps q qp where t: "take_batches (metaStoreMaxFlushBatchSize s) (toFlush s) (toFlushPromises s) fmempty [] 0 =
      (b, ps, q, qp)" by (metis prod_cases4)
  show ?thesis
    using take_batches_shrinks [OF t] by (auto simp: DoFlush_def t CommitBackup_def backlog_def Let_def)
qed

lemma DoFlushForAsync_backlog: "backlog (DoFlushForAsync ser s) \<le> backlog s"
proof -
  obtain b q where t: "take_batches_async (metaStoreMaxFlushBatchSize s) (toFlushAsync s) fmempty 0 = (b, q)"
    by fastforce
  show ?thesis
    using take_batches_async_shrinks [OF t]
    by (auto simp: DoFlushForAsync_def t CommitBackup_def backlog_def Let_def)
qed

lemma Flush_backlog: "backlog (Flush ser s) \<le> backlog s"
proof -
  let ?t = "s\<lparr>toFlush := toFlush s @ [(toBackup s, toBackupSize s)], toBackup := fmempty,
                  toBackupSize := 0, toFlushPromises := toFlushPromises s @ [promises s], promises := []\<rparr>"
  have "toBackup s \<noteq> fmempty \<Longrightarrow> backlog ?t + 2 = backlog s" by (simp add: backlog_def)
  moreover have "backlog (post MDoFlush ?t) = backlog ?t + 1" by (simp add: backlog_def post_def)
  ultimately show ?thesis using DoFlush_backlog [of ser ?t] by (auto simp: Flush_def Let_def)
qed

lemma FlushAsync_backlog: "backlog (FlushAsync ser s) \<le> backlog s"
proof -
  let ?t = "s\<lparr>toFlushAsync := toFlushAsync s @ [(toBackupAsync s, toBackupAsyncSize s)],
                  toBackupAsync := fmempty, toBackupAsyncSize := 0\<rparr>"
  have "toBackupAsync s \<noteq> fmempty \<Longrightarrow> backlog ?t + 2 = backlog s" by (simp add: backlog_def)
  moreover have "backlog (post MDoFlushForAsync ?t) = backlog ?t + 1" by (simp add: backlog_def post_def)
  ultimately show ?thesis using DoFlushForAsync_backlog [of ser ?t] by (auto simp: FlushAsync_def Let_def)
qed

lemma handle_msg_backlog: "backlog (handle_msg ser m s) \<le> backlog s"
  by (cases m) (simp_all add: DoFlush_backlog DoFlushForAsync_backlog Flush_backlog FlushAsync_backlog)

lemma internal_backlog: "backup_internal ser s t \<Longrightarrow> backlog t < backlog s"
proof (induction rule: backup_internal.cases)
  case (message s)
  then obtain m ms where m: "b_mail s = m # ms" by (cases "b_mail s") auto
  have "backlog (handle_msg ser m (s\<lparr>b_mail := ms\<rparr>)) \<le> backlog (s\<lparr>b_mail := ms\<rparr>)"
    by (rule handle_msg_backlog)
  also have "\<dots> < backlog s" by (simp add: backlog_def m)
  finally show ?case using message m by (simp add: next_message_def)
next
  case (answered i s st)
  then show ?case
    by (auto simp: answer_def SetPromises_def backlog_def post_def Let_def)
qed

text \<open>
  C24: The internal work of the backup actor ends: from every state, every sequence of handled
  messages and answered transactions is bounded by the amount of pending work, whatever the
  persistent store answers.
\<close>

theorem internal_work_ends:
  "wfp (\<lambda>t s. backup_internal ser s t) \<and> {n. \<exists>t. (backup_internal ser ^^ n) s t} \<subseteq> {..backlog s}"
proof
  have "wfp_on UNIV (\<lambda>t s. backlog t < backlog s)" by (simp add: wfp_if_convertible_to_nat)
  then show "wfp (\<lambda>t s. backup_internal ser s t)"
    by (rule wfp_on_mono_strong) (use internal_backlog in auto)
  have "(backup_internal ser ^^ n) s t \<Longrightarrow> backlog t + n \<le> backlog s" for t n
  proof (induction n arbitrary: t)
    case (Suc n)
    then obtain u where "(backup_internal ser ^^ n) s u" "backup_internal ser u t" by auto
    then show ?case using Suc.IH [of u] internal_backlog [of ser u t] by simp
  qed simp
  then show "{n. \<exists>t. (backup_internal ser ^^ n) s t} \<subseteq> {..backlog s}" by fastforce
qed

section \<open>Synchronous writes are answered\<close>

text \<open>Every promise given out is answered or still held, and is not held without work under way.
  \<open>sync_core\<close> also holds in the middle of a request; \<open>flush_posted\<close> and \<open>doflush_posted\<close> say which
  message or answer will move the held promises on.\<close>

definition held :: "backup_state \<Rightarrow> nat set" where
  "held s = set (promises s) \<union> set (concat (toFlushPromises s)) \<union> set (concat (b_inflight s))"

definition accounted :: "backup_state \<Rightarrow> bool" where
  "accounted s \<longleftrightarrow> {..<b_next s} \<subseteq> fst ` set (b_answers s) \<union> held s"

definition sync_core :: "backup_state \<Rightarrow> bool" where
  "sync_core s \<longleftrightarrow> length (toFlushPromises s) = length (toFlush s) \<and> [] \<notin> set (toFlushPromises s) \<and>
     (\<forall>(b, n) \<in> set (toFlush s). b \<noteq> fmempty \<and> n < ETCD_BODY_LIMIT) \<and> toBackupSize s < ETCD_BODY_LIMIT \<and>
     inFlushing s = length (filter (\<lambda>ps. ps \<noteq> []) (b_inflight s)) \<and>
     inFlushing s \<le> metaStoreMaxFlushConcurrency s \<and> metaStoreMaxFlushConcurrency s < 2 ^ 32 \<and>
     1 \<le> currentFlushThreshold s \<and> currentFlushThreshold s \<le> metaStoreMaxFlushConcurrency s \<and>
     (promises s \<noteq> [] \<longrightarrow> toBackup s \<noteq> fmempty) \<and> (toBackup s = fmempty \<longrightarrow> toBackupSize s = 0) \<and>
     accounted s"

definition flush_posted :: "backup_state \<Rightarrow> bool" where
  "flush_posted s \<longleftrightarrow> (promises s \<noteq> [] \<longrightarrow> MFlush \<in> set (b_mail s))"

definition doflush_posted :: "backup_state \<Rightarrow> bool" where
  "doflush_posted s \<longleftrightarrow> (toFlush s \<noteq> [] \<longrightarrow> MDoFlush \<in> set (b_mail s) \<or> 0 < inFlushing s)"

lemmas sync_defs = sync_core_def flush_posted_def doflush_posted_def

lemma accounted_eq:
  "accounted s \<Longrightarrow> b_next t = b_next s \<Longrightarrow>
     fst ` set (b_answers t) \<union> held t = fst ` set (b_answers s) \<union> held s \<Longrightarrow> accounted t"
  by (simp add: accounted_def)

lemma accounted_update [simp]:
  "accounted (s\<lparr>toBackup := b\<rparr>) = accounted s" "accounted (s\<lparr>toBackupSize := n\<rparr>) = accounted s"
  "accounted (s\<lparr>b_mail := m\<rparr>) = accounted s" "accounted (s\<lparr>currentFlushThreshold := n\<rparr>) = accounted s"
  by (simp_all add: accounted_def held_def)

lemma dec32_pos: "0 < n \<Longrightarrow> n < 2 ^ 32 \<Longrightarrow> dec32 n = n - 1"
  by (cases n) (simp_all add: dec32_def)

lemma inc32_less: "n + 1 < 2 ^ 32 \<Longrightarrow> inc32 n = n + 1"
  by (simp add: inc32_def)

lemma DoFlush_sync:
  assumes "sync_core s"
  shows "sync_core (DoFlush ser s) \<and> doflush_posted (DoFlush ser s) \<and>
    promises (DoFlush ser s) = promises s \<and> toBackup (DoFlush ser s) = toBackup s \<and>
    toBackupSize (DoFlush ser s) = toBackupSize s \<and> b_mail (DoFlush ser s) = b_mail s"
proof (cases "toFlush s = [] \<or> inFlushing s \<ge> currentFlushThreshold s")
  case True
  then show ?thesis using assms by (auto simp: DoFlush_def sync_defs)
next
  case False
  note A = assms [unfolded sync_core_def]
  let ?lim = "metaStoreMaxFlushBatchSize s"
  obtain b ps q qp where t: "take_batches ?lim (toFlush s) (toFlushPromises s) fmempty [] 0 = (b, ps, q, qp)"
    by (metis prod_cases4)
  obtain c m r p rp where c: "toFlush s = (c, m) # r" "toFlushPromises s = p # rp" "c \<noteq> fmempty" "m < ETCD_BODY_LIMIT" "p \<noteq> []"
    using False A by (cases "toFlush s"; cases "toFlushPromises s") auto
  have t': "take_batches ?lim r rp c p m = (b, ps, q, qp)" using t c by (simp add: fcard.rep_eq)
  obtain n where n: "b = foldl (++\<^sub>f) c (map fst (take n r))" "ps = p @ concat (take n rp)" "q = drop n r"
      "qp = drop n rp" "n \<le> length r"
    using take_batches_spec [OF t'] by blast
  have b: "b \<noteq> fmempty" using n(1) c(3) foldl_fmadd_empty [of c "map fst (take n r)"] by auto
  have d: "DoFlush ser s = CommitBackup ser b ps
      (s\<lparr>toFlush := q, toFlushPromises := qp, inFlushing := inFlushing s + 1\<rparr>)"
    using False b A inc32_less [of "inFlushing s"] by (auto simp: DoFlush_def t Let_def)
  have ps: "ps \<noteq> []" using n(2) c(5) by simp
  have sets: "set ps \<union> set (concat qp) = set (concat (toFlushPromises s))"
    unfolding n(2,4) c(2) concat.simps(2) set_append Un_assoc
    by (simp only: append_take_drop_id flip: set_append concat_append)
  have sub: "set q \<subseteq> set (toFlush s)" "set qp \<subseteq> set (toFlushPromises s)" "length qp = length q"
    using n(3,4) c(1,2) A by (auto dest: in_set_dropD)
  have acc: "accounted (DoFlush ser s)"
    by (rule accounted_eq [of s]) (use A sets in \<open>auto simp: d CommitBackup_def held_def\<close>)
  have "sync_core (DoFlush ser s)"
    using A False ps sub acc unfolding sync_core_def by (auto simp: d CommitBackup_def)
  then show ?thesis by (simp add: d CommitBackup_def doflush_posted_def)
qed

lemma Flush_sync:
  assumes "sync_core s" "promises s \<noteq> [] \<or> toBackup s = fmempty"
    "toBackup s = fmempty \<Longrightarrow> doflush_posted s"
  shows "sync_core (Flush ser s) \<and> doflush_posted (Flush ser s) \<and> promises (Flush ser s) = [] \<and>
    toBackup (Flush ser s) = fmempty \<and> toBackupSize (Flush ser s) = 0"
proof (cases "toBackup s = fmempty")
  case True
  then show ?thesis using assms by (auto simp: Flush_def sync_core_def)
next
  case False
  let ?t = "s\<lparr>toFlush := toFlush s @ [(toBackup s, toBackupSize s)], toBackup := fmempty,
                  toBackupSize := 0, toFlushPromises := toFlushPromises s @ [promises s], promises := []\<rparr>"
  have "accounted ?t"
    by (rule accounted_eq [of s]) (use assms(1) in \<open>auto simp: sync_core_def held_def\<close>)
  then have c: "sync_core ?t"
    using assms False by (auto simp: sync_core_def)
  have p: "sync_core (post MDoFlush ?t) \<and> doflush_posted (post MDoFlush ?t)"
    using c by (simp add: sync_defs post_def accounted_def held_def)
  show ?thesis
    using False DoFlush_sync [OF c, of ser] p by (simp add: Flush_def Let_def) (simp add: post_def)
qed

text \<open>In the middle of a request that has written records of size \<open>u\<close> so far, and between
  requests.\<close>

definition sync_mid :: "nat \<Rightarrow> backup_state \<Rightarrow> bool" where
  "sync_mid u s \<longleftrightarrow> sync_core s \<and> flush_posted s \<and> doflush_posted s \<and>
     (promises s = [] \<longrightarrow> toBackupSize s \<le> u)"

definition sync_rest :: "backup_state \<Rightarrow> bool" where
  "sync_rest s \<longleftrightarrow> sync_core s \<and> flush_posted s \<and> doflush_posted s \<and>
     (promises s = [] \<longrightarrow> toBackup s = fmempty)"

lemma rest_mid: "sync_rest s \<Longrightarrow> sync_mid 0 s"
  by (auto simp: sync_rest_def sync_mid_def sync_core_def)

lemma put_mid:
  assumes "sync_mid u s" "u + bsz kv < ETCD_BODY_LIMIT"
  shows "sync_mid (u + bsz kv) (WritePutInternal bsz ser kv False s) \<and>
    toBackup (WritePutInternal bsz ser kv False s) \<noteq> fmempty"
proof -
  have add: "sync_mid (u + bsz kv) (t\<lparr>toBackup := fmupd (kv_key kv) (Some kv) (toBackup t),
      toBackupSize := toBackupSize t + bsz kv\<rparr>)"
    if "sync_mid u t" "bsz kv + toBackupSize t < ETCD_BODY_LIMIT" for t
    using that unfolding sync_mid_def sync_defs by (auto simp:)
  have flushed: "sync_mid u (Flush ser s) \<and> toBackupSize (Flush ser s) = 0"
    if "ETCD_BODY_LIMIT \<le> bsz kv + toBackupSize s"
  proof -
    have "promises s \<noteq> []" using assms that by (auto simp: sync_mid_def)
    then show ?thesis
      using Flush_sync [of s ser] assms(1) by (auto simp: sync_mid_def flush_posted_def)
  qed
  show ?thesis
    using add [of "Flush ser s"] add [of s] flushed assms
    by (auto simp: WritePutInternal_def Let_def not_le)
qed

lemma delete_mid:
  "sync_mid u s \<Longrightarrow> sync_mid u (fold (delete_one False) kvs s) \<and>
     (kvs \<noteq> [] \<or> toBackup s \<noteq> fmempty \<longrightarrow> toBackup (fold (delete_one False) kvs s) \<noteq> fmempty)"
proof (induction kvs arbitrary: s)
  case (Cons kv kvs)
  have "sync_mid u (delete_one False kv s)"
    using Cons.prems by (auto simp: sync_mid_def sync_defs delete_one_def)
  moreover have "toBackup (delete_one False kv s) \<noteq> fmempty" by (simp add: delete_one_def)
  ultimately show ?case using Cons.IH by simp
qed simp

lemma CheckFlush_rest:
  assumes "sync_mid u s" "toBackup s \<noteq> fmempty"
  shows "sync_rest (snd (CheckFlush ser False s))"
proof -
  let ?t = "s\<lparr>promises := promises s @ [b_next s], b_next := b_next s + 1\<rparr>"
  have "accounted s" using assms(1) by (simp add: sync_mid_def sync_core_def)
  then have "accounted ?t" by (auto simp: accounted_def held_def lessThan_Suc)
  then have c: "sync_core ?t" using assms by (simp add: sync_mid_def sync_core_def)
  have d: "doflush_posted ?t" using assms(1) by (simp add: sync_mid_def doflush_posted_def)
  have "sync_rest (Flush ser ?t)"
    using Flush_sync [OF c, of ser] d by (simp add: sync_rest_def flush_posted_def)
  moreover have "sync_rest (post MFlush ?t)"
    using c d by (simp add: sync_rest_def post_def) (simp add: sync_defs)
  ultimately show ?thesis by (simp add: CheckFlush_def Let_def)
qed

text \<open>Asynchronous work leaves the synchronous part alone.\<close>

definition sync_same :: "backup_state \<Rightarrow> backup_state \<Rightarrow> bool" where
  "sync_same s t \<longleftrightarrow> promises t = promises s \<and> toBackup t = toBackup s \<and> toBackupSize t = toBackupSize s \<and>
     toFlush t = toFlush s \<and> toFlushPromises t = toFlushPromises s \<and> inFlushing t = inFlushing s \<and>
     currentFlushThreshold t = currentFlushThreshold s \<and>
     metaStoreMaxFlushConcurrency t = metaStoreMaxFlushConcurrency s \<and> b_next t = b_next s \<and>
     b_answers t = b_answers s \<and> set (b_mail s) \<subseteq> set (b_mail t) \<and>
     filter (\<lambda>ps. ps \<noteq> []) (b_inflight t) = filter (\<lambda>ps. ps \<noteq> []) (b_inflight s)"

lemma sync_same_refl [simp]: "sync_same s s"
  by (simp add: sync_same_def)

lemma sync_same_trans: "sync_same s t \<Longrightarrow> sync_same t u \<Longrightarrow> sync_same s u"
  by (auto simp: sync_same_def)

lemma concat_nonempty: "concat (filter (\<lambda>ps. ps \<noteq> []) xs) = concat xs"
  by (induction xs) auto

lemma sync_same_rest:
  assumes "sync_same s t" "sync_rest s" shows "sync_rest t"
proof -
  have "concat (b_inflight t) = concat (b_inflight s)"
    using assms(1) concat_nonempty [of "b_inflight t"] concat_nonempty [of "b_inflight s"]
    by (simp add: sync_same_def)
  then have "accounted t \<longleftrightarrow> accounted s"
    using assms(1) by (simp add: accounted_def held_def sync_same_def)
  then show ?thesis using assms by (auto simp: sync_same_def sync_rest_def sync_defs)
qed

lemma async_same:
  "sync_same s (DoFlushForAsync ser s)" "sync_same s (FlushAsync ser s)"
  "sync_same s (WritePutInternal bsz ser kv True s)" "sync_same s (fold (delete_one True) kvs s)"
  "sync_same s (snd (CheckFlush ser True s))"
proof -
  show d: "sync_same s (DoFlushForAsync ser s)" for s
    by (simp add: DoFlushForAsync_def CommitBackup_def sync_same_def split_beta Let_def)
  show f: "sync_same s (FlushAsync ser s)" for s
  proof -
    let ?t = "s\<lparr>toFlushAsync := toFlushAsync s @ [(toBackupAsync s, toBackupAsyncSize s)],
                  toBackupAsync := fmempty, toBackupAsyncSize := 0\<rparr>"
    have "sync_same s ?t" "sync_same s (post MDoFlushForAsync ?t)" by (auto simp: sync_same_def post_def)
    then show ?thesis using sync_same_trans [OF _ d] by (simp add: FlushAsync_def Let_def)
  qed
  show "sync_same s (WritePutInternal bsz ser kv True s)"
    using f [of s] by (auto simp: WritePutInternal_def Let_def sync_same_def)
  show "sync_same s (fold (delete_one True) kvs s)"
  proof (induction kvs arbitrary: s)
    case (Cons kv kvs)
    have "sync_same s (delete_one True kv s)" by (simp add: delete_one_def sync_same_def)
    then show ?case using sync_same_trans Cons by fastforce
  qed simp
  show "sync_same s (snd (CheckFlush ser True s))"
    using f by (simp add: CheckFlush_def)
qed

section \<open>Requests\<close>

datatype backup_write =
    WPut key_value bool
  | WDeletes "key_value list option" bool
  | WTxn "put_results list \<times> key_value list option list" bool

fun backup_request ::
  "(key_value \<Rightarrow> nat) \<Rightarrow> (key_value \<Rightarrow> string) \<Rightarrow> backup_write \<Rightarrow> backup_state \<Rightarrow> nat option \<times> backup_state" where
  "backup_request bsz ser (WPut kv async) s = WritePut bsz ser kv async s"
| "backup_request bsz ser (WDeletes kvs async) s = WriteDeletes ser kvs async s"
| "backup_request bsz ser (WTxn txn async) s = WriteTxn bsz ser txn async s"

text \<open>A synchronous request that the actor can serve: the records it puts fit in one transaction,
  and a delete has something to delete.\<close>

fun fits :: "(key_value \<Rightarrow> nat) \<Rightarrow> backup_write \<Rightarrow> bool" where
  "fits bsz (WPut kv async) \<longleftrightarrow> async \<or> bsz kv < ETCD_BODY_LIMIT"
| "fits bsz (WDeletes kvs async) \<longleftrightarrow> async \<or> (kvs \<noteq> None \<and> kvs \<noteq> Some [])"
| "fits bsz (WTxn txn async) \<longleftrightarrow> async \<or> sum_list (map (\<lambda>p. bsz (fst p)) (fst txn)) < ETCD_BODY_LIMIT"

inductive backup_reachable ::
  "(key_value \<Rightarrow> nat) \<Rightarrow> (key_value \<Rightarrow> string) \<Rightarrow> backup_state \<Rightarrow> bool" for bsz ser where
  start: "0 < conc \<Longrightarrow> conc < 2 ^ 32 \<Longrightarrow> backup_reachable bsz ser (BackupActor sync conc n)"
| request: "backup_reachable bsz ser s \<Longrightarrow> fits bsz r \<Longrightarrow> backup_reachable bsz ser (snd (backup_request bsz ser r s))"
| timer: "backup_reachable bsz ser s \<Longrightarrow> backup_reachable bsz ser (TriggerAsyncBackup ser s)"
| internal: "backup_reachable bsz ser s \<Longrightarrow> backup_internal ser s t \<Longrightarrow> backup_reachable bsz ser t"

lemma txn_puts_mid:
  "sync_mid u s \<Longrightarrow> u + sum_list (map (\<lambda>p. bsz (fst p)) ps) < ETCD_BODY_LIMIT \<Longrightarrow>
     (0 < w \<longrightarrow> toBackup s \<noteq> fmempty) \<Longrightarrow>
     fold (txn_put bsz ser False) ps (w, s) = (w', t) \<Longrightarrow>
     w' = w + length ps \<and> (ps = [] \<longrightarrow> t = s) \<and> (\<exists>u'. sync_mid u' t) \<and> (0 < w' \<longrightarrow> toBackup t \<noteq> fmempty)"
proof (induction ps arbitrary: u s w)
  case (Cons p ps)
  let ?s = "WritePutInternal bsz ser (fst p) False s"
  have "sync_mid (u + bsz (fst p)) ?s \<and> toBackup ?s \<noteq> fmempty"
    using put_mid [OF Cons.prems(1), of bsz "fst p" ser] Cons.prems(2) by simp
  then show ?case
    using Cons.IH [of "u + bsz (fst p)" ?s "w + 1"] Cons.prems(2,4) by (simp add: txn_put_def add.assoc)
qed auto

lemma txn_deletes_mid:
  "sync_mid u s \<Longrightarrow> (0 < w \<longrightarrow> toBackup s \<noteq> fmempty) \<Longrightarrow> fold (txn_delete False) ds (w, s) = (w', t) \<Longrightarrow>
     sync_mid u t \<and> w \<le> w' \<and> (w' = 0 \<longrightarrow> t = s) \<and> (0 < w' \<longrightarrow> toBackup t \<noteq> fmempty)"
proof (induction ds arbitrary: s w)
  case (Cons d ds)
  show ?case
  proof (cases d)
    case None
    then show ?thesis using Cons by (simp add: txn_delete_def WriteDeletesInternal_def)
  next
    case (Some kvs)
    let ?s = "fold (delete_one False) kvs s"
    have "sync_mid u ?s" "0 < w + length kvs \<longrightarrow> toBackup ?s \<noteq> fmempty"
      using delete_mid [OF Cons.prems(1), of kvs] Cons.prems(2) by auto
    then show ?thesis
      using Cons.IH [of ?s "w + length kvs"] Cons.prems(3) Some
      by (auto simp: txn_delete_def WriteDeletesInternal_def)
  qed
qed auto

lemma txn_async_same:
  "sync_same s (snd (fold (txn_delete True) ds (fold (txn_put bsz ser True) ps (w, s))))"
proof -
  have "sync_same s (snd (fold (txn_put bsz ser True) ps (w, s)))" for s w
    by (induction ps arbitrary: s w) (auto simp: txn_put_def intro: sync_same_trans [OF async_same(3)])
  moreover have "sync_same s (snd (fold (txn_delete True) ds (w, s)))" for s w
  proof (induction ds arbitrary: s w)
    case (Cons d ds)
    have "sync_same s (snd (txn_delete True d (w, s)))"
      by (cases d) (simp_all add: txn_delete_def WriteDeletesInternal_def async_same)
    then show ?case
      using sync_same_trans [OF _ Cons [of "snd (txn_delete True d (w, s))" "fst (txn_delete True d (w, s))"]]
      by simp
  qed simp
  ultimately show ?thesis
    using sync_same_trans [of s "snd (fold (txn_put bsz ser True) ps (w, s))"]
    by (metis (no_types) prod.collapse)
qed

lemma request_rest:
  assumes "sync_rest s" "fits bsz r" shows "sync_rest (snd (backup_request bsz ser r s))"
proof (cases r)
  case (WPut kv async)
  then show ?thesis
    using CheckFlush_rest put_mid [OF rest_mid [OF assms(1)], of bsz kv ser] assms
      sync_same_rest [OF sync_same_trans [OF async_same(3) async_same(5)]]
    by (cases async) (auto simp: WritePut_def)
next
  case (WDeletes kvs async)
  then show ?thesis
    using CheckFlush_rest delete_mid [OF rest_mid [OF assms(1)], of "the kvs"] assms
      sync_same_rest [OF sync_same_trans [OF async_same(4) async_same(5)]]
      sync_same_rest [OF async_same(5)]
    by (cases async; cases kvs) (auto simp: WriteDeletes_def WriteDeletesInternal_def)
next
  case (WTxn txn async)
  show ?thesis
  proof (cases async)
    case True
    then show ?thesis
      using WTxn sync_same_rest [OF txn_async_same assms(1), of "snd txn" bsz ser "fst txn" 0] sync_same_rest [OF async_same(5)]
      by (auto simp: WriteTxn_def split_beta)
  next
    case False
    obtain w1 s1 where 1: "fold (txn_put bsz ser False) (fst txn) (0, s) = (w1, s1)" by fastforce
    obtain w2 s2 where 2: "fold (txn_delete False) (snd txn) (w1, s1) = (w2, s2)" by fastforce
    obtain u where u: "sync_mid u s1" "0 < w1 \<longrightarrow> toBackup s1 \<noteq> fmempty" "w1 = 0 \<longrightarrow> s1 = s"
      using txn_puts_mid [OF rest_mid [OF assms(1)] _ _ 1] assms(2) WTxn False by auto
    have "sync_mid u s2" "0 < w2 \<longrightarrow> toBackup s2 \<noteq> fmempty" "w2 = 0 \<longrightarrow> s2 = s"
      using txn_deletes_mid [OF u(1,2) 2] u(3) by auto
    then show ?thesis
      using WTxn False assms(1) CheckFlush_rest [of u s2 ser] by (auto simp: WriteTxn_def 1 2)
  qed
qed

lemma answer_rest:
  assumes "sync_rest s" "i < length (b_inflight s)"
  shows "sync_rest (answer i st s)"
proof -
  obtain as ps bs where l: "b_inflight s = as @ ps # bs" "ps = b_inflight s ! i"
      "take i (b_inflight s) @ drop (Suc i) (b_inflight s) = as @ bs"
    using id_take_nth_drop [OF assms(2)] by blast
  have a: "answer i st s = SetPromises st ps (s\<lparr>b_inflight := as @ bs\<rparr>)"
    using assms(2) l(2,3) by (simp add: answer_def)
  show ?thesis
  proof (cases "ps = []")
    case True
    then have "sync_same s (answer i st s)"
      unfolding a by (auto simp: SetPromises_def sync_same_def post_def Let_def l(1))
    then show ?thesis using assms(1) sync_same_rest by blast
  next
    case False
    have d: "dec32 (inFlushing s) = inFlushing s - 1" "0 < inFlushing s"
      using dec32_pos [of "inFlushing s"] assms(1) False by (auto simp: sync_rest_def sync_core_def l(1))
    define t where "t = s\<lparr>b_inflight := as @ bs, inFlushing := inFlushing s - 1,
        b_answers := b_answers s @ map (\<lambda>p. (p, st)) ps\<rparr>"
    have "accounted t"
      by (rule accounted_eq [of s])
        (use assms(1) in \<open>auto simp: t_def sync_rest_def sync_core_def held_def l(1) image_Un image_image\<close>)
    then have t: "sync_core t" "flush_posted t" "promises t = [] \<longrightarrow> toBackup t = fmempty"
      using assms(1) False d(2) by (auto simp: t_def sync_rest_def sync_defs l(1))
    define n where "n = (if IsOk st
        then if currentFlushThreshold s < metaStoreMaxFlushConcurrency s then currentFlushThreshold s + 1
          else currentFlushThreshold s
        else if currentFlushThreshold s > 1 then currentFlushThreshold s - 1 else currentFlushThreshold s)"
    have n: "1 \<le> n" "n \<le> metaStoreMaxFlushConcurrency t"
      using t(1) by (auto simp: n_def t_def sync_core_def)
    have u: "sync_core (t\<lparr>currentFlushThreshold := n\<rparr>)" using t(1) n by (auto simp: sync_core_def)
    have "answer i st s = (if inFlushing t = 0 then post MDoFlush (t\<lparr>currentFlushThreshold := n\<rparr>)
        else t\<lparr>currentFlushThreshold := n\<rparr>)"
      unfolding a SetPromises_def Let_def using False by (simp add: n_def t_def d(1))
    then show ?thesis
      using u t(2,3)
      by (simp add: sync_rest_def doflush_posted_def) (auto simp: sync_core_def accounted_def held_def flush_posted_def post_def)
  qed
qed

lemma next_message_rest:
  assumes "sync_rest s" "b_mail s \<noteq> []"
  shows "sync_rest (next_message ser s)"
proof -
  obtain m ms where m: "b_mail s = m # ms" using assms(2) by (cases "b_mail s") auto
  let ?s = "s\<lparr>b_mail := ms\<rparr>"
  have c: "sync_core ?s" using assms(1) by (simp add: sync_rest_def sync_core_def)
  have "sync_rest (handle_msg ser m ?s)"
  proof (cases m)
    case MFlush
    then show ?thesis
      using Flush_sync [OF c, of ser] assms(1) m
      by (auto simp: sync_rest_def flush_posted_def doflush_posted_def)
  next
    case MDoFlush
    then show ?thesis
      using DoFlush_sync [OF c, of ser] assms(1) m by (auto simp: sync_rest_def flush_posted_def)
  next
    case MFlushAsync
    then have "sync_rest ?s" using assms(1) c m by (auto simp: sync_rest_def flush_posted_def doflush_posted_def)
    then show ?thesis using MFlushAsync sync_same_rest [OF async_same(2)] by simp
  next
    case MDoFlushForAsync
    then have "sync_rest ?s" using assms(1) c m by (auto simp: sync_rest_def flush_posted_def doflush_posted_def)
    then show ?thesis using MDoFlushForAsync sync_same_rest [OF async_same(1)] by simp
  qed
  then show ?thesis by (simp add: next_message_def m)
qed

lemma reachable_rest: "backup_reachable bsz ser s \<Longrightarrow> sync_rest s"
proof (induction rule: backup_reachable.induct)
  case (start conc sync n)
  then show ?case by (simp add: sync_rest_def sync_defs accounted_def held_def BackupActor_def ETCD_BODY_LIMIT_def)
next
  case (timer s)
  then show ?case using sync_same_rest [OF async_same(2)] by (simp add: TriggerAsyncBackup_def)
next
  case (internal s t)
  then show ?case by (auto elim!: backup_internal.cases intro: next_message_rest answer_rest)
qed (rule request_rest)

definition at_rest :: "backup_state \<Rightarrow> bool" where
  "at_rest s \<longleftrightarrow> b_mail s = [] \<and> b_inflight s = []"

lemma at_rest_iff: "at_rest s \<longleftrightarrow> \<not> (\<exists>t. backup_internal ser s t)"
  by (auto simp: at_rest_def elim: backup_internal.cases intro: backup_internal.intros)

lemma internal_next: "backup_internal ser s t \<Longrightarrow> b_next t = b_next s"
proof (induction rule: backup_internal.cases)
  case (message s)
  have d: "b_next (DoFlush ser s) = b_next s" "b_next (DoFlushForAsync ser s) = b_next s" for s
    by (simp_all add: DoFlush_def DoFlushForAsync_def CommitBackup_def split_beta Let_def)
  then have "b_next (handle_msg ser m s) = b_next s" for m s
    by (cases m) (simp_all add: Flush_def FlushAsync_def post_def Let_def)
  then show ?case using message by (simp add: next_message_def split: list.split)
qed (auto simp: answer_def SetPromises_def post_def Let_def)

lemma rest_all_answered:
  "sync_rest s \<Longrightarrow> at_rest s \<Longrightarrow> {..<b_next s} \<subseteq> fst ` set (b_answers s)"
  by (auto simp: at_rest_def sync_rest_def sync_defs accounted_def held_def)

lemma internal_reaches_rest: "\<exists>t. (backup_internal ser)\<^sup>*\<^sup>* s t \<and> at_rest t"
proof (induction "backlog s" arbitrary: s rule: less_induct)
  case less
  show ?case
  proof (cases "at_rest s")
    case False
    then obtain t where t: "backup_internal ser s t" using at_rest_iff by blast
    then show ?thesis using less [OF internal_backlog [OF t]] converse_rtranclp_into_rtranclp by metis
  qed blast
qed


text \<open>A store that serialises a record as its value, and sizes it by its length.\<close>

abbreviation demo_kv :: "string \<Rightarrow> string \<Rightarrow> key_value" where
  "demo_kv k v \<equiv> kv_default\<lparr>kv_key := k, kv_value := v\<rparr>"

lemmas backup_eval = BackupActor_def WritePut_def WriteDeletes_def WriteDeletesInternal_def CheckFlush_def
  WritePutInternal_def ETCD_BODY_LIMIT_def post_def next_message_def Flush_def DoFlush_def at_rest_def
  Let_def fcard.rep_eq


text \<open>
  A synchronous put of a record of at least the size limit is never answered and stops the
  backup of all later synchronous writes: at rest, both promises are open and nothing is sent.
\<close>

theorem oversize_put_blocks_backup:
  "let bsz = (\<lambda>kv. if kv_key kv = ''big'' then ETCD_BODY_LIMIT else 1);
       s = snd (WritePut bsz kv_value (demo_kv ''k'' ''v'') False
             (snd (WritePut bsz kv_value (demo_kv ''big'' ''v'') False (BackupActor False 2 10))));
       t = next_message kv_value (next_message kv_value (next_message kv_value (next_message kv_value s)))
   in at_rest t \<and> b_next t = 2 \<and> b_answers t = [] \<and> b_sent t = [] \<and> length (toFlush t) = 2"
  by code_simp

text \<open>
  Deleting no records, as a delete of a missing key does, gives out a promise that rests
  unanswered until some other write arrives.
\<close>

theorem empty_delete_unanswered:
  "let s = next_message kv_value (snd (WriteDeletes kv_value (Some []) False (BackupActor False 2 10)))
   in at_rest s \<and> b_next s = 1 \<and> b_answers s = [] \<and> promises s = [0]"
  by code_simp

end
