(* ===== verification/Backup_Mirror.thy ===== *)
theory Backup_Mirror
  imports Backup_Correct
begin

text \<open>
  What reaches the persistent store: the transactions sent, applied in the order they are sent,
  have the effect of the writes in the order they were requested, as long as the writes are all
  synchronous or all asynchronous; a mixture can leave an old record in the store. No transaction
  carries records beyond the size limit.
\<close>

section \<open>The persistent store\<close>

type_synonym store = "string \<Rightarrow> string option"

fun apply_op :: "txn_operation \<Rightarrow> store \<Rightarrow> store" where
  "apply_op (OpPut k v) m = m(k := Some v)"
| "apply_op (OpDelete k) m = m(k := None)"

definition persisted :: "store \<Rightarrow> backup_state \<Rightarrow> store" where
  "persisted m s = fold apply_op (concat (b_sent s)) m"

text \<open>The part of the store that holds the backup, by the keys of the service.\<close>

definition backed_up :: "store \<Rightarrow> backup_state \<Rightarrow> store" where
  "backed_up m s k = persisted m s (META_STORE_BACKUP_KV_PREFIX @ k)"

definition overlay :: "(key_value \<Rightarrow> string) \<Rightarrow> batch \<Rightarrow> store \<Rightarrow> store" where
  "overlay ser b f = (\<lambda>k. case fmlookup b k of None \<Rightarrow> f k | Some v \<Rightarrow> map_option ser v)"

lemma overlay_empty [simp]: "overlay ser fmempty f = f"
  by (simp add: overlay_def)

lemma overlay_fmadd: "overlay ser (a ++\<^sub>f b) f = overlay ser b (overlay ser a f)"
  by (auto simp: overlay_def fun_eq_iff split: option.split)

lemma overlay_foldl: "overlay ser (foldl (++\<^sub>f) a bs) f = fold (overlay ser) bs (overlay ser a f)"
  by (induction bs arbitrary: a) (simp_all add: overlay_fmadd)

lemma overlay_fmupd: "overlay ser (fmupd k v b) f = (overlay ser b f)(k := map_option ser v)"
  by (auto simp: overlay_def fun_eq_iff)

text \<open>Keys that cannot be mistaken for a backup key when they are copied to the store as well.\<close>

definition clean_keys :: "bool \<Rightarrow> string set \<Rightarrow> bool" where
  "clean_keys sync ks \<longleftrightarrow> sync \<longrightarrow> (\<forall>k \<in> ks. \<not> prefix META_STORE_BACKUP_KV_PREFIX k)"

lemma clean_keys_simps [simp]:
  "clean_keys sync {}"
  "clean_keys sync (A \<union> B) \<longleftrightarrow> clean_keys sync A \<and> clean_keys sync B"
  by (auto simp: clean_keys_def)

lemma backup_ops_apply:
  assumes "clean_keys sync {k'}"
  shows "fold apply_op (backup_ops ser sync (k', v)) m (META_STORE_BACKUP_KV_PREFIX @ k) =
    (if k' = k then map_option ser v else m (META_STORE_BACKUP_KV_PREFIX @ k))"
  using assms by (cases v) (auto simp: backup_ops_def clean_keys_def)

lemma commit_apply:
  "distinct (map fst xs) \<Longrightarrow> clean_keys sync (fst ` set xs) \<Longrightarrow>
   fold apply_op (concat (map (backup_ops ser sync) xs)) m (META_STORE_BACKUP_KV_PREFIX @ k) =
     (case map_of xs k of None \<Rightarrow> m (META_STORE_BACKUP_KV_PREFIX @ k) | Some v \<Rightarrow> map_option ser v)"
proof (induction xs arbitrary: m)
  case (Cons x xs)
  obtain k' v where x: "x = (k', v)" by (cases x)
  have c: "clean_keys sync {k'}" "clean_keys sync (fst ` set xs)" using Cons.prems(2) by (auto simp: x clean_keys_def)
  have "map_of xs k' = None" using Cons.prems(1) x by (simp add: map_of_eq_None_iff)
  then show ?case
    using Cons.IH [of "fold apply_op (backup_ops ser sync (k', v)) m"] Cons.prems(1) c
    unfolding x by (auto simp: backup_ops_apply split: option.split)
qed simp

lemma map_of_sorted: "map_of (sorted_list_of_fmap m) k = fmlookup m k"
  by (cases "fmlookup m k") (auto simp: map_of_eq_None_iff set_sorted_list_of_fmap image_iff)

lemma CommitBackup_backed_up:
  assumes "clean_keys (enableSyncSysFunc s) (fset (fmdom b))"
  shows "backed_up m (CommitBackup ser b ps s) = overlay ser b (backed_up m s)"
proof
  fix k
  have "fst ` set (sorted_list_of_fmap b) = fset (fmdom b)"
    by (metis keys_sorted_list_of_fmap list.set_map sorted_list_of_fset.rep_eq finite_fset set_sorted_list_of_set)
  then show "backed_up m (CommitBackup ser b ps s) k = overlay ser b (backed_up m s) k"
    using commit_apply [of "sorted_list_of_fmap b" "enableSyncSysFunc s" ser "persisted m s" k] assms
    by (simp add: backed_up_def persisted_def CommitBackup_def overlay_def map_of_sorted split: option.split)
qed

section \<open>The view of one queue\<close>

definition batches :: "bool \<Rightarrow> backup_state \<Rightarrow> batch list" where
  "batches async s = (if async then map fst (toFlushAsync s) @ [toBackupAsync s]
     else map fst (toFlush s) @ [toBackup s])"

definition view :: "bool \<Rightarrow> (key_value \<Rightarrow> string) \<Rightarrow> store \<Rightarrow> backup_state \<Rightarrow> store" where
  "view async ser m s = fold (overlay ser) (batches async s) (backed_up m s)"

definition one_queue :: "bool \<Rightarrow> backup_state \<Rightarrow> bool" where
  "one_queue async s \<longleftrightarrow>
     (if async then toFlush s = [] \<and> toBackup s = fmempty else toFlushAsync s = [] \<and> toBackupAsync s = fmempty) \<and>
     (\<forall>b \<in> set (batches async s). clean_keys (enableSyncSysFunc s) (fset (fmdom b)))"

lemma fmdom_foldl: "fset (fmdom (foldl (++\<^sub>f) a bs)) = fset (fmdom a) \<union> (\<Union>b \<in> set bs. fset (fmdom b))"
  by (induction bs arbitrary: a) auto

lemma clean_foldl:
  "\<forall>b \<in> set bs. clean_keys sync (fset (fmdom b)) \<Longrightarrow> clean_keys sync (fset (fmdom (foldl (++\<^sub>f) fmempty bs)))"
  by (auto simp: fmdom_foldl clean_keys_def)

lemma backed_up_cong: "b_sent t = b_sent s \<Longrightarrow> backed_up m t = backed_up m s"
  by (simp add: backed_up_def persisted_def fun_eq_iff)

lemma DoFlush_view:
  assumes "one_queue False s"
  shows "one_queue False (DoFlush ser s) \<and> view False ser m (DoFlush ser s) = view False ser m s"
proof -
  obtain b ps q qp where t: "take_batches (metaStoreMaxFlushBatchSize s) (toFlush s) (toFlushPromises s) fmempty [] 0 =
      (b, ps, q, qp)" by (metis prod_cases4)
  obtain n where n: "b = foldl (++\<^sub>f) fmempty (map fst (take n (toFlush s)))" "q = drop n (toFlush s)"
    using take_batches_spec [OF t] by auto
  have split: "map fst (toFlush s) = map fst (take n (toFlush s)) @ map fst q"
    by (simp add: n(2) flip: map_append)
  have c: "clean_keys (enableSyncSysFunc s) (fset (fmdom b))"
    unfolding n(1) by (rule clean_foldl) (use assms in \<open>auto simp: one_queue_def batches_def split\<close>)
  have cq: "clean_keys (enableSyncSysFunc s) (fset (fmdom b'))" if "b' \<in> set (map fst q)" for b'
    using assms that by (auto simp: one_queue_def batches_def split)
  have v: "fold (overlay ser) (map fst (toFlush s)) f = fold (overlay ser) (map fst q) (overlay ser b f)" for f
    by (simp add: split) (simp add: n(1) overlay_foldl)
  let ?t = "s\<lparr>toFlush := q, toFlushPromises := qp, inFlushing := inc32 (inFlushing s)\<rparr>"
  have u: "backed_up m (CommitBackup ser b ps ?t) = overlay ser b (backed_up m s)"
    using c CommitBackup_backed_up [of ?t b m ser ps] backed_up_cong [of ?t s m] by simp
  have w: "backed_up m (s\<lparr>toFlush := q, toFlushPromises := qp\<rparr>) = backed_up m s" by (rule backed_up_cong) simp
  show ?thesis
  proof (cases "toFlush s = [] \<or> inFlushing s \<ge> currentFlushThreshold s")
    case True
    then show ?thesis using assms by (auto simp: DoFlush_def)
  next
    case False
    then show ?thesis
      using assms u v w cq
      by (cases "b = fmempty") (auto simp: DoFlush_def t Let_def one_queue_def batches_def view_def CommitBackup_def)
  qed
qed

lemma DoFlushForAsync_view:
  assumes "one_queue True s"
  shows "one_queue True (DoFlushForAsync ser s) \<and> view True ser m (DoFlushForAsync ser s) = view True ser m s"
proof -
  obtain b q where t: "take_batches_async (metaStoreMaxFlushBatchSize s) (toFlushAsync s) fmempty 0 = (b, q)"
    by fastforce
  obtain n where n: "b = foldl (++\<^sub>f) fmempty (map fst (take n (toFlushAsync s)))" "q = drop n (toFlushAsync s)"
    using take_batches_async_spec [OF t] by auto
  have split: "map fst (toFlushAsync s) = map fst (take n (toFlushAsync s)) @ map fst q"
    by (simp add: n(2) flip: map_append)
  have c: "clean_keys (enableSyncSysFunc s) (fset (fmdom b))"
    unfolding n(1) by (rule clean_foldl) (use assms in \<open>auto simp: one_queue_def batches_def split\<close>)
  have cq: "clean_keys (enableSyncSysFunc s) (fset (fmdom b'))" if "b' \<in> set (map fst q)" for b'
    using assms that by (auto simp: one_queue_def batches_def split)
  have v: "fold (overlay ser) (map fst (toFlushAsync s)) f = fold (overlay ser) (map fst q) (overlay ser b f)" for f
    by (simp add: split) (simp add: n(1) overlay_foldl)
  let ?t = "s\<lparr>toFlushAsync := q, inFlushingAsync := True\<rparr>"
  have u: "backed_up m (CommitBackup ser b [] ?t) = overlay ser b (backed_up m s)"
    using c CommitBackup_backed_up [of ?t b m ser "[]"] backed_up_cong [of ?t s m] by simp
  have w: "backed_up m (s\<lparr>toFlushAsync := q\<rparr>) = backed_up m s" by (rule backed_up_cong) simp
  show ?thesis
  proof (cases "toFlushAsync s = [] \<or> inFlushingAsync s")
    case True
    then show ?thesis using assms by (auto simp: DoFlushForAsync_def)
  next
    case False
    then show ?thesis
      using assms u v w cq
      by (cases "b = fmempty") (auto simp: DoFlushForAsync_def t Let_def one_queue_def batches_def view_def CommitBackup_def)
  qed
qed

lemma Flush_view:
  assumes "one_queue False s"
  shows "one_queue False (Flush ser s) \<and> view False ser m (Flush ser s) = view False ser m s"
proof -
  let ?t = "s\<lparr>toFlush := toFlush s @ [(toBackup s, toBackupSize s)], toBackup := fmempty,
                  toBackupSize := 0, toFlushPromises := toFlushPromises s @ [promises s], promises := []\<rparr>"
  have "one_queue False ?t \<and> view False ser m ?t = view False ser m s"
    using assms backed_up_cong [of ?t s m] by (auto simp: one_queue_def batches_def view_def)
  moreover have "one_queue False (post MDoFlush ?t) = one_queue False ?t \<and>
      view False ser m (post MDoFlush ?t) = view False ser m ?t"
    using backed_up_cong [of "post MDoFlush ?t" ?t m] by (simp add: one_queue_def batches_def view_def post_def)
  ultimately show ?thesis using assms DoFlush_view [of ?t ser m] by (simp add: Flush_def Let_def)
qed

lemma FlushAsync_view:
  assumes "one_queue True s"
  shows "one_queue True (FlushAsync ser s) \<and> view True ser m (FlushAsync ser s) = view True ser m s"
proof -
  let ?t = "s\<lparr>toFlushAsync := toFlushAsync s @ [(toBackupAsync s, toBackupAsyncSize s)],
                  toBackupAsync := fmempty, toBackupAsyncSize := 0\<rparr>"
  have "one_queue True ?t \<and> view True ser m ?t = view True ser m s"
    using assms backed_up_cong [of ?t s m] by (auto simp: one_queue_def batches_def view_def)
  moreover have "one_queue True (post MDoFlushForAsync ?t) = one_queue True ?t \<and>
      view True ser m (post MDoFlushForAsync ?t) = view True ser m ?t"
    using backed_up_cong [of "post MDoFlushForAsync ?t" ?t m]
    by (simp add: one_queue_def batches_def view_def post_def)
  ultimately show ?thesis using assms DoFlushForAsync_view [of ?t ser m] by (simp add: FlushAsync_def Let_def)
qed

text \<open>The flushes of the other queue do nothing.\<close>

lemma other_queue_idle:
  "one_queue True s \<Longrightarrow> Flush ser s = s" "one_queue True s \<Longrightarrow> DoFlush ser s = s"
  "one_queue False s \<Longrightarrow> FlushAsync ser s = s" "one_queue False s \<Longrightarrow> DoFlushForAsync ser s = s"
  by (simp_all add: one_queue_def Flush_def DoFlush_def FlushAsync_def DoFlushForAsync_def)

lemma flush_view:
  assumes "one_queue async s"
  shows "one_queue async (handle_msg ser msg s) \<and> view async ser m (handle_msg ser msg s) = view async ser m s"
  using assms Flush_view FlushAsync_view DoFlush_view DoFlushForAsync_view
  by (cases msg; cases async) (simp_all add: other_queue_idle)

lemma view_frame:
  assumes "toFlush t = toFlush s" "toBackup t = toBackup s" "toFlushAsync t = toFlushAsync s"
    "toBackupAsync t = toBackupAsync s" "b_sent t = b_sent s" "enableSyncSysFunc t = enableSyncSysFunc s"
  shows "one_queue async t = one_queue async s" "view async ser m t = view async ser m s"
  using assms backed_up_cong [of t s m] by (simp_all add: one_queue_def batches_def view_def)

section \<open>The effect of the requests\<close>

text \<open>The assignments a request makes, in their order.\<close>

fun assignments :: "backup_write \<Rightarrow> (string \<times> key_value option) list" where
  "assignments (WPut kv async) = [(kv_key kv, Some kv)]"
| "assignments (WDeletes kvs async) = (case kvs of None \<Rightarrow> [] | Some kvs \<Rightarrow> map (\<lambda>kv. (kv_key kv, None)) kvs)"
| "assignments (WTxn txn async) = map (\<lambda>p. (kv_key (fst p), Some (fst p))) (fst txn) @
     concat (map (\<lambda>kvs. case kvs of None \<Rightarrow> [] | Some kvs \<Rightarrow> map (\<lambda>kv. (kv_key kv, None)) kvs) (snd txn))"

fun is_async :: "backup_write \<Rightarrow> bool" where
  "is_async (WPut kv async) = async"
| "is_async (WDeletes kvs async) = async"
| "is_async (WTxn txn async) = async"

definition assign :: "(key_value \<Rightarrow> string) \<Rightarrow> (string \<times> key_value option) list \<Rightarrow> store \<Rightarrow> store" where
  "assign ser xs f = fold (\<lambda>(k, v) f. f(k := map_option ser v)) xs f"

lemma assign_simps [simp]:
  "assign ser [] f = f" "assign ser ((k, v) # xs) f = assign ser xs (f(k := map_option ser v))"
  "assign ser (xs @ ys) f = assign ser ys (assign ser xs f)"
  by (simp_all add: assign_def)

text \<open>\<open>step_to\<close>: a piece of work that keeps to one queue and makes the given assignments.\<close>

definition step_to ::
  "bool \<Rightarrow> (key_value \<Rightarrow> string) \<Rightarrow> (string \<times> key_value option) list \<Rightarrow> backup_state \<Rightarrow> backup_state \<Rightarrow> bool" where
  "step_to async ser xs s t \<longleftrightarrow> one_queue async t \<and> enableSyncSysFunc t = enableSyncSysFunc s \<and>
     (\<forall>m. view async ser m t = assign ser xs (view async ser m s))"

lemma step_to_trans: "step_to async ser xs s t \<Longrightarrow> step_to async ser ys t u \<Longrightarrow> step_to async ser (xs @ ys) s u"
  by (simp add: step_to_def)

lemma sync_flag [simp]:
  "enableSyncSysFunc (DoFlush ser s) = enableSyncSysFunc s" "enableSyncSysFunc (DoFlushForAsync ser s) = enableSyncSysFunc s"
  "enableSyncSysFunc (Flush ser s) = enableSyncSysFunc s" "enableSyncSysFunc (FlushAsync ser s) = enableSyncSysFunc s"
proof -
  show d: "enableSyncSysFunc (DoFlush ser s) = enableSyncSysFunc s"
    "enableSyncSysFunc (DoFlushForAsync ser s) = enableSyncSysFunc s" for s
    by (simp_all add: DoFlush_def DoFlushForAsync_def CommitBackup_def split_beta Let_def)
  show "enableSyncSysFunc (Flush ser s) = enableSyncSysFunc s" "enableSyncSysFunc (FlushAsync ser s) = enableSyncSysFunc s"
    by (simp_all add: Flush_def FlushAsync_def d post_def Let_def)
qed

lemma cur_update:
  assumes "one_queue async s" "clean_keys (enableSyncSysFunc s) {k}"
    "t = (if async then s\<lparr>toBackupAsync := fmupd k v (toBackupAsync s), toBackupAsyncSize := n\<rparr>
          else s\<lparr>toBackup := fmupd k v (toBackup s), toBackupSize := n\<rparr>)"
  shows "step_to async ser [(k, v)] s t"
proof -
  have "backed_up m t = backed_up m s" for m by (rule backed_up_cong) (simp add: assms(3))
  then show ?thesis
    using assms by (auto simp: step_to_def one_queue_def batches_def view_def overlay_fmupd clean_keys_def)
qed

lemma put_step:
  assumes "one_queue async s" "clean_keys (enableSyncSysFunc s) {kv_key kv}"
  shows "step_to async ser [(kv_key kv, Some kv)] s (WritePutInternal bsz ser kv async s)"
proof -
  let ?f = "if async then FlushAsync ser s else Flush ser s"
  have f: "step_to async ser [] s ?f"
    using assms(1) Flush_view FlushAsync_view by (cases async) (auto simp: step_to_def)
  have "step_to async ser [(kv_key kv, Some kv)] t (if async
        then t\<lparr>toBackupAsync := fmupd (kv_key kv) (Some kv) (toBackupAsync t), toBackupAsyncSize := toBackupAsyncSize t + bsz kv\<rparr>
        else t\<lparr>toBackup := fmupd (kv_key kv) (Some kv) (toBackup t), toBackupSize := toBackupSize t + bsz kv\<rparr>)"
    if "one_queue async t" "enableSyncSysFunc t = enableSyncSysFunc s" for t
    using cur_update [OF that(1), where k = "kv_key kv" and v = "Some kv"] assms(2) that(2) by (cases async) simp_all
  note g = this
  have h: "one_queue async ?f" "enableSyncSysFunc ?f = enableSyncSysFunc s" using f by (simp_all add: step_to_def)
  show ?thesis
    using g [OF assms(1) refl] step_to_trans [OF f g [OF h]]
    by (cases async) (simp_all add: WritePutInternal_def Let_def)
qed

lemma delete_step:
  "one_queue async s \<Longrightarrow> clean_keys (enableSyncSysFunc s) (kv_key ` set kvs) \<Longrightarrow>
   step_to async ser (map (\<lambda>kv. (kv_key kv, None)) kvs) s (fold (delete_one async) kvs s)"
proof (induction kvs arbitrary: s)
  case Nil
  then show ?case by (simp add: step_to_def)
next
  case (Cons kv kvs)
  have c: "clean_keys (enableSyncSysFunc s) {kv_key kv}" "clean_keys (enableSyncSysFunc s) (kv_key ` set kvs)"
    using Cons.prems(2) by (auto simp: clean_keys_def)
  have "delete_one async kv s = (if async
      then s\<lparr>toBackupAsync := fmupd (kv_key kv) None (toBackupAsync s),
             toBackupAsyncSize := (if async then toBackupAsyncSize s else toBackupSize s)\<rparr>
      else s\<lparr>toBackup := fmupd (kv_key kv) None (toBackup s),
             toBackupSize := (if async then toBackupAsyncSize s else toBackupSize s)\<rparr>)"
    by (simp add: delete_one_def)
  then have d: "step_to async ser [(kv_key kv, None)] s (delete_one async kv s)"
    by (rule cur_update [OF Cons.prems(1) c(1)])
  then have "step_to async ser (map (\<lambda>kv. (kv_key kv, None)) kvs) (delete_one async kv s)
      (fold (delete_one async) kvs (delete_one async kv s))"
    using Cons.IH c(2) by (simp add: step_to_def)
  from step_to_trans [OF d this] show ?case by simp
qed

lemma CheckFlush_step:
  assumes "one_queue async s" shows "step_to async ser [] s (snd (CheckFlush ser async s))"
proof (cases async)
  case True
  then show ?thesis using assms FlushAsync_view by (auto simp: CheckFlush_def step_to_def)
next
  case False
  let ?t = "s\<lparr>promises := promises s @ [b_next s], b_next := b_next s + 1\<rparr>"
  have "one_queue False ?t = one_queue False s" "\<And>m. view False ser m ?t = view False ser m s"
    "one_queue False (post MFlush ?t) = one_queue False s" "\<And>m. view False ser m (post MFlush ?t) = view False ser m s"
    by (rule view_frame; simp add: post_def)+
  then show ?thesis
    using assms False Flush_view [of ?t ser] by (simp add: CheckFlush_def step_to_def Let_def) (simp add: post_def)
qed

lemma txn_apply:
  "txn_put bsz ser async p (w, s) = (w + 1, WritePutInternal bsz ser (fst p) async s)"
  "txn_delete async None (w, s) = (w, s)"
  "txn_delete async (Some kvs) (w, s) = (w + length kvs, fold (delete_one async) kvs s)"
  by (simp_all add: txn_put_def txn_delete_def WriteDeletesInternal_def)

lemma txn_step:
  assumes "one_queue async s"
    "clean_keys (enableSyncSysFunc s) (fst ` set (assignments (WTxn (ps, ds) async)))"
  shows "step_to async ser (assignments (WTxn (ps, ds) async)) s
    (snd (fold (txn_delete async) ds (fold (txn_put bsz ser async) ps (w, s))))"
proof -
  have P: "step_to async ser (map (\<lambda>p. (kv_key (fst p), Some (fst p))) ps) s (snd (fold (txn_put bsz ser async) ps (w, s)))"
    if "one_queue async s" "clean_keys (enableSyncSysFunc s) ((\<lambda>p. kv_key (fst p)) ` set ps)" for s w
    using that
  proof (induction ps arbitrary: s w)
    case (Cons p ps)
    have c: "clean_keys (enableSyncSysFunc s) {kv_key (fst p)}"
      "clean_keys (enableSyncSysFunc s) ((\<lambda>p. kv_key (fst p)) ` set ps)"
      using Cons.prems(2) by (auto simp: clean_keys_def)
    note d = put_step [OF Cons.prems(1) c(1), of ser bsz]
    from d have "step_to async ser (map (\<lambda>p. (kv_key (fst p), Some (fst p))) ps)
        (WritePutInternal bsz ser (fst p) async s)
        (snd (fold (txn_put bsz ser async) ps (w + 1, WritePutInternal bsz ser (fst p) async s)))"
      using Cons.IH c(2) by (simp add: step_to_def)
    from step_to_trans [OF d this] show ?case by (simp add: txn_apply)
  qed (simp add: step_to_def)
  have D: "step_to async ser (concat (map (\<lambda>kvs. case kvs of None \<Rightarrow> [] | Some kvs \<Rightarrow> map (\<lambda>kv. (kv_key kv, None)) kvs) ds)) s
      (snd (fold (txn_delete async) ds (w, s)))"
    if "one_queue async s" "clean_keys (enableSyncSysFunc s) (fst ` set (concat (map (\<lambda>kvs. case kvs of None \<Rightarrow> []
      | Some kvs \<Rightarrow> map (\<lambda>kv. (kv_key kv, None :: key_value option)) kvs) ds)))" for s w
    using that
  proof (induction ds arbitrary: s w)
    case (Cons d ds)
    show ?case
    proof (cases d)
      case None
      then show ?thesis using Cons by (simp add: txn_apply)
    next
      case (Some kvs)
      have c: "clean_keys (enableSyncSysFunc s) (kv_key ` set kvs)"
        "clean_keys (enableSyncSysFunc s) (fst ` set (concat (map (\<lambda>kvs. case kvs of None \<Rightarrow> []
          | Some kvs \<Rightarrow> map (\<lambda>kv. (kv_key kv, None :: key_value option)) kvs) ds)))"
        using Cons.prems(2) Some by (auto simp: image_Un image_image simp del: set_concat)
      note e = delete_step [OF Cons.prems(1) c(1), of ser]
      then have "one_queue async (fold (delete_one async) kvs s)"
        "enableSyncSysFunc (fold (delete_one async) kvs s) = enableSyncSysFunc s" by (simp_all add: step_to_def)
      from step_to_trans [OF e Cons.IH [OF this(1), unfolded this(2), OF c(2)]] show ?thesis
        by (simp add: Some txn_apply)
    qed
  qed (simp add: step_to_def)
  obtain w1 s1 where f: "fold (txn_put bsz ser async) ps (w, s) = (w1, s1)" by fastforce
  have c: "clean_keys (enableSyncSysFunc s) ((\<lambda>p. kv_key (fst p)) ` set ps)"
    "clean_keys (enableSyncSysFunc s) (fst ` set (concat (map (\<lambda>kvs. case kvs of None \<Rightarrow> []
      | Some kvs \<Rightarrow> map (\<lambda>kv. (kv_key kv, None :: key_value option)) kvs) ds)))"
    using assms(2) by (auto simp: image_Un image_image simp del: set_concat)
  have p: "step_to async ser (map (\<lambda>p. (kv_key (fst p), Some (fst p))) ps) s s1"
    using P [OF assms(1) c(1), of w] f by simp
  then have "one_queue async s1" "enableSyncSysFunc s1 = enableSyncSysFunc s" by (simp_all add: step_to_def)
  from step_to_trans [OF p D [OF this(1), unfolded this(2), OF c(2)]] show ?thesis by (simp add: f)
qed

lemma request_step:
  assumes "one_queue (is_async w) s" "clean_keys (enableSyncSysFunc s) (fst ` set (assignments w))"
  shows "step_to (is_async w) ser (assignments w) s (snd (backup_request bsz ser w s))"
proof -
  have check: "step_to async ser xs s (snd (CheckFlush ser async t))" if "step_to async ser xs s t" for async xs t
    using step_to_trans [OF that CheckFlush_step] that by (simp add: step_to_def)
  show ?thesis
  proof (cases w)
    case (WPut kv async)
    then show ?thesis using check put_step [of async s kv ser bsz] assms by (simp add: WritePut_def)
  next
    case (WDeletes kvs async)
    then show ?thesis
      using check delete_step [of async s "the kvs" ser] check [of async "[]" s] assms
      by (cases kvs) (auto simp: WriteDeletes_def WriteDeletesInternal_def image_image step_to_def)
  next
    case (WTxn txn async)
    obtain ps ds where txn: "txn = (ps, ds)" by (cases txn)
    show ?thesis
      using check txn_step [of async s ps ds ser bsz 0] assms
      by (simp add: WTxn txn WriteTxn_def split_beta)
  qed
qed

section \<open>Histories\<close>

datatype backup_event = Request backup_write | Timer | Message | Answered nat status

fun backup_event_step ::
  "(key_value \<Rightarrow> nat) \<Rightarrow> (key_value \<Rightarrow> string) \<Rightarrow> backup_event \<Rightarrow> backup_state \<Rightarrow> backup_state" where
  "backup_event_step bsz ser (Request w) s = snd (backup_request bsz ser w s)"
| "backup_event_step bsz ser Timer s = TriggerAsyncBackup ser s"
| "backup_event_step bsz ser Message s = next_message ser s"
| "backup_event_step bsz ser (Answered i st) s = answer i st s"

fun event_effect :: "(key_value \<Rightarrow> string) \<Rightarrow> backup_event \<Rightarrow> store \<Rightarrow> store" where
  "event_effect ser (Request w) f = assign ser (assignments w) f"
| "event_effect ser e f = f"

fun allowed :: "bool \<Rightarrow> bool \<Rightarrow> backup_event \<Rightarrow> bool" where
  "allowed async sync (Request w) \<longleftrightarrow> is_async w = async \<and> clean_keys sync (fst ` set (assignments w))"
| "allowed async sync e \<longleftrightarrow> True"

text \<open>The contract of a component that passes writes through: what it shows changes by the
  effect of each event, and by nothing else.\<close>

locale write_through =
  fixes ok :: "'s \<Rightarrow> bool" and step :: "'e \<Rightarrow> 's \<Rightarrow> 's" and shown :: "'s \<Rightarrow> 'v"
    and effect :: "'e \<Rightarrow> 'v \<Rightarrow> 'v" and permitted :: "'e \<Rightarrow> bool"
  assumes keeps: "ok s \<Longrightarrow> permitted e \<Longrightarrow> ok (step e s)"
    and shows_effect: "ok s \<Longrightarrow> permitted e \<Longrightarrow> shown (step e s) = effect e (shown s)"
begin

lemma history_shown:
  "ok s \<Longrightarrow> \<forall>e \<in> set es. permitted e \<Longrightarrow> ok (fold step es s) \<and> shown (fold step es s) = fold effect es (shown s)"
  by (induction es arbitrary: s) (simp_all add: keeps shows_effect)

end

lemma SetPromises_view:
  "one_queue async (SetPromises st ps s) = one_queue async s" "view async ser m (SetPromises st ps s) = view async ser m s"
  "enableSyncSysFunc (SetPromises st ps s) = enableSyncSysFunc s"
  by (rule view_frame; simp add: SetPromises_def post_def Let_def)+ (simp add: SetPromises_def post_def Let_def)

lemma event_step_view:
  assumes "one_queue async s" "allowed async (enableSyncSysFunc s) e"
  shows "one_queue async (backup_event_step bsz ser e s) \<and>
    enableSyncSysFunc (backup_event_step bsz ser e s) = enableSyncSysFunc s \<and>
    view async ser m (backup_event_step bsz ser e s) = event_effect ser e (view async ser m s)"
proof (cases e)
  case (Request w)
  then show ?thesis using request_step [of w s ser bsz] assms by (auto simp: step_to_def)
next
  case Timer
  have "one_queue async (FlushAsync ser s) \<and> view async ser m (FlushAsync ser s) = view async ser m s"
    using flush_view [OF assms(1), of ser MFlushAsync] by simp
  then show ?thesis using Timer by (simp add: TriggerAsyncBackup_def)
next
  case Message
  show ?thesis
  proof (cases "b_mail s")
    case Nil
    then show ?thesis using Message assms by (simp add: next_message_def)
  next
    case (Cons msg ms)
    let ?t = "s\<lparr>b_mail := ms\<rparr>"
    have t: "one_queue async ?t" "view async ser m ?t = view async ser m s"
      using assms(1) view_frame [of ?t s async] by simp_all
    moreover have "enableSyncSysFunc (handle_msg ser msg ?t) = enableSyncSysFunc s" by (cases msg) simp_all
    ultimately show ?thesis
      using flush_view [OF t(1), of ser msg m] Message Cons by (simp add: next_message_def)
  qed
next
  case (Answered i st)
  let ?t = "s\<lparr>b_inflight := take i (b_inflight s) @ drop (Suc i) (b_inflight s)\<rparr>"
  have "one_queue async ?t = one_queue async s" "view async ser m ?t = view async ser m s"
    by (rule view_frame; simp)+
  then show ?thesis using assms(1) Answered by (simp add: answer_def SetPromises_view)
qed

interpretation backup_queue: write_through "\<lambda>s. one_queue async s \<and> enableSyncSysFunc s = sync"
  "backup_event_step bsz ser" "view async ser m" "event_effect ser" "allowed async sync"
  for async sync bsz ser m
  by unfold_locales (use event_step_view in blast)+



text \<open>
  Mixing the two kinds of writes can leave an old record in the backup. A key is put
  asynchronously and then synchronously, and the second put is confirmed; when the timer flushes
  the asynchronous queue, the backup goes back to the first record.
\<close>

theorem async_backup_overwrites_newer:
  "let es = [Request (WPut (demo_kv ''k'' ''old'') True), Request (WPut (demo_kv ''k'' ''new'') False),
         Message, Message, Answered 0 Status_OK, Message];
       s = fold (backup_event_step (\<lambda>kv. length (kv_value kv)) kv_value) es (BackupActor False 2 10);
       t = fold (backup_event_step (\<lambda>kv. length (kv_value kv)) kv_value) [Timer, Message] s
   in b_answers s = [(0, Status_OK)] \<and> persisted (\<lambda>k. None) s ''/metastore/kv/k'' = Some ''new'' \<and>
      persisted (\<lambda>k. None) t ''/metastore/kv/k'' = Some ''old''"
  by code_simp

end
