(* ===== verification/Std_Numbers.thy ===== *)
theory Std_Numbers
  imports FS_Prelude
begin

text \<open>
  Machine integers and their texts, as the C++ standard library has them: the range and the
  wrap-around of \<^verbatim>\<open>int64_t\<close>, \<^verbatim>\<open>std::to_string\<close> and \<^verbatim>\<open>std::stoll\<close>.
\<close>

section \<open>Numbers and texts\<close>

definition INT64_MAX :: int where "INT64_MAX = 2 ^ 63 - 1"

definition wrap64 :: "int \<Rightarrow> int" where
  "wrap64 x = (x + 2 ^ 63) mod 2 ^ 64 - 2 ^ 63"

definition digit :: "nat \<Rightarrow> char" where
  "digit n = char_of (48 + n)"

fun nat_text :: "nat \<Rightarrow> string" where
  "nat_text n = (if n < 10 then [digit n] else nat_text (n div 10) @ [digit (n mod 10)])"

declare nat_text.simps [simp del]

text \<open>\<^verbatim>\<open>std::to_string(int64_t)\<close>.\<close>

definition to_string :: "int \<Rightarrow> string" where
  "to_string x = (if x < 0 then CHR ''-'' # nat_text (nat (- x)) else nat_text (nat x))"

text \<open>\<^verbatim>\<open>std::stoll\<close>: leading white space, a sign, the longest run of digits; throws when there is no
  digit or the number is out of range.\<close>

definition is_digit :: "char \<Rightarrow> bool" where
  "is_digit c \<longleftrightarrow> 48 \<le> (of_char c :: nat) \<and> (of_char c :: nat) \<le> 57"

definition is_space :: "char \<Rightarrow> bool" where
  "is_space c \<longleftrightarrow> (of_char c :: nat) = 32 \<or> 9 \<le> (of_char c :: nat) \<and> (of_char c :: nat) \<le> 13"

definition digits_value :: "string \<Rightarrow> nat" where
  "digits_value ds = foldl (\<lambda>n c. n * 10 + (of_char c - 48)) 0 ds"

definition stoll :: "string \<Rightarrow> int option" where
  "stoll s =
     (let s = dropWhile is_space s;
          neg = (case s of c # _ \<Rightarrow> c = CHR ''-'' | [] \<Rightarrow> False);
          s = (case s of c # cs \<Rightarrow> if c = CHR ''-'' \<or> c = CHR ''+'' then cs else s | [] \<Rightarrow> []);
          ds = takeWhile is_digit s;
          v = (if neg then - int (digits_value ds) else int (digits_value ds))
      in if ds = [] \<or> v < - (2 ^ 63) \<or> v > INT64_MAX then None else Some v)"

end
