(* ===== verification/Lease_Service.thy ===== *)
theory Lease_Service
  imports Kv_Replication Std_Numbers
begin

text \<open>
  The lease service of the meta store
  (\<^verbatim>\<open>src/functionsystem/src/meta_store/server/src/lease_service_actor.cpp\<close>): leases with a time to
  live, the keys attached to them, and the periodic check that revokes expired leases.

  Times are milliseconds since the epoch, an argument \<open>now\<close> of the operations that read the
  clock. \<^verbatim>\<open>int64_t\<close> products and sums wrap around, as on the platforms the code is built for
  (\<open>wrap64\<close>). The payload of a request is what \<^verbatim>\<open>ParseFromString\<close> left in the request object; the
  code does not look at its result. \<^verbatim>\<open>leases_\<close> is an \<^verbatim>\<open>unordered_map\<close>; the model visits it in the
  order of the ids.
\<close>

definition MILLISECONDS_PRE_SECOND :: int where "MILLISECONDS_PRE_SECOND = 1000"

section \<open>State\<close>

definition META_STORE_BACKUP_LEASE_PREFIX :: string where
  "META_STORE_BACKUP_LEASE_PREFIX = ''/metastore/lease/''"

definition LEASE_WAIT_TIME_MS :: int where "LEASE_WAIT_TIME_MS = 500"

text \<open>\<^verbatim>\<open>messages::Lease\<close>\<close>

record lease =
  l_id :: int
  l_ttl :: int
  l_expiry :: int
  l_items :: "string list"

definition lease_default :: lease where
  "lease_default = \<lparr>l_id = 0, l_ttl = 0, l_expiry = 0, l_items = []\<rparr>"

record lease_request =
  lq_id :: int
  lq_ttl :: int

record lease_response =
  lr_id :: int
  lr_ttl :: int

definition lease_response_default :: lease_response where
  "lease_response_default = \<lparr>lr_id = 0, lr_ttl = 0\<rparr>"

datatype grpc_code = GRPC_OK | GRPC_OUT_OF_RANGE | GRPC_NOT_FOUND

text \<open>Messages of the lease service: to the key-value service, to the backup, to clients, to itself.\<close>

datatype lease_msg =
    KvOnRevoke "string fset"
  | BackupPutLease string lease
  | BackupDeleteLease string
  | BackupGetLeases string
  | BackupWatchLeases string int
  | GrantCallback aid string lease_response
  | RevokeCallback aid string
  | KeepAliveCallback aid string lease_response
  | Checkpoint
  | CheckpointAfter int

record lease_state =
  leases :: "(int, lease) fmap"
  l_running :: bool
  l_backup_ok :: bool
  l_needExplore :: bool
  l_curStatus :: string
  l_business :: "business option"
  l_index :: int
  l_healthy :: status
  l_outbox :: "lease_msg list"

definition l_emit :: "lease_msg \<Rightarrow> lease_state \<Rightarrow> lease_state" where
  "l_emit m s = s\<lparr>l_outbox := l_outbox s @ [m]\<rparr>"

text \<open>The counter for ids starts at the current time in seconds.\<close>

definition LeaseServiceActor :: "bool \<Rightarrow> bool \<Rightarrow> int \<Rightarrow> lease_state" where
  "LeaseServiceActor backup explore seconds =
     \<lparr>leases = fmempty, l_running = False, l_backup_ok = backup,
      l_needExplore = (if backup then explore else False), l_curStatus = [], l_business = None,
      l_index = seconds, l_healthy = Status_OK, l_outbox = []\<rparr>"

definition Lease_InitExplorer :: "lease_state \<Rightarrow> lease_state" where
  "Lease_InitExplorer s =
     (if l_needExplore s then s\<lparr>l_business := Some SlaveBusiness, l_curStatus := SLAVE_BUSINESS\<rparr>
      else s\<lparr>l_curStatus := MASTER_BUSINESS, l_business := Some MasterBusiness\<rparr>)"

section \<open>Expiry\<close>

definition out_of_range :: "int \<Rightarrow> int \<Rightarrow> bool" where
  "out_of_range ttl now \<longleftrightarrow> wrap64 (ttl * MILLISECONDS_PRE_SECOND) > INT64_MAX - now"

definition expiry_at :: "int \<Rightarrow> int \<Rightarrow> int" where
  "expiry_at ttl now = wrap64 (now + wrap64 (ttl * MILLISECONDS_PRE_SECOND))"

definition renew :: "int \<Rightarrow> lease \<Rightarrow> lease" where
  "renew now l = l\<lparr>l_expiry := (if out_of_range (l_ttl l) now then 0 else expiry_at (l_ttl l) now)\<rparr>"

definition UpdateLeaseExpire :: "int \<Rightarrow> lease_state \<Rightarrow> lease_state" where
  "UpdateLeaseExpire now s = s\<lparr>leases := fmmap (renew now) (leases s)\<rparr>"

definition revoke_messages :: "lease \<Rightarrow> lease_msg list" where
  "revoke_messages l = [KvOnRevoke (fset_of_list (l_items l)),
     BackupDeleteLease (META_STORE_BACKUP_LEASE_PREFIX @ to_string (l_id l))]"

definition checkpoint_one :: "int \<Rightarrow> int \<times> lease \<Rightarrow> lease_state \<Rightarrow> lease_state" where
  "checkpoint_one now = (\<lambda>(i, l) s.
     if l_expiry l \<ge> now then s
     else (fold l_emit (revoke_messages l) s)\<lparr>leases := fmdrop i (leases s)\<rparr>)"

definition CheckpointScheduledLeases :: "int \<Rightarrow> lease_state \<Rightarrow> lease_state" where
  "CheckpointScheduledLeases now s =
     (if \<not> l_running s then s
      else if l_curStatus s = SLAVE_BUSINESS then s
      else l_emit (CheckpointAfter LEASE_WAIT_TIME_MS)
             (fold (checkpoint_one now) (sorted_list_of_fmap (leases s)) s))"

section \<open>Start-up and leader changes\<close>

definition Lease_OnChange :: "int \<Rightarrow> business \<Rightarrow> lease_state \<Rightarrow> lease_state" where
  "Lease_OnChange now b s =
     (case b of
        MasterBusiness \<Rightarrow> CheckpointScheduledLeases now (UpdateLeaseExpire now s)
      | SlaveBusiness \<Rightarrow> s)"

definition Lease_UpdateLeaderInfo ::
  "int \<Rightarrow> string \<Rightarrow> string \<Rightarrow> lease_state \<Rightarrow> bool \<times> lease_state" where
  "Lease_UpdateLeaderInfo now selfUrl leaderUrl s =
     (if \<not> l_needExplore s then (True, s)
      else
        let newStatus = GetStatus selfUrl leaderUrl (l_curStatus s)
        in if newStatus = MASTER_BUSINESS
           then (True, Lease_OnChange now MasterBusiness
                   (s\<lparr>l_business := Some MasterBusiness, l_curStatus := newStatus\<rparr>))
           else if newStatus = SLAVE_BUSINESS
           then (True, Lease_OnChange now SlaveBusiness
                   (s\<lparr>l_business := Some SlaveBusiness, l_curStatus := newStatus\<rparr>))
           else (False, s))"

definition Lease_Start :: "lease_state \<Rightarrow> lease_state" where
  "Lease_Start s =
     (if \<not> l_backup_ok s then l_emit Checkpoint (s\<lparr>l_running := True\<rparr>)
      else l_emit (BackupGetLeases META_STORE_BACKUP_LEASE_PREFIX) s)"

definition Lease_Stop :: "lease_state \<Rightarrow> lease_state" where
  "Lease_Stop s = s\<lparr>l_running := False\<rparr>"

definition Lease_OnHealthyStatus :: "status \<Rightarrow> lease_state \<Rightarrow> lease_state" where
  "Lease_OnHealthyStatus st s = s\<lparr>l_healthy := st\<rparr>"

section \<open>The backup's leases\<close>

definition sync_lease :: "(string \<Rightarrow> lease option) \<Rightarrow> int \<Rightarrow> string \<Rightarrow> lease_state \<Rightarrow> lease_state" where
  "sync_lease parse now value s =
     (case parse value of
        None \<Rightarrow> s
      | Some l \<Rightarrow> s\<lparr>leases := fmupd (l_id l) (renew now l) (leases s)\<rparr>)"

definition Lease_Sync ::
  "(string \<Rightarrow> lease option) \<Rightarrow> int \<Rightarrow> get_response \<Rightarrow> lease_state \<Rightarrow> bool \<times> lease_state" where
  "Lease_Sync parse now resp s =
     (let s = fold (sync_lease parse now) (map snd (gr_kvs resp)) s;
          s = l_emit Checkpoint (s\<lparr>l_running := True\<rparr>);
          s = (if l_needExplore s
               then l_emit (BackupWatchLeases META_STORE_BACKUP_LEASE_PREFIX (gr_revision resp)) s
               else s)
      in (True, s))"

definition lease_event :: "(string \<Rightarrow> lease option) \<Rightarrow> int \<Rightarrow> watch_event \<Rightarrow> lease_state \<Rightarrow> lease_state" where
  "lease_event parse now event s =
     (case we_type event of
        EVENT_TYPE_PUT \<Rightarrow> sync_lease parse now (we_value event) s
      | EVENT_TYPE_DELETE \<Rightarrow>
          (case Option.bind (substr_from (length META_STORE_BACKUP_LEASE_PREFIX) (we_key event)) stoll of
             None \<Rightarrow> s
           | Some i \<Rightarrow> if fmlookup (leases s) i = None then s
               else s\<lparr>leases := fmdrop i (leases s)\<rparr>)
      | EVENT_TYPE_OTHER \<Rightarrow> s)"

definition HandleLeaseEvents ::
  "(string \<Rightarrow> lease option) \<Rightarrow> int \<Rightarrow> watch_event list \<Rightarrow> bool \<Rightarrow> lease_state \<Rightarrow> lease_state" where
  "HandleLeaseEvents parse now events synced s =
     (if l_curStatus s = MASTER_BUSINESS \<and> \<not> synced then s
      else fold (lease_event parse now) events s)"

definition lease_remote_keys :: "(string \<times> string) list \<Rightarrow> string list option" where
  "lease_remote_keys kvs =
     foldM (\<lambda>kv ks. map_option (\<lambda>k. ks @ [k])
       (substr_from (length META_STORE_BACKUP_LEASE_PREFIX) (fst kv))) kvs []"

definition LeaseSyncer ::
  "(lease \<Rightarrow> string) \<Rightarrow> (string \<Rightarrow> lease option) \<Rightarrow> int \<Rightarrow> get_response \<Rightarrow> lease_state \<Rightarrow>
     (status \<times> lease_state) option" where
  "LeaseSyncer ser parse now resp s =
     (if IsError (gr_status resp) then Some (gr_status resp, s)
      else if gr_kvs resp = [] then Some (Status_OK, s)
      else
        case lease_remote_keys (gr_kvs resp) of
          None \<Rightarrow> None
        | Some remoteKeys \<Rightarrow>
            let puts = map (\<lambda>(k, v). \<lparr>we_type = EVENT_TYPE_PUT, we_key = k, we_value = v\<rparr>)
                         (gr_kvs resp);
                dels = map (\<lambda>(i, l). \<lparr>we_type = EVENT_TYPE_DELETE,
                             we_key = META_STORE_BACKUP_LEASE_PREFIX @ to_string i, we_value = ser l\<rparr>)
                         (filter (\<lambda>(i, l). to_string i \<notin> set remoteKeys)
                            (sorted_list_of_fmap (leases s)))
            in Some (Status_OK, HandleLeaseEvents parse now (puts @ dels) True s))"

section \<open>Requests\<close>

definition Attach :: "string \<Rightarrow> int \<Rightarrow> lease_state \<Rightarrow> status \<times> lease_state" where
  "Attach item leaseID s =
     (case fmlookup (leases s) leaseID of
        None \<Rightarrow> (Status FAILED ''lease not found'', s)
      | Some l \<Rightarrow>
          (Status_OK, s\<lparr>leases := fmupd leaseID (l\<lparr>l_items := l_items l @ [item]\<rparr>) (leases s)\<rparr>))"

definition LeaseGrant ::
  "int \<Rightarrow> lease_request \<Rightarrow> lease_state \<Rightarrow> grpc_code \<times> lease_response \<times> lease_state" where
  "LeaseGrant now req s =
     (let i = (if lq_id req = 0 then l_index s else lq_id req);
          s = (if lq_id req = 0 then s\<lparr>l_index := wrap64 (l_index s + 1)\<rparr> else s);
          resp = \<lparr>lr_id = i, lr_ttl = lq_ttl req\<rparr>
      in if out_of_range (lq_ttl req) now then (GRPC_OUT_OF_RANGE, resp, s)
         else
           let l = \<lparr>l_id = i, l_ttl = lq_ttl req, l_expiry = expiry_at (lq_ttl req) now, l_items = []\<rparr>;
               s = l_emit (BackupPutLease (META_STORE_BACKUP_LEASE_PREFIX @ to_string i) l) s
           in (GRPC_OK, resp, s\<lparr>leases := fmupd i l (leases s)\<rparr>))"

definition LeaseRevoke :: "lease_request \<Rightarrow> lease_state \<Rightarrow> grpc_code \<times> lease_state" where
  "LeaseRevoke req s =
     (case fmlookup (leases s) (lq_id req) of
        None \<Rightarrow> (GRPC_NOT_FOUND, s)
      | Some l \<Rightarrow>
          let s = l_emit (KvOnRevoke (fset_of_list (l_items l))) s;
              s = l_emit (BackupDeleteLease (META_STORE_BACKUP_LEASE_PREFIX @ to_string (lq_id req))) s
          in (GRPC_OK, s\<lparr>leases := fmdrop (lq_id req) (leases s)\<rparr>))"

definition LeaseKeepAlive ::
  "int \<Rightarrow> lease_request \<Rightarrow> lease_state \<Rightarrow> grpc_code \<times> lease_response \<times> lease_state" where
  "LeaseKeepAlive now req s =
     (case fmlookup (leases s) (lq_id req) of
        None \<Rightarrow> (GRPC_OK, lease_response_default, s)
      | Some l \<Rightarrow>
          let resp = \<lparr>lr_id = lq_id req, lr_ttl = l_ttl l\<rparr>
          in if out_of_range (l_ttl l) now
             then (GRPC_OUT_OF_RANGE, resp,
                   s\<lparr>leases := fmupd (lq_id req) (l\<lparr>l_expiry := 0\<rparr>) (leases s)\<rparr>)
             else (GRPC_OK, resp,
                   s\<lparr>leases := fmupd (lq_id req) (l\<lparr>l_expiry := expiry_at (l_ttl l) now\<rparr>) (leases s)\<rparr>))"

text \<open>The three request handlers: nothing before the service runs, nothing on a follower; the
  reply carries no status.\<close>

definition serving :: "lease_state \<Rightarrow> bool" where
  "serving s \<longleftrightarrow> l_running s \<and> l_business s = Some MasterBusiness"

definition ReceiveGrant ::
  "int \<Rightarrow> aid \<Rightarrow> string \<Rightarrow> lease_request \<Rightarrow> lease_state \<Rightarrow> lease_state" where
  "ReceiveGrant now from reqid req s =
     (if \<not> serving s then s
      else let (code, resp, s) = LeaseGrant now req s in l_emit (GrantCallback from reqid resp) s)"

definition ReceiveRevoke :: "aid \<Rightarrow> string \<Rightarrow> lease_request \<Rightarrow> lease_state \<Rightarrow> lease_state" where
  "ReceiveRevoke from reqid req s =
     (if \<not> serving s then s
      else let (code, s) = LeaseRevoke req s in l_emit (RevokeCallback from reqid) s)"

definition ReceiveKeepAlive ::
  "int \<Rightarrow> aid \<Rightarrow> string \<Rightarrow> lease_request \<Rightarrow> lease_state \<Rightarrow> lease_state" where
  "ReceiveKeepAlive now from reqid req s =
     (if \<not> serving s then s
      else let (code, resp, s) = LeaseKeepAlive now req s
           in l_emit (KeepAliveCallback from reqid resp) s)"

end
