(* ===== verification/Lease_Correct.thy ===== *)
theory Lease_Correct
  imports Lease_Service Kv_Replica
begin

text \<open>
  Correctness of the lease service: ids survive their textual form, the periodic check revokes
  exactly the expired leases, a lease that is renewed in time survives, a comparison with the
  backup makes the leases equal to the backup's; and the two ways in which it goes wrong, an
  overflowing time to live and attached keys that the backup does not know.
\<close>

section \<open>Ids as text\<close>

lemma of_char_digit: "n < 10 \<Longrightarrow> (of_char (digit n) :: nat) = 48 + n"
  by (simp add: digit_def)

lemma is_digit_digit [simp]: "n < 10 \<Longrightarrow> is_digit (digit n)"
  by (simp add: is_digit_def of_char_digit)

lemma nat_text_digits: "\<forall>c \<in> set (nat_text n). is_digit c"
  by (induction n rule: nat_text.induct) (subst nat_text.simps, auto)

lemma nat_text_nonempty [simp]: "nat_text n \<noteq> []"
  by (subst nat_text.simps) auto

lemma digits_value_snoc: "digits_value (ds @ [c]) = digits_value ds * 10 + (of_char c - 48)"
  by (simp add: digits_value_def)

lemma digits_value_nat_text: "digits_value (nat_text n) = n"
proof (induction n rule: nat_text.induct)
  case (1 n)
  show ?case
  proof (cases "n < 10")
    case True
    then show ?thesis by (subst nat_text.simps) (simp add: digits_value_def of_char_digit)
  next
    case False
    then have "digits_value (nat_text (n div 10) @ [digit (n mod 10)]) = n div 10 * 10 + n mod 10"
      using 1 by (simp add: digits_value_snoc of_char_digit)
    also have "\<dots> = n" by simp
    finally show ?thesis using False by (subst nat_text.simps) simp
  qed
qed

lemma digit_not_special: "is_digit c \<Longrightarrow> \<not> is_space c \<and> c \<noteq> CHR ''-'' \<and> c \<noteq> CHR ''+''"
  by (auto simp: is_digit_def is_space_def)

lemma stoll_digits:
  assumes "ds \<noteq> []" "\<forall>c \<in> set ds. is_digit c"
  shows "stoll ds = (if int (digits_value ds) > INT64_MAX then None else Some (int (digits_value ds)))"
    and "stoll (CHR ''-'' # ds) =
      (if - int (digits_value ds) < - (2 ^ 63) then None else Some (- int (digits_value ds)))"
proof -
  obtain c cs where ds: "ds = c # cs" using assms(1) by (cases ds) auto
  have c: "\<not> is_space c" "c \<noteq> CHR ''-''" "c \<noteq> CHR ''+''" "is_digit c"
    using assms(2) digit_not_special by (auto simp: ds)
  have t: "takeWhile is_digit cs = cs" using assms(2) by (auto simp: ds takeWhile_eq_all_conv)
  have sp: "\<not> is_space (CHR ''-'')" by (simp add: is_space_def)
  show "stoll ds = (if int (digits_value ds) > INT64_MAX then None else Some (int (digits_value ds)))"
    using c by (simp add: stoll_def ds Let_def t)
  show "stoll (CHR ''-'' # ds) =
      (if - int (digits_value ds) < - (2 ^ 63) then None else Some (- int (digits_value ds)))"
    using c sp by (simp add: stoll_def ds Let_def t INT64_MAX_def)
qed

lemma stoll_to_string:
  assumes "- (2 ^ 63) \<le> i" "i \<le> INT64_MAX" shows "stoll (to_string i) = Some i"
proof (cases "i < 0")
  case True
  have "int (digits_value (nat_text (nat (- i)))) = - i"
    using True unfolding digits_value_nat_text by simp
  then show ?thesis
    unfolding to_string_def if_P [OF True] stoll_digits(2) [OF nat_text_nonempty nat_text_digits]
    using assms(1) by simp
next
  case False
  have v: "int (digits_value (nat_text (nat i))) = i" using False unfolding digits_value_nat_text by simp
  show ?thesis
    unfolding to_string_def if_not_P [OF False] stoll_digits(1) [OF nat_text_nonempty nat_text_digits] v
    using assms(2) by simp
qed

lemma to_string_inj:
  assumes "to_string i = to_string j" "- (2 ^ 63) \<le> i" "i \<le> INT64_MAX" "- (2 ^ 63) \<le> j" "j \<le> INT64_MAX"
  shows "i = j"
  using stoll_to_string [OF assms(2,3)] stoll_to_string [OF assms(4,5)] assms(1) by (metis option.inject)

section \<open>The periodic check\<close>

lemma l_emit_sels [simp]:
  "leases (l_emit m s) = leases s" "l_running (l_emit m s) = l_running s"
  "l_curStatus (l_emit m s) = l_curStatus s" "l_business (l_emit m s) = l_business s"
  "l_index (l_emit m s) = l_index s" "l_outbox (l_emit m s) = l_outbox s @ [m]"
  by (simp_all add: l_emit_def)

lemma fold_l_emit_sels [simp]:
  "leases (fold l_emit ms s) = leases s" "l_running (fold l_emit ms s) = l_running s"
  "l_curStatus (fold l_emit ms s) = l_curStatus s" "l_business (fold l_emit ms s) = l_business s"
  "l_index (fold l_emit ms s) = l_index s" "l_outbox (fold l_emit ms s) = l_outbox s @ ms"
  by (induction ms arbitrary: s) simp_all

lemma checkpoint_one_sels [simp]:
  "leases (checkpoint_one now x s) =
     (if l_expiry (snd x) < now then fmdrop (fst x) (leases s) else leases s)"
  "l_outbox (checkpoint_one now x s) =
     (if l_expiry (snd x) < now then l_outbox s @ revoke_messages (snd x) else l_outbox s)"
  "l_running (checkpoint_one now x s) = l_running s"
  "l_curStatus (checkpoint_one now x s) = l_curStatus s"
  "l_business (checkpoint_one now x s) = l_business s"
  "l_index (checkpoint_one now x s) = l_index s"
  by (auto simp: checkpoint_one_def split_beta)

lemma fold_checkpoint:
  "leases (fold (checkpoint_one now) xs s) =
     fmdrop_all (map fst (filter (\<lambda>(i, l). l_expiry l < now) xs)) (leases s)"
  "l_outbox (fold (checkpoint_one now) xs s) =
     l_outbox s @ concat (map (\<lambda>(i, l). if l_expiry l < now then revoke_messages l else []) xs)"
  "l_running (fold (checkpoint_one now) xs s) = l_running s"
  "l_curStatus (fold (checkpoint_one now) xs s) = l_curStatus s"
  "l_business (fold (checkpoint_one now) xs s) = l_business s"
  "l_index (fold (checkpoint_one now) xs s) = l_index s"
  by (induction xs arbitrary: s) (simp_all add: fmdrop_all_def split_beta)

definition expired :: "int \<Rightarrow> lease_state \<Rightarrow> (int \<times> lease) list" where
  "expired now s = filter (\<lambda>(i, l). l_expiry l < now) (sorted_list_of_fmap (leases s))"

lemma checkpoint_lookup:
  assumes "l_running s" "l_curStatus s \<noteq> SLAVE_BUSINESS"
  shows "fmlookup (leases (CheckpointScheduledLeases now s)) i =
    (case fmlookup (leases s) i of
       Some l \<Rightarrow> if l_expiry l < now then None else Some l | None \<Rightarrow> None)"
proof -
  have "fmlookup (fmdrop_all (map fst (filter (\<lambda>(i, l). l_expiry l < now)
      (sorted_list_of_fmap (leases s)))) (leases s)) i =
      (case fmlookup (leases s) i of
         Some l \<Rightarrow> if l_expiry l < now then None else Some l | None \<Rightarrow> None)"
    by (force split: option.split simp: image_iff)
  then show ?thesis using assms by (simp add: CheckpointScheduledLeases_def fold_checkpoint)
qed

text \<open>
  C14: The periodic check of a running master removes exactly the leases whose expiry has
  passed; for each it asks the key-value service to delete the attached keys and the backup to
  delete the lease, once; then it schedules the next check.
\<close>

theorem checkpoint_revokes_exactly_expired:
  assumes "l_running s" "l_curStatus s \<noteq> SLAVE_BUSINESS"
  shows "(\<forall>i. fmlookup (leases (CheckpointScheduledLeases now s)) i =
      (case fmlookup (leases s) i of
         Some l \<Rightarrow> if l_expiry l < now then None else Some l
       | None \<Rightarrow> None)) \<and>
    l_outbox (CheckpointScheduledLeases now s) = l_outbox s @
      concat (map (\<lambda>(i, l). revoke_messages l) (expired now s)) @ [CheckpointAfter LEASE_WAIT_TIME_MS]"
proof -
  have "concat (map (\<lambda>(i, l). if l_expiry l < now then revoke_messages l else []) xs) =
      concat (map (\<lambda>(i, l). revoke_messages l) (filter (\<lambda>(i, l). l_expiry l < now) xs))" for xs
    by (induction xs) auto
  then show ?thesis
    using assms checkpoint_lookup [OF assms]
    by (simp add: CheckpointScheduledLeases_def fold_checkpoint expired_def)
qed

lemma lease_state_master:
  "l_curStatus (Lease_InitExplorer (LeaseServiceActor backup False t)) = MASTER_BUSINESS"
  "l_business (Lease_InitExplorer (LeaseServiceActor backup False t)) = Some MasterBusiness"
  "leases (Lease_InitExplorer (LeaseServiceActor backup False t)) = fmempty"
  by (simp_all add: Lease_InitExplorer_def LeaseServiceActor_def)

text \<open>A master with two leases; \<open>5\<close> holds a key and expires at \<open>3000\<close>, \<open>6\<close> at \<open>10000\<close>.\<close>

definition demo_leases :: lease_state where
  "demo_leases =
     (let s = Lease_Start (Lease_InitExplorer (LeaseServiceActor False False 100));
          s = ReceiveGrant 1000 ''c'' ''g1'' \<lparr>lq_id = 5, lq_ttl = 2\<rparr> s;
          s = ReceiveGrant 1000 ''c'' ''g2'' \<lparr>lq_id = 6, lq_ttl = 9\<rparr> s
      in snd (Attach ''a'' 5 s))"

theorem checkpoint_revokes_exactly_expired_witness:
  "fmlookup (leases (CheckpointScheduledLeases 4000 demo_leases)) 5 = None \<and>
   fmlookup (leases (CheckpointScheduledLeases 4000 demo_leases)) 6 = fmlookup (leases demo_leases) 6 \<and>
   KvOnRevoke {|''a''|} \<in> set (l_outbox (CheckpointScheduledLeases 4000 demo_leases))"
proof -
  have h: "l_running demo_leases" "l_curStatus demo_leases \<noteq> SLAVE_BUSINESS" by code_simp+
  note c = checkpoint_revokes_exactly_expired [OF h, of 4000]
  have "fmlookup (leases demo_leases) 5 = Some \<lparr>l_id = 5, l_ttl = 2, l_expiry = 3000, l_items = [''a'']\<rparr>"
    "fmlookup (leases demo_leases) 6 = Some \<lparr>l_id = 6, l_ttl = 9, l_expiry = 10000, l_items = []\<rparr>"
    "map snd (expired 4000 demo_leases) = [\<lparr>l_id = 5, l_ttl = 2, l_expiry = 3000, l_items = [''a'']\<rparr>]"
    by code_simp+
  moreover from this(3) have "map (\<lambda>(i, l). revoke_messages l) (expired 4000 demo_leases) =
      [revoke_messages \<lparr>l_id = 5, l_ttl = 2, l_expiry = 3000, l_items = [''a'']\<rparr>]"
    by (auto simp: map_eq_Cons_conv)
  ultimately show ?thesis using c by (simp add: revoke_messages_def)
qed

section \<open>Time to live\<close>

lemma wrap64_id: "- (2 ^ 63) \<le> x \<Longrightarrow> x \<le> INT64_MAX \<Longrightarrow> wrap64 x = x"
  by (simp add: wrap64_def INT64_MAX_def)

text \<open>
  C15: For a time to live that fits, a grant creates a lease that expires exactly that many
  seconds later; for one that is too large but whose product with 1000 is representable, the
  grant fails and no lease is created.
\<close>

theorem grant_expiry:
  assumes "0 \<le> now" "0 \<le> lq_ttl req" "lq_ttl req * 1000 \<le> INT64_MAX"
    "LeaseGrant now req s = (code, resp, s')"
  shows "(lq_ttl req * 1000 \<le> INT64_MAX - now \<longrightarrow> code = GRPC_OK \<and>
      fmlookup (leases s') (lr_id resp) = Some \<lparr>l_id = lr_id resp, l_ttl = lq_ttl req,
        l_expiry = now + lq_ttl req * 1000, l_items = []\<rparr>) \<and>
    (lq_ttl req * 1000 > INT64_MAX - now \<longrightarrow> code = GRPC_OUT_OF_RANGE \<and> leases s' = leases s)"
proof -
  have p: "wrap64 (lq_ttl req * MILLISECONDS_PRE_SECOND) = lq_ttl req * 1000"
    using assms(2,3) by (simp add: MILLISECONDS_PRE_SECOND_def wrap64_id)
  then have r: "out_of_range (lq_ttl req) now \<longleftrightarrow> lq_ttl req * 1000 > INT64_MAX - now"
    by (simp add: out_of_range_def)
  have e: "lq_ttl req * 1000 \<le> INT64_MAX - now \<Longrightarrow> expiry_at (lq_ttl req) now = now + lq_ttl req * 1000"
    using assms(1,2) by (simp add: expiry_at_def p wrap64_id)
  show ?thesis
    using assms(4) r e by (auto simp: LeaseGrant_def Let_def split: if_splits)
qed

theorem grant_expiry_witness:
  "fmlookup (leases (snd (snd (LeaseGrant 1000 \<lparr>lq_id = 5, lq_ttl = 2\<rparr> demo_leases)))) 5 =
     Some \<lparr>l_id = 5, l_ttl = 2, l_expiry = 3000, l_items = []\<rparr>"
proof -
  obtain code resp s' where g: "LeaseGrant 1000 \<lparr>lq_id = 5, lq_ttl = 2\<rparr> demo_leases = (code, resp, s')"
    by (metis prod_cases3)
  have "lr_id resp = 5" using g by (auto simp: LeaseGrant_def Let_def split: if_splits)
  then show ?thesis
    using grant_expiry [of 1000 "\<lparr>lq_id = 5, lq_ttl = 2\<rparr>", OF _ _ _ g] g by (simp add: INT64_MAX_def)
qed

text \<open>
  The test for too large values itself overflows: there is a positive time to live that is
  accepted, and whose lease the next check revokes.
\<close>

theorem overflowing_ttl_accepted:
  "\<exists>ttl now s'. 0 < ttl \<and> 0 < now \<and> ttl \<le> INT64_MAX \<and>
     LeaseGrant now \<lparr>lq_id = 7, lq_ttl = ttl\<rparr> demo_leases = (GRPC_OK, \<lparr>lr_id = 7, lr_ttl = ttl\<rparr>, s') \<and>
     fmlookup (leases s') 7 \<noteq> None \<and> fmlookup (leases (CheckpointScheduledLeases now s')) 7 = None"
proof -
  let ?g = "LeaseGrant 1000 \<lparr>lq_id = 7, lq_ttl = 9223372036854776\<rparr> demo_leases"
  have "fst ?g = GRPC_OK" "fst (snd ?g) = \<lparr>lr_id = 7, lr_ttl = 9223372036854776\<rparr>"
    "fmlookup (leases (snd (snd ?g))) 7 \<noteq> None"
    "fmlookup (leases (CheckpointScheduledLeases 1000 (snd (snd ?g)))) 7 = None"
    by code_simp+
  then show ?thesis
    by (intro exI [of _ 9223372036854776] exI [of _ 1000] exI [of _ "snd (snd ?g)"])
      (simp add: INT64_MAX_def prod_eq_iff)
qed

section \<open>Renewed leases survive\<close>

datatype lease_op =
    OpGrant int aid string lease_request
  | OpRevoke aid string lease_request
  | OpKeepAlive int aid string lease_request
  | OpAttach string int
  | OpCheckpoint int

fun lease_exec :: "lease_op \<Rightarrow> lease_state \<Rightarrow> lease_state" where
  "lease_exec (OpGrant now from rid r) s = ReceiveGrant now from rid r s"
| "lease_exec (OpRevoke from rid r) s = ReceiveRevoke from rid r s"
| "lease_exec (OpKeepAlive now from rid r) s = ReceiveKeepAlive now from rid r s"
| "lease_exec (OpAttach item i) s = snd (Attach item i s)"
| "lease_exec (OpCheckpoint now) s = CheckpointScheduledLeases now s"

text \<open>Operations that spare a lease \<open>i\<close> up to time \<open>T\<close>: nobody grants or revokes this id, checks
  happen no later than \<open>T\<close>, and renewals reach \<open>T\<close>.\<close>

fun spares :: "int \<Rightarrow> int \<Rightarrow> int \<Rightarrow> lease_op \<Rightarrow> bool" where
  "spares i ttl T (OpGrant now from rid r) \<longleftrightarrow> lq_id r \<noteq> i"
| "spares i ttl T (OpRevoke from rid r) \<longleftrightarrow> lq_id r \<noteq> i"
| "spares i ttl T (OpKeepAlive now from rid r) \<longleftrightarrow>
     (lq_id r = i \<longrightarrow> 0 \<le> now \<and> 0 \<le> ttl \<and> T \<le> now + ttl * 1000 \<and> now + ttl * 1000 \<le> INT64_MAX)"
| "spares i ttl T (OpAttach item j) \<longleftrightarrow> True"
| "spares i ttl T (OpCheckpoint now) \<longleftrightarrow> now \<le> T"

definition alive :: "int \<Rightarrow> int \<Rightarrow> int \<Rightarrow> lease_state \<Rightarrow> bool" where
  "alive i ttl T s \<longleftrightarrow> (\<exists>l. fmlookup (leases s) i = Some l \<and> l_ttl l = ttl \<and> T \<le> l_expiry l)"

lemma renewal_in_range:
  assumes "0 \<le> now" "0 \<le> ttl" "now + ttl * 1000 \<le> INT64_MAX"
  shows "\<not> out_of_range ttl now" "expiry_at ttl now = now + ttl * 1000"
proof -
  have p: "wrap64 (ttl * MILLISECONDS_PRE_SECOND) = ttl * 1000"
    using assms by (simp add: MILLISECONDS_PRE_SECOND_def wrap64_id)
  show "\<not> out_of_range ttl now" using assms by (simp add: out_of_range_def p)
  show "expiry_at ttl now = now + ttl * 1000" using assms by (simp add: expiry_at_def p wrap64_id)
qed

lemma alive_step:
  assumes "alive i ttl T s" "spares i ttl T opr" "i < l_index s" "l_index s < INT64_MAX" "0 \<le> l_index s"
  shows "alive i ttl T (lease_exec opr s)"
proof -
  obtain l where l: "fmlookup (leases s) i = Some l" "l_ttl l = ttl" "T \<le> l_expiry l"
    using assms(1) by (auto simp: alive_def)
  show ?thesis
  proof (cases opr)
    case (OpCheckpoint now)
    then show ?thesis
      using l assms(2) checkpoint_lookup [of s now]
      by (cases "l_running s \<and> l_curStatus s \<noteq> SLAVE_BUSINESS")
        (auto simp: alive_def CheckpointScheduledLeases_def)
  qed (use l assms in \<open>auto simp: alive_def ReceiveGrant_def LeaseGrant_def ReceiveRevoke_def
      LeaseRevoke_def ReceiveKeepAlive_def LeaseKeepAlive_def renewal_in_range Attach_def Let_def
      split: option.splits\<close>)
qed

lemma lease_exec_index:
  assumes "0 \<le> l_index s" "l_index s < INT64_MAX"
  shows "l_index s \<le> l_index (lease_exec opr s) \<and> l_index (lease_exec opr s) \<le> l_index s + 1"
proof -
  have "wrap64 (l_index s + 1) = l_index s + 1" using assms by (simp add: wrap64_id INT64_MAX_def)
  then show ?thesis
    by (cases opr) (auto simp: ReceiveGrant_def LeaseGrant_def ReceiveRevoke_def LeaseRevoke_def
        ReceiveKeepAlive_def LeaseKeepAlive_def Attach_def CheckpointScheduledLeases_def fold_checkpoint
        Let_def split: option.splits)
qed

text \<open>
  C16: A lease that is renewed in time is not lost: through any sequence of grants, revocations
  and attachments of other leases, renewals that reach time \<open>T\<close>, and checks up to time \<open>T\<close>, the
  lease stays and does not expire before \<open>T\<close>.
\<close>

theorem renewed_lease_survives:
  assumes "alive i ttl T s" "list_all (spares i ttl T) ops" "i < l_index s" "0 \<le> l_index s"
    "l_index s + int (length ops) \<le> INT64_MAX"
  shows "alive i ttl T (fold lease_exec ops s)"
  using assms
proof (induction ops arbitrary: s)
  case (Cons opr ops)
  then have i: "l_index s \<le> l_index (lease_exec opr s)" "l_index (lease_exec opr s) \<le> l_index s + 1"
    using lease_exec_index [of s opr] by simp_all
  have "alive i ttl T (lease_exec opr s)" using Cons.prems by (intro alive_step) simp_all
  with Cons.IH [of "lease_exec opr s"] Cons.prems i show ?case by simp
qed simp

theorem renewed_lease_survives_witness:
  "alive 5 2 3500 (fold lease_exec
     [OpKeepAlive 2000 ''c'' ''k'' \<lparr>lq_id = 5, lq_ttl = 0\<rparr>, OpCheckpoint 3400, OpAttach ''b'' 5,
      OpGrant 3400 ''c'' ''g'' \<lparr>lq_id = 0, lq_ttl = 1\<rparr>] (lease_exec
        (OpKeepAlive 1500 ''c'' ''k'' \<lparr>lq_id = 5, lq_ttl = 0\<rparr>) demo_leases))"
proof (rule renewed_lease_survives)
  let ?s = "lease_exec (OpKeepAlive 1500 ''c'' ''k'' \<lparr>lq_id = 5, lq_ttl = 0\<rparr>) demo_leases"
  have "fmlookup (leases ?s) 5 = Some \<lparr>l_id = 5, l_ttl = 2, l_expiry = 3500, l_items = [''a'']\<rparr>"
    by code_simp
  then show "alive 5 2 3500 ?s" by (simp add: alive_def)
  have "l_index ?s = 100" by code_simp
  then show "5 < l_index ?s" "0 \<le> l_index ?s" "l_index ?s + int (length
     [OpKeepAlive 2000 ''c'' ''k'' \<lparr>lq_id = 5, lq_ttl = 0\<rparr>, OpCheckpoint 3400, OpAttach ''b'' 5,
      OpGrant 3400 ''c'' ''g'' \<lparr>lq_id = 0, lq_ttl = 1\<rparr>]) \<le> INT64_MAX"
    by (simp_all add: INT64_MAX_def)
qed (simp add: INT64_MAX_def)

section \<open>Comparison with the backup\<close>

lemma lease_remote_keys:
  "lease_remote_keys (map (\<lambda>l. (META_STORE_BACKUP_LEASE_PREFIX @ to_string (l_id l), ser l)) L) =
     Some (map (to_string \<circ> l_id) L)"
proof -
  have "foldM (\<lambda>kv ks. map_option (\<lambda>k. ks @ [k])
      (substr_from (length META_STORE_BACKUP_LEASE_PREFIX) (fst kv)))
      (map (\<lambda>l. (META_STORE_BACKUP_LEASE_PREFIX @ to_string (l_id l), ser l)) L) ks =
      Some (ks @ map (to_string \<circ> l_id) L)" for ks
    by (induction L arbitrary: ks) simp_all
  then show ?thesis by (simp add: lease_remote_keys_def)
qed

definition lease_put :: "(lease \<Rightarrow> string) \<Rightarrow> lease \<Rightarrow> watch_event" where
  "lease_put ser l = \<lparr>we_type = EVENT_TYPE_PUT,
     we_key = META_STORE_BACKUP_LEASE_PREFIX @ to_string (l_id l), we_value = ser l\<rparr>"

definition lease_del :: "(lease \<Rightarrow> string) \<Rightarrow> int \<times> lease \<Rightarrow> watch_event" where
  "lease_del ser x = \<lparr>we_type = EVENT_TYPE_DELETE,
     we_key = META_STORE_BACKUP_LEASE_PREFIX @ to_string (fst x), we_value = ser (snd x)\<rparr>"

lemma lease_event_eta:
  "lease_put ser = (\<lambda>l. \<lparr>we_type = EVENT_TYPE_PUT,
     we_key = META_STORE_BACKUP_LEASE_PREFIX @ to_string (l_id l), we_value = ser l\<rparr>)"
  "lease_del ser = (\<lambda>(i, l). \<lparr>we_type = EVENT_TYPE_DELETE,
     we_key = META_STORE_BACKUP_LEASE_PREFIX @ to_string i, we_value = ser l\<rparr>)"
  by (auto simp: lease_put_def lease_del_def)

lemma fold_lease_puts:
  assumes "\<forall>l \<in> set L. parse (ser l) = Some l"
  shows "leases (fold (lease_event parse now) (map (lease_put ser) L) s) =
    fold (\<lambda>l. fmupd (l_id l) (renew now l)) L (leases s)"
  using assms
  by (induction L arbitrary: s) (simp_all add: lease_event_def lease_put_def sync_lease_def)

lemma fold_lease_dels:
  assumes "\<forall>x \<in> set xs. - (2 ^ 63) \<le> fst x \<and> fst x \<le> INT64_MAX"
  shows "leases (fold (lease_event parse now) (map (lease_del ser) xs) s) =
    fmdrop_all (map fst xs) (leases s)"
  using assms
proof (induction xs arbitrary: s)
  case (Cons x xs)
  have "leases (lease_event parse now (lease_del ser x) s) = fmdrop (fst x) (leases s)"
    using Cons.prems by (auto simp: lease_event_def lease_del_def stoll_to_string intro: fmap_ext)
  with Cons show ?case by (simp add: fmdrop_all_def)
qed simp

lemma fold_fmupd_leases:
  "distinct (map l_id L) \<Longrightarrow> fmlookup (fold (\<lambda>l. fmupd (l_id l) (renew now l)) L m) i =
     (case map_of (map (\<lambda>l. (l_id l, renew now l)) L) i of Some l \<Rightarrow> Some l | None \<Rightarrow> fmlookup m i)"
proof (induction L arbitrary: m)
  case (Cons l L)
  have "map_of (map (\<lambda>l. (l_id l, renew now l)) L) (l_id l) = None"
    using Cons.prems by (force simp: map_of_eq_None_iff)
  with Cons show ?case by (auto split: option.split)
qed simp

text \<open>
  C17: A comparison with a listing of the backup that is not empty leaves exactly the leases of
  the listing, each renewed from now; ids travel through their textual form unharmed.
\<close>

theorem LeaseSyncer_makes_equal:
  assumes "IsOk (gr_status resp)" "L \<noteq> []" "distinct (map l_id L)"
    "gr_kvs resp = map (\<lambda>l. (META_STORE_BACKUP_LEASE_PREFIX @ to_string (l_id l), ser l)) L"
    "\<forall>l \<in> set L. parse (ser l) = Some l"
    "\<forall>i. (i \<in> l_id ` set L \<or> fmlookup (leases s) i \<noteq> None) \<longrightarrow> - (2 ^ 63) \<le> i \<and> i \<le> INT64_MAX"
  shows "\<exists>t. LeaseSyncer ser parse now resp s = Some (Status_OK, t) \<and>
    fmlookup (leases t) = map_of (map (\<lambda>l. (l_id l, renew now l)) L)"
proof -
  let ?old = "filter (\<lambda>(i, l). to_string i \<notin> set (map (to_string \<circ> l_id) L)) (sorted_list_of_fmap (leases s))"
  let ?evs = "map (lease_put ser) L @ map (lease_del ser) ?old"
  let ?t = "fold (lease_event parse now) ?evs s"
  have S: "LeaseSyncer ser parse now resp s = Some (Status_OK, ?t)"
    using assms(1,2) lease_remote_keys [of ser L]
    by (simp add: LeaseSyncer_def HandleLeaseEvents_def IsError_def assms(4) lease_event_eta comp_def)
  have range: "\<forall>x \<in> set ?old. - (2 ^ 63) \<le> fst x \<and> fst x \<le> INT64_MAX"
    using assms(6) by auto
  have old: "i \<in> fst ` set ?old \<longleftrightarrow> fmlookup (leases s) i \<noteq> None \<and> i \<notin> l_id ` set L" for i
  proof -
    have "i \<in> fst ` set ?old \<longleftrightarrow> fmlookup (leases s) i \<noteq> None \<and> to_string i \<notin> to_string ` l_id ` set L"
      by (auto simp: image_iff)
    moreover have "i \<in> l_id ` set L"
      if d: "fmlookup (leases s) i \<noteq> None" and m: "to_string i \<in> to_string ` l_id ` set L"
    proof -
      obtain j where j: "j \<in> l_id ` set L" "to_string i = to_string j" using m by blast
      have "i = j" by (rule to_string_inj [OF j(2)]) (use assms(6) d j(1) in blast)+
      with j show ?thesis by simp
    qed
    ultimately show ?thesis by blast
  qed
  have eq: "leases ?t = fmdrop_all (map fst ?old)
      (fold (\<lambda>l. fmupd (l_id l) (renew now l)) L (leases s))"
    by (simp only: fold_append comp_apply fold_lease_dels [OF range] fold_lease_puts [OF assms(5)])
  have "fmlookup (leases ?t) i = map_of (map (\<lambda>l. (l_id l, renew now l)) L) i" for i
  proof (cases "i \<in> l_id ` set L")
    case True
    then have "map_of (map (\<lambda>l. (l_id l, renew now l)) L) i \<noteq> None"
      unfolding map_of_eq_None_iff by (simp add: image_image)
    moreover have "i \<notin> set (map fst ?old)" using True old [of i] by simp
    ultimately show ?thesis unfolding eq fmlookup_fmdrop_all
      by (auto simp: fold_fmupd_leases [OF assms(3)])
  next
    case False
    then have "map_of (map (\<lambda>l. (l_id l, renew now l)) L) i = None"
      unfolding map_of_eq_None_iff by (simp add: image_image)
    moreover have "i \<in> set (map fst ?old) \<or> fmlookup (leases s) i = None" using False old [of i] by auto
    ultimately show ?thesis unfolding eq fmlookup_fmdrop_all
      by (auto simp: fold_fmupd_leases [OF assms(3)])
  qed
  then show ?thesis using S by blast
qed

text \<open>The lease \<open>5\<close> of \<open>demo_leases\<close> as its grant wrote it to the backup.\<close>

definition demo_granted :: lease where
  "demo_granted = \<lparr>l_id = 5, l_ttl = 2, l_expiry = 3000, l_items = []\<rparr>"

definition demo_listing :: get_response where
  "demo_listing = \<lparr>gr_status = Status_OK, gr_revision = 1,
     gr_kvs = [(META_STORE_BACKUP_LEASE_PREFIX @ ''5'', ''x'')]\<rparr>"

theorem LeaseSyncer_makes_equal_witness:
  "\<exists>t. LeaseSyncer (\<lambda>_. ''x'') (\<lambda>_. Some demo_granted) 2000 demo_listing demo_leases = Some (Status_OK, t) \<and>
     fmlookup (leases t) = [5 \<mapsto> renew 2000 demo_granted]"
proof -
  have "- (2 ^ 63) \<le> i \<and> i \<le> INT64_MAX" if "fmlookup (leases demo_leases) i \<noteq> None" for i
  proof -
    have l: "sorted_list_of_fset (fmdom (leases demo_leases)) = [5, 6]" by code_simp
    have "i \<in> fset (fmdom (leases demo_leases))" using that by (auto simp: fmlookup_dom_iff)
    then have "i \<in> set (sorted_list_of_fset (fmdom (leases demo_leases)))" by simp
    then have "i = 5 \<or> i = 6" unfolding l by simp
    then show ?thesis by (auto simp: INT64_MAX_def)
  qed
  moreover have "to_string 5 = ''5''" by code_simp
  ultimately show ?thesis
    using LeaseSyncer_makes_equal [of demo_listing "[demo_granted]" "\<lambda>_. ''x''" "\<lambda>_. Some demo_granted"
        demo_leases 2000]
    by (simp add: demo_listing_def demo_granted_def INT64_MAX_def)
qed

text \<open>
  The comparison forgets the attached keys: the backup holds a lease as it was granted, so
  after the comparison the lease of a key that was attached since then has no keys, and the
  check that revokes it deletes none.
\<close>

theorem LeaseSyncer_loses_attached_keys:
  "BackupPutLease (META_STORE_BACKUP_LEASE_PREFIX @ ''5'') demo_granted \<in> set (l_outbox demo_leases) \<and>
   map_option l_items (fmlookup (leases demo_leases) 5) = Some [''a''] \<and>
   (\<exists>t. LeaseSyncer (\<lambda>_. ''x'') (\<lambda>_. Some demo_granted) 2000 demo_listing demo_leases = Some (Status_OK, t) \<and>
      map_option l_items (fmlookup (leases t) 5) = Some [] \<and>
      KvOnRevoke {||} \<in> set (l_outbox (CheckpointScheduledLeases 5000 t)) \<and>
      KvOnRevoke {|''a''|} \<notin> set (l_outbox (CheckpointScheduledLeases 5000 t)))"
proof -
  let ?r = "LeaseSyncer (\<lambda>_. ''x'') (\<lambda>_. Some demo_granted) 2000 demo_listing demo_leases"
  have "BackupPutLease (META_STORE_BACKUP_LEASE_PREFIX @ ''5'') demo_granted \<in> set (l_outbox demo_leases)"
    "map_option l_items (fmlookup (leases demo_leases) 5) = Some [''a'']"
    "?r \<noteq> None" "fst (the ?r) = Status_OK"
    "map_option l_items (fmlookup (leases (snd (the ?r))) 5) = Some []"
    "KvOnRevoke {||} \<in> set (l_outbox (CheckpointScheduledLeases 5000 (snd (the ?r))))"
    "KvOnRevoke {|''a''|} \<notin> set (l_outbox (CheckpointScheduledLeases 5000 (snd (the ?r))))"
    by code_simp+
  then show ?thesis by (auto simp: prod_eq_iff intro!: exI [of _ "snd (the ?r)"])
qed

end
