(* ===== verification/Watch_Correct.thy ===== *)
theory Watch_Correct
  imports Watch_Service "HOL-Library.Sublist"
begin

text \<open>
  Correctness of the watch service: the interval test is the prefix test, an event goes to exactly
  the watchers concerned, cancelling a watch removes that watch and no other, grouped events keep
  the newest event of each key, and no event waits without a push on its way.
\<close>

section \<open>Prefix ranges\<close>

definition xff :: char where "xff = char_of (255 :: nat)"

lemma of_char_less_256: "(of_char c :: nat) < 256"
  by (metis of_char_mod_256 mod_less_divisor zero_less_numeral)

lemma char_eq_xff: "c = xff \<longleftrightarrow> (of_char c :: nat) = 255"
proof -
  have "(of_char xff :: nat) = 255" by (simp add: xff_def)
  then show ?thesis by (metis of_char_eq_iff)
qed

lemma of_char_le_255: "(of_char c :: nat) \<le> 255"
  using of_char_less_256 [of c] by linarith

lemma char_le_xff: "\<not> xff < (c :: char)"
  using of_char_le_255 [of c] by (simp add: less_char_def xff_def not_less)

lemma plus_one_from_decomp:
  assumes "v = q @ c # replicate n xff @ w" "(of_char c :: nat) < 255"
  shows "plus_one_from (length q + 1 + n) v = q @ [char_of ((of_char c :: nat) + 1)]"
  using assms
proof (induction n arbitrary: w)
  case 0
  then show ?case by (simp add: nth_append list_update_append)
next
  case (Suc n)
  have "v ! (length q + 1 + n) = xff"
    using Suc.prems(1) by (simp add: nth_append nth_Cons' del: replicate_Suc)
  moreover have "plus_one_from (length q + 1 + n) v = q @ [char_of ((of_char c :: nat) + 1)]"
    using Suc.IH [of "xff # w"] Suc.prems by (simp add: replicate_append_same)
  ultimately show ?case by (simp add: xff_def)
qed

lemma StringPlusOne_decomp:
  assumes "(of_char c :: nat) < 255"
  shows "StringPlusOne (q @ c # replicate n xff) = q @ [char_of ((of_char c :: nat) + 1)]"
  using plus_one_from_decomp [OF _ assms, of "q @ c # replicate n xff" q n "[]"]
  by (simp add: StringPlusOne_def)

lemma ends_in_xff:
  assumes "\<exists>b \<in> set p. b \<noteq> xff"
  shows "\<exists>q c n. p = q @ c # replicate n xff \<and> c \<noteq> xff"
  using assms
proof (induction p rule: rev_induct)
  case (snoc b p)
  show ?case
  proof (cases "b = xff")
    case True
    then obtain q c n where "p = q @ c # replicate n xff" "c \<noteq> xff" using snoc by auto
    then have "p @ [b] = q @ c # replicate (Suc n) xff" using True by (simp add: replicate_append_same)
    with \<open>c \<noteq> xff\<close> show ?thesis by blast
  next
    case False
    then show ?thesis by (intro exI [of _ p] exI [of _ b] exI [of _ 0]) simp
  qed
qed simp

lemma replicate_xff_le: "replicate n xff \<le> ks \<longleftrightarrow> prefix (replicate n xff) ks"
proof (induction n arbitrary: ks)
  case (Suc n)
  then show ?case using char_le_xff by (cases ks) auto
qed simp

lemma char_between: "(c :: char) \<le> d \<Longrightarrow> d < char_of ((of_char c :: nat) + 1) \<Longrightarrow> of_char c < (255 :: nat) \<Longrightarrow> d = c"
  by (simp add: less_char_def less_eq_char_def) (metis le_antisym less_Suc_eq_le of_char_eq_iff)

lemma prefix_interval_decomp:
  assumes "(c :: char) < c'" "\<And>d. \<not> (c < d \<and> d < c')"
  shows "q @ c # replicate n xff \<le> k \<and> k < q @ [c'] \<longleftrightarrow> prefix (q @ c # replicate n xff) k"
proof (induction q arbitrary: k)
  case Nil
  show ?case
  proof (cases k)
    case (Cons d ks)
    have "c # replicate n xff \<le> k \<and> k < [c'] \<longleftrightarrow> c = d \<and> replicate n xff \<le> ks"
      using assms(1) assms(2) [of d] unfolding Cons by (simp only: Cons_le_Cons Cons_less_Cons) auto
    also have "\<dots> \<longleftrightarrow> prefix (c # replicate n xff) k" using Cons by (simp add: replicate_xff_le)
    finally show ?thesis by simp
  qed simp
next
  case (Cons b q)
  show ?case
  proof (cases k)
    case (Cons d ks)
    then show ?thesis using Cons.IH [of ks] less_asym [of b d]
      by (simp only: append_Cons Cons_le_Cons Cons_less_Cons Cons_prefix_Cons) blast
  qed simp
qed

lemma IsPrefix_prefix:
  assumes "\<exists>b \<in> set p. b \<noteq> xff"
  shows "IsPrefix k (RangeObserverCache p) \<longleftrightarrow> prefix p k"
proof -
  obtain q c n where p: "p = q @ c # replicate n xff" and c: "c \<noteq> xff" using ends_in_xff [OF assms] by blast
  have "(of_char c :: nat) < 255" using c of_char_le_255 [of c] char_eq_xff [of c] by linarith
  moreover from this have "c < char_of ((of_char c :: nat) + 1)" by (simp add: less_char_def)
  moreover have "\<not> (c < d \<and> d < char_of ((of_char c :: nat) + 1))" for d
    using char_between [of c d] calculation(1) by (metis less_imp_le less_irrefl)
  ultimately show ?thesis
    using prefix_interval_decomp [of c "char_of ((of_char c :: nat) + 1)" q n k]
    unfolding IsPrefix_def RangeObserverCache_def p by (simp only: StringPlusOne_decomp range_cache.simps) blast
qed

text \<open>
  C18: The interval from a prefix to its successor, computed byte by byte with carry, holds
  exactly the keys that start with the prefix, for every prefix with a byte below \<^verbatim>\<open>0xff\<close>.
\<close>

theorem interval_is_prefix:
  assumes "\<exists>b \<in> set p. b \<noteq> xff"
  shows "IsPrefix k (RangeObserverCache p) \<longleftrightarrow> prefix p k"
  by (rule IsPrefix_prefix [OF assms])

theorem interval_is_prefix_witness:
  "IsPrefix ''/sn/instance/7'' (RangeObserverCache ''/sn/instance/'') \<and>
   \<not> IsPrefix ''/sn/node/7'' (RangeObserverCache ''/sn/instance/'')"
proof -
  have "\<exists>b \<in> set ''/sn/instance/''. b \<noteq> xff" by (simp add: char_eq_xff)
  from interval_is_prefix [OF this] show ?thesis by simp
qed

section \<open>Registered watches\<close>

text \<open>A watch: its client and id, the key or prefix, whether it is a range, whether it wants the
  previous record.\<close>

type_synonym watch = "client_info \<times> string \<times> bool \<times> bool"

definition strict_watches :: "watch_state \<Rightarrow> watch set" where
  "strict_watches s = {(ci, k, rng, pv). \<not> rng \<and> (\<exists>obs. fmlookup (strictObserversByKey s) k = Some obs \<and>
     (\<exists>ob \<in> set obs. ci = ob_clientInfo ob \<and> pv = wc_prev_kv (ob_request ob)))}"

definition range_watches :: "watch_state \<Rightarrow> watch set" where
  "range_watches s = {(ci, p, rng, pv). rng \<and> (\<exists>c. fmlookup (rangeObserverCaches s) p = Some c \<and>
     ci \<in> set (if pv then rc_toWithPrevKv c else rc_to c))}"

definition watches :: "watch_state \<Rightarrow> watch set" where
  "watches s = strict_watches s \<union> range_watches s"

definition caches_ok :: "watch_state \<Rightarrow> bool" where
  "caches_ok s \<longleftrightarrow> (\<forall>p c. fmlookup (rangeObserverCaches s) p = Some c \<longrightarrow>
     rc_keyPrefix c = p \<and> rc_keyPrefixEnd c = StringPlusOne p)"

text \<open>A watch concerns a key: its own key, or the prefix of a range.\<close>

fun concerns :: "watch \<Rightarrow> string \<Rightarrow> bool" where
  "concerns (ci, k, rng, pv) key \<longleftrightarrow> (if rng then prefix k key else key = k)"

lemma IsPrefix_cache:
  assumes "caches_ok s" "fmlookup (rangeObserverCaches s) p = Some c"
  shows "IsPrefix k c \<longleftrightarrow> IsPrefix k (RangeObserverCache p)"
  using assms by (simp add: caches_ok_def IsPrefix_def RangeObserverCache_def)

lemma fold_range_response:
  "set (ue_to (fold (\<lambda>(p, c) r. if P c then UpdateResponseWithCache c r else r) xs r)) =
     set (ue_to r) \<union> (\<Union>x \<in> set xs. if P (snd x) then set (rc_to (snd x)) else {})"
  "set (ue_toWithPrevKv (fold (\<lambda>(p, c) r. if P c then UpdateResponseWithCache c r else r) xs r)) =
     set (ue_toWithPrevKv r) \<union> (\<Union>x \<in> set xs. if P (snd x) then set (rc_toWithPrevKv (snd x)) else {})"
  by (induction xs arbitrary: r) (simp_all add: UpdateResponseWithCache_def split_beta Un_assoc)

lemma UN_snd_if:
  "(\<Union>x \<in> S. if Q (snd x) then f (snd x) else {}) = {y. \<exists>k c. (k, c) \<in> S \<and> Q c \<and> y \<in> f c}"
  by (intro set_eqI iffI) (fastforce split: if_splits)+

lemma fold_strict_response:
  "set (ue_to (fold AddObserverToResponse obs r)) =
     set (ue_to r) \<union> {ob_clientInfo ob | ob. ob \<in> set obs \<and> \<not> wc_prev_kv (ob_request ob)}"
  "set (ue_toWithPrevKv (fold AddObserverToResponse obs r)) =
     set (ue_toWithPrevKv r) \<union> {ob_clientInfo ob | ob. ob \<in> set obs \<and> wc_prev_kv (ob_request ob)}"
  by (induction obs arbitrary: r) (auto simp: AddObserverToResponse_def split: if_splits)

lemma response_events:
  "ue_event (add_watchers kv s r) = ue_event r"
  "ue_eventWithPrevKv (add_watchers kv s r) = ue_eventWithPrevKv r"
proof -
  have 1: "ue_event (fold (\<lambda>(p, c) r. if P c then UpdateResponseWithCache c r else r) xs r) = ue_event r \<and>
      ue_eventWithPrevKv (fold (\<lambda>(p, c) r. if P c then UpdateResponseWithCache c r else r) xs r) =
      ue_eventWithPrevKv r" for P and xs :: "(string \<times> range_cache) list" and r
    by (induction xs arbitrary: r) (auto simp: UpdateResponseWithCache_def)
  have 2: "ue_event (fold AddObserverToResponse obs r) = ue_event r \<and>
      ue_eventWithPrevKv (fold AddObserverToResponse obs r) = ue_eventWithPrevKv r" for obs r
    by (induction obs arbitrary: r) (auto simp: AddObserverToResponse_def)
  show "ue_event (add_watchers kv s r) = ue_event r"
    "ue_eventWithPrevKv (add_watchers kv s r) = ue_eventWithPrevKv r"
    using 1 2 by (simp_all add: add_watchers_def CheckIfValidRangeCacheAndUpdateResponse_def Let_def
        split: option.split)
qed

text \<open>A prefix that the interval test handles.\<close>

definition ranges_wf :: "watch_state \<Rightarrow> bool" where
  "ranges_wf s \<longleftrightarrow> (\<forall>p c. fmlookup (rangeObserverCaches s) p = Some c \<longrightarrow> (\<exists>b \<in> set p. b \<noteq> xff))"

lemma range_watches_iff:
  "(ci, p, rng, False) \<in> range_watches s \<longleftrightarrow>
     rng \<and> (\<exists>c. fmlookup (rangeObserverCaches s) p = Some c \<and> ci \<in> set (rc_to c))"
  "(ci, p, rng, True) \<in> range_watches s \<longleftrightarrow>
     rng \<and> (\<exists>c. fmlookup (rangeObserverCaches s) p = Some c \<and> ci \<in> set (rc_toWithPrevKv c))"
  by (auto simp: range_watches_def)

lemma strict_watches_iff:
  "(ci, k, rng, pv) \<in> strict_watches s \<longleftrightarrow> \<not> rng \<and> (\<exists>obs. fmlookup (strictObserversByKey s) k = Some obs \<and>
     (\<exists>ob \<in> set obs. ci = ob_clientInfo ob \<and> pv = wc_prev_kv (ob_request ob)))"
  by (auto simp: strict_watches_def)

lemma add_watchers_sets:
  assumes "caches_ok s" "ranges_wf s" "ue_to r = []" "ue_toWithPrevKv r = []"
  shows "set (ue_to (add_watchers kv s r)) =
      {ci. \<exists>k rng. (ci, k, rng, False) \<in> watches s \<and> concerns (ci, k, rng, False) (kv_key kv)}"
    and "set (ue_toWithPrevKv (add_watchers kv s r)) =
      {ci. \<exists>k rng. (ci, k, rng, True) \<in> watches s \<and> concerns (ci, k, rng, True) (kv_key kv)}"
proof -
  have P: "IsPrefix (kv_key kv) c \<longleftrightarrow> prefix p (kv_key kv)"
    if "fmlookup (rangeObserverCaches s) p = Some c" for p c
    using IsPrefix_cache [OF assms(1) that] IsPrefix_prefix [of p] assms(2) that
    unfolding ranges_wf_def by blast
  let ?r = "CheckIfValidRangeCacheAndUpdateResponse kv s r"
  have R: "set (ue_to ?r) = {ci. \<exists>k. (ci, k, True, False) \<in> range_watches s \<and> prefix k (kv_key kv)}"
    "set (ue_toWithPrevKv ?r) = {ci. \<exists>k. (ci, k, True, True) \<in> range_watches s \<and> prefix k (kv_key kv)}"
    unfolding CheckIfValidRangeCacheAndUpdateResponse_def fold_range_response range_watches_iff
      UN_snd_if [where f = "\<lambda>c. set (rc_to c)"] UN_snd_if [where f = "\<lambda>c. set (rc_toWithPrevKv c)"]
      mem_sorted_list_of_fmap assms(3,4)
    using P by simp_all blast+
  have S: "concerns (ci, k, rng, pv) key \<longleftrightarrow> (if rng then prefix k key else key = k)" for ci k rng pv key
    by simp
  show "set (ue_to (add_watchers kv s r)) =
      {ci. \<exists>k rng. (ci, k, rng, False) \<in> watches s \<and> concerns (ci, k, rng, False) (kv_key kv)}"
    using R(1) unfolding S watches_def Un_iff strict_watches_iff
    by (auto simp: add_watchers_def Let_def fold_strict_response range_watches_iff split: option.split)
  show "set (ue_toWithPrevKv (add_watchers kv s r)) =
      {ci. \<exists>k rng. (ci, k, rng, True) \<in> watches s \<and> concerns (ci, k, rng, True) (kv_key kv)}"
    using R(2) unfolding S watches_def Un_iff strict_watches_iff
    by (auto simp: add_watchers_def Let_def fold_strict_response range_watches_iff split: option.split)
qed

text \<open>
  C19: A put notifies exactly the watches that concern its key: those of the key itself and those
  of a prefix of it. Watches that ask for the previous record get the event with it, the others
  the event without it; when no watch is concerned, nothing is sent.
\<close>

theorem put_notifies_exactly_concerned:
  assumes "caches_ok s" "ranges_wf s"
  shows "\<exists>r. w_outbox (OnPut kv prevKv s) =
      w_outbox s @ (if \<exists>w \<in> watches s. concerns w (kv_key kv) then [PushEvents r] else []) \<and>
    set (ue_to r) = {ci. \<exists>k rng. (ci, k, rng, False) \<in> watches s \<and> concerns (ci, k, rng, False) (kv_key kv)} \<and>
    set (ue_toWithPrevKv r) =
      {ci. \<exists>k rng. (ci, k, rng, True) \<in> watches s \<and> concerns (ci, k, rng, True) (kv_key kv)} \<and>
    ue_event r = \<lparr>ev_type = EVENT_TYPE_PUT, ev_kv = kv, ev_prev_kv = None\<rparr> \<and>
    ue_eventWithPrevKv r = \<lparr>ev_type = EVENT_TYPE_PUT, ev_kv = kv, ev_prev_kv = Some prevKv\<rparr>"
proof -
  let ?r = "add_watchers kv s (BuildUnsyncedEventsForPut kv prevKv)"
  have e: "ue_to (BuildUnsyncedEventsForPut kv prevKv) = []"
    "ue_toWithPrevKv (BuildUnsyncedEventsForPut kv prevKv) = []"
    by (simp_all add: BuildUnsyncedEventsForPut_def Let_def)
  note sets = add_watchers_sets [OF assms e, of kv]
  have "(\<exists>w \<in> watches s. concerns w (kv_key kv)) \<longleftrightarrow> set (ue_to ?r) \<noteq> {} \<or> set (ue_toWithPrevKv ?r) \<noteq> {}"
    unfolding sets Bex_def split_paired_Ex by (auto simp del: concerns.simps) (metis (full_types))+
  then have "w_outbox (OnPut kv prevKv s) =
      w_outbox s @ (if \<exists>w \<in> watches s. concerns w (kv_key kv) then [PushEvents ?r] else [])"
    by (auto simp: OnPut_def Watch_AddToUnsyncedEvents_def w_emit_def)
  then show ?thesis using sets
    by (intro exI [of _ ?r])
      (simp add: response_events, simp add: BuildUnsyncedEventsForPut_def SetPrevKv_def Let_def)
qed

theorem put_notifies_exactly_concerned_witness:
  "let s = Create ''c2'' ''u'' \<lparr>wc_key = ''/a'', wc_range_end = ''/b'', wc_prev_kv = True\<rparr>
         (Create ''c1'' ''u'' \<lparr>wc_key = ''/a/1'', wc_range_end = [], wc_prev_kv = False\<rparr> WatchServiceActor);
       kv = kv_default\<lparr>kv_key := ''/a/1'', kv_value := ''v''\<rparr>
   in \<exists>r. last (w_outbox (OnPut kv kv_default s)) = PushEvents r \<and>
     set (ue_to r) = {(''c1'', 0)} \<and> set (ue_toWithPrevKv r) = {(''c2'', 1)}"
proof -
  let ?s = "Create ''c2'' ''u'' \<lparr>wc_key = ''/a'', wc_range_end = ''/b'', wc_prev_kv = True\<rparr>
         (Create ''c1'' ''u'' \<lparr>wc_key = ''/a/1'', wc_range_end = [], wc_prev_kv = False\<rparr> WatchServiceActor)"
  let ?kv = "kv_default\<lparr>kv_key := ''/a/1'', kv_value := ''v''\<rparr>"
  have s: "strictObserversByKey ?s = fmupd ''/a/1'' [\<lparr>ob_clientInfo = (''c1'', 0),
        ob_request = \<lparr>wc_key = ''/a/1'', wc_range_end = [], wc_prev_kv = False\<rparr>\<rparr>] fmempty"
    "rangeObserverCaches ?s = fmupd ''/a'' \<lparr>rc_keyPrefix = ''/a'', rc_keyPrefixEnd = StringPlusOne ''/a'',
        rc_to = [], rc_toWithPrevKv = [(''c2'', 1)]\<rparr> fmempty"
    by code_simp+
  have w: "watches ?s = {((''c1'', 0), ''/a/1'', False, False), ((''c2'', 1), ''/a'', True, True)}"
    unfolding watches_def strict_watches_def range_watches_def s by (auto split: if_splits)
  have k: "kv_key ?kv = ''/a/1''" by simp
  have "caches_ok ?s" "ranges_wf ?s" unfolding caches_ok_def ranges_wf_def s by (auto simp: char_eq_xff)
  from put_notifies_exactly_concerned [OF this, of ?kv kv_default]
  have "\<exists>r. w_outbox (OnPut ?kv kv_default ?s) = w_outbox ?s @ [PushEvents r] \<and>
      set (ue_to r) = {(''c1'', 0)} \<and> set (ue_toWithPrevKv r) = {(''c2'', 1)}"
    unfolding w k by (rule ex_forward) (auto split: if_splits)
  then obtain r where r: "w_outbox (OnPut ?kv kv_default ?s) = w_outbox ?s @ [PushEvents r]"
    "set (ue_to r) = {(''c1'', 0)}" "set (ue_toWithPrevKv r) = {(''c2'', 1)}" by blast
  then show ?thesis unfolding Let_def by (intro exI [of _ r]) simp
qed

section \<open>Creating and cancelling\<close>

lemma find_index_Some: "find_index P xs = Some i \<Longrightarrow> i < length xs \<and> P (xs ! i)"
  by (induction xs arbitrary: i) (auto split: if_splits)

lemma find_index_None: "find_index P xs = None \<longleftrightarrow> (\<forall>x \<in> set xs. \<not> P x)"
  by (induction xs) auto

lemma mset_swap_remove:
  assumes "i < length xs" shows "mset (swap_remove i xs) = mset xs - {#xs ! i#}"
proof -
  have "xs \<noteq> []" using assms by auto
  then have "mset (swap_remove i xs) = mset (xs[i := last xs]) - {#last xs#}"
    using assms unfolding swap_remove_def
    by (cases xs rule: rev_cases) (auto simp: list_update_append nth_append)
  then show ?thesis using assms by (simp add: mset_update)
qed

lemma swap_remove_distinct:
  assumes "distinct xs" "i < length xs"
  shows "set (swap_remove i xs) = set xs - {xs ! i}" "distinct (swap_remove i xs)"
proof -
  have m: "mset (swap_remove i xs) = mset (remove1 (xs ! i) xs)"
    using mset_swap_remove [OF assms(2)] by simp
  show "set (swap_remove i xs) = set xs - {xs ! i}"
    using mset_eq_setD [OF m] assms(1) by (simp add: set_remove1_eq)
  show "distinct (swap_remove i xs)"
    using mset_eq_imp_distinct_iff [OF m] assms(1) by simp
qed

definition watch_inv :: "watch_state \<Rightarrow> bool" where
  "watch_inv s \<longleftrightarrow> caches_ok s \<and>
     (\<forall>k obs. fmlookup (strictObserversByKey s) k = Some obs \<longrightarrow>
        obs \<noteq> [] \<and> distinct obs \<and> (\<forall>ob \<in> set obs. wc_key (ob_request ob) = k)) \<and>
     (\<forall>i ob. fmlookup (strictObserversById s) i = Some ob \<longleftrightarrow> snd (ob_clientInfo ob) = i \<and>
        (\<exists>obs. fmlookup (strictObserversByKey s) (wc_key (ob_request ob)) = Some obs \<and> ob \<in> set obs)) \<and>
     (\<forall>p c. fmlookup (rangeObserverCaches s) p = Some c \<longrightarrow>
        distinct (rc_to c) \<and> distinct (rc_toWithPrevKv c)) \<and>
     (\<forall>w \<in> watches s. snd (fst w) < w_index s) \<and>
     (\<forall>w \<in> watches s. \<forall>w' \<in> watches s. snd (fst w) = snd (fst w') \<longrightarrow> w = w')"

lemma watch_invD:
  assumes "watch_inv s"
  shows "caches_ok s"
    and "fmlookup (strictObserversByKey s) k = Some obs \<Longrightarrow> obs \<noteq> [] \<and> distinct obs"
    and "fmlookup (strictObserversByKey s) k = Some obs \<Longrightarrow> ob \<in> set obs \<Longrightarrow> wc_key (ob_request ob) = k"
    and "fmlookup (strictObserversById s) i = Some ob \<longleftrightarrow> snd (ob_clientInfo ob) = i \<and>
        (\<exists>obs. fmlookup (strictObserversByKey s) (wc_key (ob_request ob)) = Some obs \<and> ob \<in> set obs)"
    and "fmlookup (rangeObserverCaches s) p = Some c \<Longrightarrow> distinct (rc_to c) \<and> distinct (rc_toWithPrevKv c)"
    and "w \<in> watches s \<Longrightarrow> snd (fst w) < w_index s"
    and "w \<in> watches s \<Longrightarrow> w' \<in> watches s \<Longrightarrow> snd (fst w) = snd (fst w') \<Longrightarrow> w = w'"
  using assms unfolding watch_inv_def by blast+

lemma watch_invI:
  assumes "caches_ok s"
    and "\<And>k obs. fmlookup (strictObserversByKey s) k = Some obs \<Longrightarrow>
        obs \<noteq> [] \<and> distinct obs \<and> (\<forall>ob \<in> set obs. wc_key (ob_request ob) = k)"
    and "\<And>i ob. fmlookup (strictObserversById s) i = Some ob \<longleftrightarrow> snd (ob_clientInfo ob) = i \<and>
        (\<exists>obs. fmlookup (strictObserversByKey s) (wc_key (ob_request ob)) = Some obs \<and> ob \<in> set obs)"
    and "\<And>p c. fmlookup (rangeObserverCaches s) p = Some c \<Longrightarrow> distinct (rc_to c) \<and> distinct (rc_toWithPrevKv c)"
    and "\<And>w. w \<in> watches s \<Longrightarrow> snd (fst w) < w_index s"
    and "\<And>w w'. w \<in> watches s \<Longrightarrow> w' \<in> watches s \<Longrightarrow> snd (fst w) = snd (fst w') \<Longrightarrow> w = w'"
  shows "watch_inv s"
  using assms unfolding watch_inv_def by blast

lemma watch_inv_init: "watch_inv WatchServiceActor"
  by (simp add: watch_inv_def WatchServiceActor_def caches_ok_def watches_def strict_watches_def
      range_watches_def)

lemma watch_cong:
  assumes "strictObserversById t = strictObserversById s" "strictObserversByKey t = strictObserversByKey s"
    "rangeObserverCaches t = rangeObserverCaches s"
  shows "watches t = watches s" "caches_ok t = caches_ok s"
    "w_index t = w_index s \<Longrightarrow> watch_inv t = watch_inv s"
  using assms
  by (simp_all add: watches_def strict_watches_def range_watches_def caches_ok_def watch_inv_def)

lemma Cancel_sels [simp]:
  "strictObserversById (Cancel from i msg s) = strictObserversById s"
  "strictObserversByKey (Cancel from i msg s) = strictObserversByKey s"
  "rangeObserverCaches (Cancel from i msg s) = rangeObserverCaches s"
  "w_index (Cancel from i msg s) = w_index s"
  by (simp_all add: Cancel_def w_emit_def Let_def split: option.split)

text \<open>The record of a new watch.\<close>

definition new_watch :: "aid \<Rightarrow> watch_create_request \<Rightarrow> watch_state \<Rightarrow> watch" where
  "new_watch from req s = ((from, w_index s), wc_key req, IsRangeObserver req, wc_prev_kv req)"

lemma CreateInternal_sels:
  "w_index (snd (CreateInternal from req s)) = w_index s + 1"
  "\<not> IsRangeObserver req \<Longrightarrow> rangeObserverCaches (snd (CreateInternal from req s)) = rangeObserverCaches s"
  "IsRangeObserver req \<Longrightarrow> strictObserversByKey (snd (CreateInternal from req s)) = strictObserversByKey s"
  "IsRangeObserver req \<Longrightarrow> strictObserversById (snd (CreateInternal from req s)) = strictObserversById s"
  by (simp_all add: CreateInternal_def w_emit_def Let_def)

lemma CreateInternal_strict:
  assumes "\<not> IsRangeObserver req"
    and "ob = \<lparr>ob_clientInfo = (from, w_index s), ob_request = req\<rparr>"
    and "obs = (case fmlookup (strictObserversByKey s) (wc_key req) of Some obs \<Rightarrow> obs | None \<Rightarrow> [])"
  shows "strictObserversByKey (snd (CreateInternal from req s)) =
      fmupd (wc_key req) (obs @ [ob]) (strictObserversByKey s)"
    and "strictObserversById (snd (CreateInternal from req s)) =
      (if fmlookup (strictObserversById s) (w_index s) = None
       then fmupd (w_index s) ob (strictObserversById s) else strictObserversById s)"
  using assms by (simp_all add: CreateInternal_def w_emit_def Let_def)

lemma CreateInternal_range:
  assumes "IsRangeObserver req"
  shows "rangeObserverCaches (snd (CreateInternal from req s)) =
    fmupd (wc_key req)
      (AddObserver \<lparr>ob_clientInfo = (from, w_index s), ob_request = req\<rparr>
        (case fmlookup (rangeObserverCaches s) (wc_key req) of
           Some c \<Rightarrow> c | None \<Rightarrow> RangeObserverCache (wc_key req)))
      (rangeObserverCaches s)"
  using assms by (simp add: CreateInternal_def w_emit_def Let_def)

lemma AddObserver_sels [simp]:
  "rc_keyPrefix (AddObserver ob c) = rc_keyPrefix c" "rc_keyPrefixEnd (AddObserver ob c) = rc_keyPrefixEnd c"
  "rc_to (AddObserver ob c) = rc_to c @ (if wc_prev_kv (ob_request ob) then [] else [ob_clientInfo ob])"
  "rc_toWithPrevKv (AddObserver ob c) =
     rc_toWithPrevKv c @ (if wc_prev_kv (ob_request ob) then [ob_clientInfo ob] else [])"
  by (simp_all add: AddObserver_def)

lemma RangeObserverCache_sels [simp]:
  "rc_keyPrefix (RangeObserverCache p) = p" "rc_keyPrefixEnd (RangeObserverCache p) = StringPlusOne p"
  "rc_to (RangeObserverCache p) = []" "rc_toWithPrevKv (RangeObserverCache p) = []"
  by (simp_all add: RangeObserverCache_def)

lemma watches_create:
  "watches (snd (CreateInternal from req s)) = insert (new_watch from req s) (watches s)"
proof (cases "IsRangeObserver req")
  case True
  have "(ci, p, rng, pv) \<in> range_watches (snd (CreateInternal from req s)) \<longleftrightarrow>
      (ci, p, rng, pv) = new_watch from req s \<or> (ci, p, rng, pv) \<in> range_watches s" for ci p rng pv
    using True
    by (cases "fmlookup (rangeObserverCaches s) (wc_key req)")
      (simp_all add: range_watches_def CreateInternal_range new_watch_def, auto)
  then have "w \<in> range_watches (snd (CreateInternal from req s)) \<longleftrightarrow>
      w \<in> insert (new_watch from req s) (range_watches s)" for w
    by (cases w rule: prod_cases4) (simp only: insert_iff)
  then have "range_watches (snd (CreateInternal from req s)) = insert (new_watch from req s) (range_watches s)"
    by (rule set_eqI)
  then show ?thesis
    using True by (simp add: watches_def strict_watches_def CreateInternal_sels)
next
  case False
  have "(ci, k, rng, pv) \<in> strict_watches (snd (CreateInternal from req s)) \<longleftrightarrow>
      (ci, k, rng, pv) = new_watch from req s \<or> (ci, k, rng, pv) \<in> strict_watches s" for ci k rng pv
    using False
    by (cases "fmlookup (strictObserversByKey s) (wc_key req)")
      (simp_all add: strict_watches_def CreateInternal_strict [OF False refl refl] new_watch_def, auto)
  then have "w \<in> strict_watches (snd (CreateInternal from req s)) \<longleftrightarrow>
      w \<in> insert (new_watch from req s) (strict_watches s)" for w
    by (cases w rule: prod_cases4) (simp only: insert_iff)
  then have "strict_watches (snd (CreateInternal from req s)) = insert (new_watch from req s) (strict_watches s)"
    by (rule set_eqI)
  then show ?thesis
    using False by (simp add: watches_def range_watches_def CreateInternal_sels)
qed

lemma strict_observer_watch:
  "fmlookup (strictObserversByKey s) k = Some obs \<Longrightarrow> ob \<in> set obs \<Longrightarrow>
     (ob_clientInfo ob, k, False, wc_prev_kv (ob_request ob)) \<in> watches s"
  by (auto simp: watches_def strict_watches_def)

lemma range_client_watch:
  "fmlookup (rangeObserverCaches s) p = Some c \<Longrightarrow> ci \<in> set (rc_to c) \<Longrightarrow> (ci, p, True, False) \<in> watches s"
  "fmlookup (rangeObserverCaches s) p = Some c \<Longrightarrow> ci \<in> set (rc_toWithPrevKv c) \<Longrightarrow>
     (ci, p, True, True) \<in> watches s"
  by (auto simp: watches_def range_watches_def)

lemma watch_id_fresh:
  assumes "watch_inv s"
  shows "fmlookup (strictObserversById s) (w_index s) = None"
    and "fmlookup (strictObserversByKey s) k = Some obs \<Longrightarrow> ob \<in> set obs \<Longrightarrow> snd (ob_clientInfo ob) < w_index s"
    and "fmlookup (rangeObserverCaches s) p = Some c \<Longrightarrow> (a, w_index s) \<notin> set (rc_to c) \<union> set (rc_toWithPrevKv c)"
proof -
  show old: "snd (ob_clientInfo ob) < w_index s"
    if "fmlookup (strictObserversByKey s) k = Some obs" "ob \<in> set obs" for k obs ob
    using watch_invD(6) [OF assms strict_observer_watch [OF that]] by simp
  show "fmlookup (strictObserversById s) (w_index s) = None"
    using watch_invD(4) [OF assms, of "w_index s"] old by (metis not_None_eq order_less_irrefl)
  show "(a, w_index s) \<notin> set (rc_to c) \<union> set (rc_toWithPrevKv c)"
    if "fmlookup (rangeObserverCaches s) p = Some c"
    using watch_invD(6) [OF assms range_client_watch(1) [OF that], of "(a, w_index s)"]
      watch_invD(6) [OF assms range_client_watch(2) [OF that], of "(a, w_index s)"] by auto
qed

lemma watch_inv_create:
  assumes "watch_inv s" shows "watch_inv (snd (CreateInternal from req s))"
proof -
  let ?t = "snd (CreateInternal from req s)"
  note I = watch_invD [OF assms] and F = watch_id_fresh [OF assms]
  have D: "\<forall>w \<in> watches ?t. snd (fst w) < w_index ?t"
    using I(6) by (force simp: watches_create CreateInternal_sels(1) new_watch_def)
  have E: "\<forall>w \<in> watches ?t. \<forall>w' \<in> watches ?t. snd (fst w) = snd (fst w') \<longrightarrow> w = w'"
  proof (intro ballI impI)
    fix w w' assume w: "w \<in> watches ?t" "w' \<in> watches ?t" "snd (fst w) = snd (fst w')"
    have n: "snd (fst (new_watch from req s)) = w_index s" by (simp add: new_watch_def)
    show "w = w'"
      using w I(6) [of w] I(6) [of w'] I(7) [of w w'] n unfolding watches_create by auto
  qed
  show ?thesis
  proof (cases "IsRangeObserver req")
    case True
    have C: "caches_ok ?t"
      using I(1) True by (auto simp: caches_ok_def CreateInternal_range split: option.splits if_splits)
    have R: "distinct (rc_to c) \<and> distinct (rc_toWithPrevKv c)"
      if "fmlookup (rangeObserverCaches ?t) p = Some c" for p c
      using that I(5) F(3) [of p] True
      by (auto simp: CreateInternal_range split: option.splits if_splits)
    show ?thesis
      by (rule watch_invI [OF C _ _ R]) (use I(2,3,4) D E True in \<open>auto simp: CreateInternal_sels(3,4)\<close>)
  next
    case False
    note upd = CreateInternal_strict [OF False refl refl, of "from" s]
    have A: "obs \<noteq> [] \<and> distinct obs \<and> (\<forall>ob \<in> set obs. wc_key (ob_request ob) = k)"
      if "fmlookup (strictObserversByKey ?t) k = Some obs" for k obs
    proof (cases "k = wc_key req")
      case True
      have "\<lparr>ob_clientInfo = (from, w_index s), ob_request = req\<rparr> \<notin> set os"
        if "fmlookup (strictObserversByKey s) k = Some os" for os
        using F(2) [OF that] by fastforce
      then show ?thesis
        using that True I(2,3) [of k] unfolding upd
        by (cases "fmlookup (strictObserversByKey s) k") auto
    qed (use that I(2,3) [of k] in \<open>auto simp: upd\<close>)
    have B: "fmlookup (strictObserversById ?t) i = Some ob \<longleftrightarrow> snd (ob_clientInfo ob) = i \<and>
        (\<exists>obs. fmlookup (strictObserversByKey ?t) (wc_key (ob_request ob)) = Some obs \<and> ob \<in> set obs)" for i ob
    proof -
      let ?new = "\<lparr>ob_clientInfo = (from, w_index s), ob_request = req\<rparr>"
      have mem: "(\<exists>obs. fmlookup (strictObserversByKey ?t) k = Some obs \<and> ob \<in> set obs) \<longleftrightarrow>
          k = wc_key req \<and> ob = ?new \<or> (\<exists>obs. fmlookup (strictObserversByKey s) k = Some obs \<and> ob \<in> set obs)" for k
        unfolding upd by (cases "fmlookup (strictObserversByKey s) (wc_key req)") auto
      have id: "fmlookup (strictObserversById ?t) i = Some ob \<longleftrightarrow>
          i = w_index s \<and> ob = ?new \<or> i \<noteq> w_index s \<and> fmlookup (strictObserversById s) i = Some ob"
        using F(1) unfolding upd by auto
      have "snd (ob_clientInfo ob) \<noteq> w_index s"
        if "\<exists>obs. fmlookup (strictObserversByKey s) k = Some obs \<and> ob \<in> set obs" for k
        using that F(2) [of k _ ob] by auto
      then show ?thesis unfolding mem id I(4) by (cases "ob = ?new") auto
    qed
    have C: "caches_ok ?t" using I(1) False by (simp add: caches_ok_def CreateInternal_sels)
    show ?thesis
      by (rule watch_invI [OF C A B]) (use I(5) D E False in \<open>auto simp: CreateInternal_sels(2)\<close>)
  qed
qed

lemma RemoveRange_absent:
  "i \<notin> snd ` set vec \<Longrightarrow> RemoveRangeObserverById i vec from = ([], vec)"
  using find_index_None [of "\<lambda>ci. snd ci = i" vec]
  by (force simp: RemoveRangeObserverById_def split: option.split)

lemma RemoveRange_aid:
  "aid_ok (fst (RemoveRangeObserverById i vec from)) \<Longrightarrow> i \<in> snd ` set vec"
  by (rule ccontr) (simp add: RemoveRange_absent aid_ok_def)

lemma RemoveRange_set:
  assumes "distinct vec" "inj_on snd (set vec)" "aid_ok from"
  shows "set (snd (RemoveRangeObserverById i vec from)) = set vec - {(from, i)} \<and>
    distinct (snd (RemoveRangeObserverById i vec from))"
proof (cases "i \<in> snd ` set vec")
  case False
  then have "(from, i) \<notin> set vec" by force
  then show ?thesis using assms(1) by (simp add: RemoveRange_absent [OF False])
next
  case True
  then obtain n where f: "find_index (\<lambda>ci. snd ci = i) vec = Some n"
    using find_index_None [of "\<lambda>ci. snd ci = i" vec] by (metis (mono_tags, lifting) imageE not_Some_eq)
  then have n: "n < length vec" "snd (vec ! n) = i" using find_index_Some [OF f] by auto
  show ?thesis
  proof (cases "fst (vec ! n) = from")
    case True
    then have "vec ! n = (from, i)" using n by (metis prod.collapse)
    then show ?thesis using swap_remove_distinct [OF assms(1) n(1)] assms(3) True
      by (simp add: RemoveRangeObserverById_def f)
  next
    case False
    then have "(from, i) \<notin> set vec"
      using n assms(2) by (metis fst_conv inj_onD nth_mem snd_conv)
    then show ?thesis using assms(1,3) False by (simp add: RemoveRangeObserverById_def f)
  qed
qed

definition remove_client :: "int \<Rightarrow> aid \<Rightarrow> range_cache \<Rightarrow> range_cache" where
  "remove_client i from c = c\<lparr>rc_to := snd (RemoveRangeObserverById i (rc_to c) from),
     rc_toWithPrevKv := snd (RemoveRangeObserverById i (rc_toWithPrevKv c) from)\<rparr>"

definition range_clients :: "(string \<times> range_cache) list \<Rightarrow> client_info list" where
  "range_clients xs = concat (map (\<lambda>(p, c). rc_to c @ rc_toWithPrevKv c) xs)"

lemma range_clients_Cons [simp]:
  "range_clients ((p, c) # xs) = rc_to c @ rc_toWithPrevKv c @ range_clients xs"
  by (simp add: range_clients_def)

lemma remove_client_absent:
  "i \<notin> snd ` set (rc_to c) \<Longrightarrow> i \<notin> snd ` set (rc_toWithPrevKv c) \<Longrightarrow> remove_client i from c = c"
  by (simp add: remove_client_def RemoveRange_absent)

lemma remove_in_ranges_lookup:
  assumes "distinct (map fst xs)" "\<forall>(p, c) \<in> set xs. fmlookup m p = Some c"
    "distinct (map snd (range_clients xs))"
  shows "fmlookup (snd (remove_in_ranges i from xs m)) q =
    (if q \<in> fst ` set xs then map_option (remove_client i from) (fmlookup m q) else fmlookup m q)"
  using assms
proof (induction i "from" xs m rule: remove_in_ranges.induct)
  case (2 i "from" p c xs m)
  have rest: "\<forall>(p', c') \<in> set xs. fmlookup (fmupd p d m) p' = Some c'" for d
    using 2(2,3) by (force simp: image_iff)
  have dis: "distinct (map fst xs)" "distinct (map snd (range_clients xs))" "p \<notin> fst ` set xs"
    "fmlookup m p = Some c"
    using 2(2-4) by auto
  have absent: "map_option (remove_client i from) (fmlookup m q) = fmlookup m q"
    if i: "i \<in> snd ` set (rc_to c) \<union> snd ` set (rc_toWithPrevKv c)" and q: "q \<in> fst ` set xs" for q
  proof -
    obtain d where d: "(q, d) \<in> set xs" using q by auto
    then have "set (rc_to d) \<union> set (rc_toWithPrevKv d) \<subseteq> set (range_clients xs)"
      by (force simp: range_clients_def)
    moreover have "i \<notin> snd ` set (range_clients xs)"
      using i 2(4) by auto
    ultimately have "i \<notin> snd ` set (rc_to d) \<and> i \<notin> snd ` set (rc_toWithPrevKv d)"
      by blast
    moreover have "fmlookup m q = Some d" using 2(3) d by auto
    ultimately show ?thesis by (simp add: remove_client_absent)
  qed
  let ?r1 = "RemoveRangeObserverById i (rc_to c) from"
    and ?r2 = "RemoveRangeObserverById i (rc_toWithPrevKv c) from"
  show ?case
  proof (cases "aid_ok (fst ?r1)")
    case True
    have "i \<notin> snd ` set (rc_toWithPrevKv c)"
      using RemoveRange_aid [OF True] 2(4) by auto
    then have "remove_client i from c = c\<lparr>rc_to := snd ?r1\<rparr>"
      by (simp add: remove_client_def RemoveRange_absent)
    then show ?thesis
      using True absent RemoveRange_aid [OF True] dis by (auto simp: split_beta Let_def)
  next
    case F1: False
    have rc: "remove_client i from c =
      c\<lparr>rc_to := snd ?r1, rc_toWithPrevKv := snd (RemoveRangeObserverById i (rc_toWithPrevKv c) from)\<rparr>"
      by (simp add: remove_client_def)
    show ?thesis
    proof (cases "aid_ok (fst ?r2)")
      case True
      then show ?thesis
        using F1 absent RemoveRange_aid [OF True] dis rc by (auto simp: split_beta Let_def)
    next
      case False
      then show ?thesis
        using F1 2(1) [OF refl surjective_pairing [symmetric] refl F1 refl
            surjective_pairing [symmetric] refl _ dis(1) rest dis(2)] dis rc
        by (cases "p = q") (auto simp: split_beta Let_def)
    qed
  qed
qed simp

lemma range_clients_mem:
  assumes "\<forall>(p, c) \<in> set xs. fmlookup (rangeObserverCaches s) p = Some c" "ci \<in> set (range_clients xs)"
  shows "\<exists>p pv. p \<in> fst ` set xs \<and> (ci, p, True, pv) \<in> watches s"
proof -
  obtain p c where pc: "(p, c) \<in> set xs" and "ci \<in> set (rc_to c) \<union> set (rc_toWithPrevKv c)"
    using assms(2) by (auto simp: range_clients_def)
  moreover have "fmlookup (rangeObserverCaches s) p = Some c" using assms(1) pc by auto
  ultimately show ?thesis
    using range_client_watch [of s p c ci] by (metis Un_iff fst_conv image_eqI)
qed

lemma range_clients_distinct:
  assumes "watch_inv s" "distinct (map fst xs)"
    "\<forall>(p, c) \<in> set xs. fmlookup (rangeObserverCaches s) p = Some c"
  shows "distinct (map snd (range_clients xs))"
  using assms(2,3)
proof (induction xs)
  case (Cons x xs)
  obtain p c where x: "x = (p, c)" by (cases x)
  note U = watch_invD(7) [OF assms(1)]
  have c: "fmlookup (rangeObserverCaches s) p = Some c" using Cons.prems(2) x by simp
  note W = range_client_watch [OF c]
  have d: "distinct (rc_to c)" "distinct (rc_toWithPrevKv c)" using watch_invD(5) [OF assms(1) c] by auto
  have i1: "inj_on snd (set (rc_to c))"
    by (rule inj_onI) (use U [OF W(1) W(1)] in auto)
  have i2: "inj_on snd (set (rc_toWithPrevKv c))"
    by (rule inj_onI) (use U [OF W(2) W(2)] in auto)
  have d12: "snd ` set (rc_to c) \<inter> snd ` set (rc_toWithPrevKv c) = {}"
    using U [OF W(1) W(2)] by auto
  have other: "snd ci \<noteq> snd ci'"
    if m: "ci' \<in> set (range_clients xs)" and n: "ci \<in> set (rc_to c) \<union> set (rc_toWithPrevKv c)" for ci ci'
  proof -
    obtain q pv where q: "q \<in> fst ` set xs" "(ci', q, True, pv) \<in> watches s"
      using range_clients_mem [OF _ m, of s] Cons.prems(2) by auto
    have "q \<noteq> p" using q(1) Cons.prems(1) x by auto
    moreover obtain pv' where "(ci, p, True, pv') \<in> watches s" using n W by blast
    ultimately show ?thesis using U [OF q(2)] by fastforce
  qed
  have "distinct (map snd (range_clients xs))" using Cons by auto
  moreover have "snd ` (set (rc_to c) \<union> set (rc_toWithPrevKv c)) \<inter> snd ` set (range_clients xs) = {}"
    using other by blast
  ultimately show ?case using d i1 i2 d12 unfolding x by (simp add: distinct_map image_Un Int_Un_distrib Int_Un_distrib2)
qed (simp add: range_clients_def)

lemma remove_range_lookup:
  assumes "watch_inv s"
  shows "fmlookup (snd (remove_in_ranges i from (sorted_list_of_fmap (rangeObserverCaches s))
      (rangeObserverCaches s))) q = map_option (remove_client i from) (fmlookup (rangeObserverCaches s) q)"
proof -
  let ?xs = "sorted_list_of_fmap (rangeObserverCaches s)"
  have "\<forall>(p, c) \<in> set ?xs. fmlookup (rangeObserverCaches s) p = Some c" by auto
  moreover have "distinct (map fst ?xs)" by simp
  moreover note range_clients_distinct [OF assms]
  moreover have "q \<notin> fst ` set ?xs \<Longrightarrow> fmlookup (rangeObserverCaches s) q = None"
    by (metis (no_types, lifting) fst_conv image_eqI mem_sorted_list_of_fmap not_Some_eq)
  ultimately show ?thesis using remove_in_ranges_lookup [of ?xs "rangeObserverCaches s" i "from" q]
    by (auto simp del: mem_sorted_list_of_fmap)
qed

lemma remove_client_sets:
  assumes "watch_inv s" "fmlookup (rangeObserverCaches s) p = Some c" "aid_ok from"
  shows "set (rc_to (remove_client i from c)) = set (rc_to c) - {(from, i)}"
    and "set (rc_toWithPrevKv (remove_client i from c)) = set (rc_toWithPrevKv c) - {(from, i)}"
    and "distinct (rc_to (remove_client i from c)) \<and> distinct (rc_toWithPrevKv (remove_client i from c))"
proof -
  note U = watch_invD(7) [OF assms(1)] and W = range_client_watch [OF assms(2)]
  have "inj_on snd (set (rc_to c))" by (rule inj_onI) (use U [OF W(1) W(1)] in auto)
  moreover have "inj_on snd (set (rc_toWithPrevKv c))" by (rule inj_onI) (use U [OF W(2) W(2)] in auto)
  ultimately show "set (rc_to (remove_client i from c)) = set (rc_to c) - {(from, i)}"
    "set (rc_toWithPrevKv (remove_client i from c)) = set (rc_toWithPrevKv c) - {(from, i)}"
    "distinct (rc_to (remove_client i from c)) \<and> distinct (rc_toWithPrevKv (remove_client i from c))"
    using RemoveRange_set assms(3) watch_invD(5) [OF assms(1,2)] by (simp_all add: remove_client_def)
qed

text \<open>The state after a watch of a prefix is removed.\<close>

lemma cancel_range:
  assumes "watch_inv s" "aid_ok from" "fmlookup (strictObserversById s) i = None"
    and t: "strictObserversById t = strictObserversById s" "strictObserversByKey t = strictObserversByKey s"
      "w_index t = w_index s"
      "\<And>q. fmlookup (rangeObserverCaches t) q = map_option (remove_client i from) (fmlookup (rangeObserverCaches s) q)"
  shows "watches t = watches s - {w. fst w = (from, i)} \<and> watch_inv t"
proof
  note I = watch_invD [OF assms(1)]
  have r: "(ci, p, rng, pv) \<in> range_watches t \<longleftrightarrow> (ci, p, rng, pv) \<in> range_watches s \<and> ci \<noteq> (from, i)" for ci p rng pv
    using remove_client_sets(1,2) [OF assms(1) _ assms(2)]
    by (cases pv; cases "fmlookup (rangeObserverCaches s) p") (auto simp: range_watches_iff t(4))
  have st: "(ci, k, rng, pv) \<in> strict_watches t \<longleftrightarrow> (ci, k, rng, pv) \<in> strict_watches s \<and> ci \<noteq> (from, i)" for ci k rng pv
  proof -
    have "snd (ob_clientInfo ob) \<noteq> i" if "fmlookup (strictObserversByKey s) k = Some obs" "ob \<in> set obs" for ob obs k
      using I(4) [of i ob] I(3) [OF that] that assms(3) by auto
    then show ?thesis by (force simp: strict_watches_iff t(2))
  qed
  show w: "watches t = watches s - {w. fst w = (from, i)}"
  proof (rule set_eqI)
    fix w show "w \<in> watches t \<longleftrightarrow> w \<in> watches s - {w. fst w = (from, i)}"
      using r st by (cases w rule: prod_cases4) (simp add: watches_def, blast)
  qed
  show "watch_inv t"
  proof (rule watch_invI)
    show "caches_ok t" using I(1) by (auto simp: caches_ok_def t(4) remove_client_def)
    show "distinct (rc_to c) \<and> distinct (rc_toWithPrevKv c)" if "fmlookup (rangeObserverCaches t) p = Some c" for p c
      using that remove_client_sets(3) [OF assms(1) _ assms(2)] by (auto simp: t(4))
  qed (use I(2-4,6,7) w in \<open>auto simp: t\<close>)
qed

lemma RemoveStrict_members:
  assumes "watch_inv s" "fmlookup (strictObserversById s) i = Some ob"
  shows "(\<exists>obs. fmlookup (strictObserversByKey (RemoveStrictObserverById (wc_key (ob_request ob)) i s)) k = Some obs \<and>
      x \<in> set obs) \<longleftrightarrow> x \<noteq> ob \<and> (\<exists>obs. fmlookup (strictObserversByKey s) k = Some obs \<and> x \<in> set obs)"
    and "fmlookup (strictObserversByKey (RemoveStrictObserverById (wc_key (ob_request ob)) i s)) k = Some obs \<Longrightarrow>
      obs \<noteq> [] \<and> distinct obs"
proof -
  note I = watch_invD [OF assms(1)]
  obtain os where os: "fmlookup (strictObserversByKey s) (wc_key (ob_request ob)) = Some os" "ob \<in> set os"
    and i: "snd (ob_clientInfo ob) = i"
    using I(4) [of i ob] assms(2) by auto
  obtain n where f: "find_index (\<lambda>ob. snd (ob_clientInfo ob) = i) os = Some n"
    using os(2) i find_index_None [of "\<lambda>ob. snd (ob_clientInfo ob) = i" os] by fastforce
  then have n: "n < length os" "snd (ob_clientInfo (os ! n)) = i"
    using find_index_Some [OF f] by auto
  have "fmlookup (strictObserversById s) i = Some (os ! n)"
    using I(4) [of i "os ! n"] n I(3) [OF os(1), of "os ! n"] os(1) by auto
  then have "os ! n = ob" using assms(2) by simp
  then have r: "set (swap_remove n os) = set os - {ob}" "distinct (swap_remove n os)"
    using swap_remove_distinct [OF _ n(1)] I(2) [OF os(1)] by auto
  have t: "strictObserversByKey (RemoveStrictObserverById (wc_key (ob_request ob)) i s) =
      (if swap_remove n os = [] then fmdrop (wc_key (ob_request ob)) (strictObserversByKey s)
       else fmupd (wc_key (ob_request ob)) (swap_remove n os) (strictObserversByKey s))"
    by (simp add: RemoveStrictObserverById_def os(1) f Let_def)
  have other: "ob \<notin> set obs" if "fmlookup (strictObserversByKey s) k = Some obs" "k \<noteq> wc_key (ob_request ob)" for k obs
    using I(3) [OF that(1)] that(2) by auto
  show "(\<exists>obs. fmlookup (strictObserversByKey (RemoveStrictObserverById (wc_key (ob_request ob)) i s)) k = Some obs \<and>
      x \<in> set obs) \<longleftrightarrow> x \<noteq> ob \<and> (\<exists>obs. fmlookup (strictObserversByKey s) k = Some obs \<and> x \<in> set obs)"
  proof (cases "k = wc_key (ob_request ob)")
    case True
    have "x \<in> set (swap_remove n os) \<longleftrightarrow> x \<in> set os \<and> x \<noteq> ob" by (simp add: r(1))
    then show ?thesis unfolding t True using os(1) by (cases "swap_remove n os = []") auto
  next
    case False
    then show ?thesis using other unfolding t by auto
  qed
  show "fmlookup (strictObserversByKey (RemoveStrictObserverById (wc_key (ob_request ob)) i s)) k = Some obs \<Longrightarrow>
      obs \<noteq> [] \<and> distinct obs"
    using r(2) I(2) [of k obs] unfolding t
    by (cases "k = wc_key (ob_request ob)"; cases "swap_remove n os = []") auto
qed

lemma RemoveStrict_sels [simp]:
  "strictObserversById (RemoveStrictObserverById k i s) = strictObserversById s"
  "rangeObserverCaches (RemoveStrictObserverById k i s) = rangeObserverCaches s"
  "w_index (RemoveStrictObserverById k i s) = w_index s"
  by (simp_all add: RemoveStrictObserverById_def Let_def split: option.split)

lemma strict_watches_ob:
  "(ci, k, rng, pv) \<in> strict_watches s \<longleftrightarrow> \<not> rng \<and> (\<exists>ob.
     (\<exists>obs. fmlookup (strictObserversByKey s) k = Some obs \<and> ob \<in> set obs) \<and>
     ci = ob_clientInfo ob \<and> pv = wc_prev_kv (ob_request ob))"
  by (auto simp: strict_watches_iff)

lemma cancel_strict:
  assumes "watch_inv s" "fmlookup (strictObserversById s) i = Some ob"
    and t: "t = (RemoveStrictObserverById (wc_key (ob_request ob)) i s)
      \<lparr>strictObserversById := fmdrop i (strictObserversById s)\<rparr>"
  shows "watches t = watches s - {w. fst w = ob_clientInfo ob} \<and> watch_inv t"
proof
  note I = watch_invD [OF assms(1)] and M = RemoveStrict_members [OF assms(1,2)]
  have i: "snd (ob_clientInfo ob) = i" and W: "(ob_clientInfo ob, wc_key (ob_request ob), False, wc_prev_kv (ob_request ob)) \<in> watches s"
    using I(4) [of i ob] assms(2) strict_observer_watch by auto
  have idU: "x = ob" if "fmlookup (strictObserversByKey s) k = Some obs" "x \<in> set obs" "snd (ob_clientInfo x) = i" for x k obs
    using I(4) [of i x] I(3) [OF that(1,2)] that assms(2) by auto
  have strict: "(ci, k, rng, pv) \<in> strict_watches t \<longleftrightarrow> (ci, k, rng, pv) \<in> strict_watches s \<and> ci \<noteq> ob_clientInfo ob"
    for ci k rng pv
  proof -
    have m: "strictObserversByKey t = strictObserversByKey (RemoveStrictObserverById (wc_key (ob_request ob)) i s)"
      by (simp add: t)
    have "\<And>x. (\<exists>obs. fmlookup (strictObserversByKey s) k = Some obs \<and> x \<in> set obs) \<Longrightarrow>
        ob_clientInfo x = ob_clientInfo ob \<longleftrightarrow> x = ob"
      using idU i by metis
    then have "(x \<noteq> ob \<and> (\<exists>obs. fmlookup (strictObserversByKey s) k = Some obs \<and> x \<in> set obs)) \<and>
        ci = ob_clientInfo x \<and> pv = wc_prev_kv (ob_request x) \<longleftrightarrow>
        ((\<exists>obs. fmlookup (strictObserversByKey s) k = Some obs \<and> x \<in> set obs) \<and>
        ci = ob_clientInfo x \<and> pv = wc_prev_kv (ob_request x)) \<and> ci \<noteq> ob_clientInfo ob" for x
      by metis
    then show ?thesis unfolding strict_watches_ob m M(1) by (simp only: ex_simps simp_thms) blast
  qed
  have range: "(ci, k, rng, pv) \<in> range_watches t \<longleftrightarrow> (ci, k, rng, pv) \<in> range_watches s \<and> ci \<noteq> ob_clientInfo ob"
    for ci k rng pv
  proof -
    have "(ci, k, rng, pv) \<in> range_watches s \<Longrightarrow> ci \<noteq> ob_clientInfo ob"
      using I(7) [OF W, of "(ci, k, rng, pv)"] by (auto simp: watches_def range_watches_def)
    moreover have "range_watches t = range_watches s" by (simp add: range_watches_def t)
    ultimately show ?thesis by blast
  qed
  show w: "watches t = watches s - {w. fst w = ob_clientInfo ob}"
  proof (rule set_eqI)
    fix w show "w \<in> watches t \<longleftrightarrow> w \<in> watches s - {w. fst w = ob_clientInfo ob}"
      using strict range by (cases w rule: prod_cases4) (simp add: watches_def, blast)
  qed
  show "watch_inv t"
  proof (rule watch_invI)
    fix k obs assume k: "fmlookup (strictObserversByKey t) k = Some obs"
    have "wc_key (ob_request x) = k" if "x \<in> set obs" for x
      using M(1) [of k x] k that I(3) unfolding t by auto
    then show "obs \<noteq> [] \<and> distinct obs \<and> (\<forall>ob \<in> set obs. wc_key (ob_request ob) = k)"
      using M(2) k unfolding t by auto
  next
    fix j x
    show "fmlookup (strictObserversById t) j = Some x \<longleftrightarrow> snd (ob_clientInfo x) = j \<and>
        (\<exists>obs. fmlookup (strictObserversByKey t) (wc_key (ob_request x)) = Some obs \<and> x \<in> set obs)"
      using M(1) [of "wc_key (ob_request x)" x] I(4) [of j x] i idU [of "wc_key (ob_request x)" _ x] assms(2)
      unfolding t by (cases "j = i") auto
  qed (use I(1,5,6,7) w in \<open>auto simp: t caches_ok_def\<close>)
qed

lemma ReceiveCancel_watches:
  assumes "watch_inv s" "aid_ok from"
  shows "watches (ReceiveCancel from i s) = watches s - {w. fst w = (from, i)} \<and> watch_inv (ReceiveCancel from i s)"
proof (cases "fmlookup (strictObserversById s) i")
  case None
  let ?t = "ReceiveCancel from i s"
  have r: "rangeObserverCaches ?t = snd (remove_in_ranges i from (sorted_list_of_fmap (rangeObserverCaches s))
      (rangeObserverCaches s))"
    by (simp add: ReceiveCancel_def RemoveObserverById_def None split_beta)
  show ?thesis
    by (rule cancel_range [OF assms None])
      (simp_all add: r remove_range_lookup [OF assms(1)],
       simp_all add: ReceiveCancel_def RemoveObserverById_def None split_beta)
next
  case (Some ob)
  note I = watch_invD [OF assms(1)]
  have i: "snd (ob_clientInfo ob) = i" and
    W: "(ob_clientInfo ob, wc_key (ob_request ob), False, wc_prev_kv (ob_request ob)) \<in> watches s"
    using I(4) [of i ob] Some strict_observer_watch by auto
  show ?thesis
  proof (cases "fst (ob_clientInfo ob) = from")
    case True
    then have "ob_clientInfo ob = (from, i)" using i by (metis prod.collapse)
    moreover have "ReceiveCancel from i s = Cancel from i ''by user''
        ((RemoveStrictObserverById (wc_key (ob_request ob)) i s)\<lparr>strictObserversById := fmdrop i (strictObserversById s)\<rparr>)"
      using True i by (simp add: ReceiveCancel_def RemoveObserverById_def Some Let_def)
    ultimately show ?thesis
      using cancel_strict [OF assms(1) Some refl] watch_cong(1,3) [OF Cancel_sels(1-3)]
      by (simp add: Cancel_sels)
  next
    case False
    then have "ReceiveCancel from i s = s"
      using assms(2) by (auto simp: ReceiveCancel_def RemoveObserverById_def Some)
    moreover have "w \<in> watches s \<Longrightarrow> fst w \<noteq> (from, i)" for w
      using I(7) [OF W, of w] False i by (metis fst_conv snd_conv)
    moreover from this have "watches s - {w. fst w = (from, i)} = watches s" by blast
    ultimately show ?thesis using assms(1) by simp
  qed
qed

text \<open>
  C20: Creating a watch registers exactly that watch under a fresh id. A cancel request removes
  exactly the watch of that id, when the requesting client owns it, and no other. Both keep the
  registry consistent.
\<close>

theorem create_and_cancel_exact:
  assumes "watch_inv s" "aid_ok from"
  shows "watches (Create from uuid req s) = insert (new_watch from req s) (watches s) \<and>
    (\<forall>w \<in> watches s. snd (fst w) \<noteq> snd (fst (new_watch from req s))) \<and> watch_inv (Create from uuid req s) \<and>
    watches (ReceiveCancel from i s) = watches s - {w. fst w = (from, i)} \<and> watch_inv (ReceiveCancel from i s)"
proof -
  have "Create from uuid req s = w_emit (SendCreated from uuid (fst (CreateInternal from req s)))
      (snd (CreateInternal from req s))"
    by (simp add: Create_def CreateWatch_def split_beta)
  then have "watches (Create from uuid req s) = watches (snd (CreateInternal from req s)) \<and>
      watch_inv (Create from uuid req s) = watch_inv (snd (CreateInternal from req s))"
    using watch_cong(1,3) [of "Create from uuid req s" "snd (CreateInternal from req s)"]
    by (simp add: w_emit_def)
  then show ?thesis
    using watches_create watch_inv_create [OF assms(1)] ReceiveCancel_watches [OF assms]
      watch_invD(6) [OF assms(1)] by (fastforce simp: new_watch_def)
qed

theorem create_and_cancel_exact_witness:
  "watches (ReceiveCancel ''c1'' 0 (Create ''c1'' ''u''
     \<lparr>wc_key = ''/a'', wc_range_end = [], wc_prev_kv = False\<rparr> WatchServiceActor)) = {}"
proof -
  let ?req = "\<lparr>wc_key = ''/a'', wc_range_end = [], wc_prev_kv = False\<rparr>"
  have a: "aid_ok ''c1''" by (simp add: aid_ok_def)
  note 1 = create_and_cancel_exact [OF watch_inv_init a, of "''u''" ?req]
  let ?s = "Create ''c1'' ''u'' ?req WatchServiceActor"
  have i: "watch_inv ?s" using 1 by blast
  have n: "watches WatchServiceActor = {}" "w_index WatchServiceActor = 0"
    by (auto simp: WatchServiceActor_def watches_def strict_watches_def range_watches_def)
  have w: "watches ?s = {((''c1'', 0), ''/a'', False, False)}"
    using 1 by (simp add: new_watch_def IsRangeObserver_def n)
  show ?thesis using create_and_cancel_exact [OF i a, of "''u''" ?req 0] w by auto
qed

text \<open>
  A client that watches one prefix twice and disconnects keeps one of the two watches:
  the loop over the prefixes removes at most one watch of the client from each list.
\<close>

theorem exited_leaves_range_watch:
  "let req = \<lparr>wc_key = ''/a'', wc_range_end = ''/b'', wc_prev_kv = False\<rparr>;
       s = Create ''c1'' ''u2'' req (Create ''c1'' ''u1'' req WatchServiceActor)
   in watches s = {((''c1'', 0), ''/a'', True, False), ((''c1'', 1), ''/a'', True, False)} \<and>
      watches (Exited ''c1'' s) = {((''c1'', 1), ''/a'', True, False)}"
proof -
  let ?req = "\<lparr>wc_key = ''/a'', wc_range_end = ''/b'', wc_prev_kv = False\<rparr>"
  let ?s = "Create ''c1'' ''u2'' ?req (Create ''c1'' ''u1'' ?req WatchServiceActor)"
  have s: "strictObserversByKey ?s = fmempty" "rangeObserverCaches ?s =
      fmupd ''/a'' \<lparr>rc_keyPrefix = ''/a'', rc_keyPrefixEnd = ''/b'', rc_to = [(''c1'', 0), (''c1'', 1)],
        rc_toWithPrevKv = []\<rparr> fmempty"
    by code_simp+
  have t: "strictObserversByKey (Exited ''c1'' ?s) = fmempty" "rangeObserverCaches (Exited ''c1'' ?s) =
      fmupd ''/a'' \<lparr>rc_keyPrefix = ''/a'', rc_keyPrefixEnd = ''/b'', rc_to = [(''c1'', 1)],
        rc_toWithPrevKv = []\<rparr> fmempty"
    by code_simp+
  show ?thesis
    unfolding Let_def watches_def strict_watches_def range_watches_def s t by (auto split: if_splits)
qed

end
