(* ===== verification/Kv_Accessor.thy ===== *)
theory Kv_Accessor
  imports Kv_Service
begin

text \<open>
  The front door of the key-value service
  (\<^verbatim>\<open>src/functionsystem/src/meta_store/server/src/kv_service_accessor_actor.cpp\<close>): it parses client
  messages, drops a request whose id is already being served, holds requests back until the
  recovery of the service is complete, and forgets an id when its request completes.

  A message arrives as what the parser makes of it, \<open>None\<close> for bytes that are not a request.
  \<open>deferred\<close> holds the calls registered on the recovery future, \<open>forwarded\<close> the calls sent to the
  key-value service that have not completed.
\<close>

section \<open>Model\<close>

record accessor_state =
  requestSet :: "string fset"
  recovering :: bool
  deferred :: "kv_request list"
  forwarded :: "kv_request list"

definition KvServiceAccessorActor :: accessor_state where
  "KvServiceAccessorActor = \<lparr>requestSet = {||}, recovering = True, deferred = [], forwarded = []\<rparr>"

fun request_id :: "kv_request \<Rightarrow> string" where
  "request_id (ReqPut from r) = pr_requestid r"
| "request_id (ReqDelete from r) = rq_requestid r"
| "request_id (ReqGet from r) = rq_requestid r"
| "request_id (ReqTxn from r) = rq_requestid r"
| "request_id (ReqWatch from r) = rq_requestid r"
| "request_id (ReqGetAndWatch from r) = rq_requestid r"

definition InsertRequestSet :: "string \<Rightarrow> accessor_state \<Rightarrow> bool \<times> accessor_state" where
  "InsertRequestSet i s = (i |\<notin>| requestSet s, s\<lparr>requestSet := finsert i (requestSet s)\<rparr>)"

definition RemoveRequestSet :: "string \<Rightarrow> accessor_state \<Rightarrow> accessor_state" where
  "RemoveRequestSet i s = s\<lparr>requestSet := requestSet s |-| {|i|}\<rparr>"

text \<open>The common part of the six handlers.\<close>

definition pass_on :: "kv_request \<Rightarrow> accessor_state \<Rightarrow> accessor_state" where
  "pass_on r s =
     (let (inserted, s) = InsertRequestSet (request_id r) s
      in if \<not> inserted then s
         else if recovering s then s\<lparr>deferred := deferred s @ [r]\<rparr>
         else s\<lparr>forwarded := forwarded s @ [r]\<rparr>)"

definition Accessor_AsyncWatch :: "aid \<Rightarrow> watch_create_request meta_request option \<Rightarrow> accessor_state \<Rightarrow> accessor_state" where
  "Accessor_AsyncWatch from msg s = (case msg of None \<Rightarrow> s | Some r \<Rightarrow> pass_on (ReqWatch from r) s)"

definition Accessor_AsyncGetAndWatch :: "aid \<Rightarrow> watch_create_request meta_request option \<Rightarrow> accessor_state \<Rightarrow> accessor_state" where
  "Accessor_AsyncGetAndWatch from msg s = (case msg of None \<Rightarrow> s | Some r \<Rightarrow> pass_on (ReqGetAndWatch from r) s)"

definition Accessor_AsyncPut :: "aid \<Rightarrow> put_request option \<Rightarrow> accessor_state \<Rightarrow> accessor_state" where
  "Accessor_AsyncPut from msg s = (case msg of None \<Rightarrow> s | Some r \<Rightarrow> pass_on (ReqPut from r) s)"

definition Accessor_AsyncDelete :: "aid \<Rightarrow> delete_range_request meta_request option \<Rightarrow> accessor_state \<Rightarrow> accessor_state" where
  "Accessor_AsyncDelete from msg s = (case msg of None \<Rightarrow> s | Some r \<Rightarrow> pass_on (ReqDelete from r) s)"

definition Accessor_AsyncGet :: "aid \<Rightarrow> range_request meta_request option \<Rightarrow> accessor_state \<Rightarrow> accessor_state" where
  "Accessor_AsyncGet from msg s = (case msg of None \<Rightarrow> s | Some r \<Rightarrow> pass_on (ReqGet from r) s)"

definition Accessor_AsyncTxn :: "aid \<Rightarrow> txn_request meta_request option \<Rightarrow> accessor_state \<Rightarrow> accessor_state" where
  "Accessor_AsyncTxn from msg s = (case msg of None \<Rightarrow> s | Some r \<Rightarrow> pass_on (ReqTxn from r) s)"

text \<open>The recovery completes: with success the calls registered on it run, in their order; a
  failure completes them unserved. The service completes the call at position \<open>i\<close>.\<close>

definition recovered :: "bool \<Rightarrow> accessor_state \<Rightarrow> accessor_state" where
  "recovered ok s =
     (if \<not> recovering s then s
      else if ok
      then s\<lparr>recovering := False, forwarded := forwarded s @ deferred s, deferred := []\<rparr>
      else fold (\<lambda>r. RemoveRequestSet (request_id r)) (deferred s) (s\<lparr>recovering := False, deferred := []\<rparr>))"

definition completed :: "nat \<Rightarrow> accessor_state \<Rightarrow> accessor_state" where
  "completed i s =
     (if i < length (forwarded s)
      then RemoveRequestSet (request_id (forwarded s ! i))
             (s\<lparr>forwarded := take i (forwarded s) @ drop (Suc i) (forwarded s)\<rparr>)
      else s)"

section \<open>Reachable states\<close>

inductive accessor_step :: "accessor_state \<Rightarrow> accessor_state \<Rightarrow> bool" where
  "accessor_step s (Accessor_AsyncWatch from mw s)"
| "accessor_step s (Accessor_AsyncGetAndWatch from mw s)"
| "accessor_step s (Accessor_AsyncPut from mp s)"
| "accessor_step s (Accessor_AsyncDelete from md s)"
| "accessor_step s (Accessor_AsyncGet from mg s)"
| "accessor_step s (Accessor_AsyncTxn from mt s)"
| "accessor_step s (recovered ok s)"
| "accessor_step s (completed i s)"

definition accessor_reachable :: "accessor_state \<Rightarrow> bool" where
  "accessor_reachable s \<longleftrightarrow> accessor_step\<^sup>*\<^sup>* KvServiceAccessorActor s"

definition open_ids :: "accessor_state \<Rightarrow> string list" where
  "open_ids s = map request_id (deferred s @ forwarded s)"

definition accessor_inv :: "accessor_state \<Rightarrow> bool" where
  "accessor_inv s \<longleftrightarrow> distinct (open_ids s) \<and> fset (requestSet s) = set (open_ids s) \<and>
     (if recovering s then forwarded s = [] else deferred s = [])"

lemma pass_on_inv: "accessor_inv s \<Longrightarrow> accessor_inv (pass_on r s)"
  by (auto simp: accessor_inv_def pass_on_def InsertRequestSet_def open_ids_def)

lemma fold_remove:
  "requestSet (fold (\<lambda>r. RemoveRequestSet (request_id r)) rs s) = requestSet s |-| fset_of_list (map request_id rs)"
  "deferred (fold (\<lambda>r. RemoveRequestSet (request_id r)) rs s) = deferred s"
  "forwarded (fold (\<lambda>r. RemoveRequestSet (request_id r)) rs s) = forwarded s"
  "recovering (fold (\<lambda>r. RemoveRequestSet (request_id r)) rs s) = recovering s"
  by (induction rs arbitrary: s) (auto simp: RemoveRequestSet_def)

lemma completed_inv: "accessor_inv s \<Longrightarrow> accessor_inv (completed i s)"
proof (cases "i < length (forwarded s)")
  case True
  assume inv: "accessor_inv s"
  obtain as r bs where f: "forwarded s = as @ r # bs" "forwarded s ! i = r"
      "take i (forwarded s) @ drop (Suc i) (forwarded s) = as @ bs"
    using id_take_nth_drop [OF True] by blast
  have c: "completed i s = s\<lparr>forwarded := as @ bs, requestSet := requestSet s |-| {|request_id r|}\<rparr>"
    using True f(2,3) by (simp add: completed_def RemoveRequestSet_def)
  show ?thesis
    using inv unfolding c accessor_inv_def open_ids_def by (auto simp: f(1) split: if_splits)
qed (simp add: completed_def)

lemma accessor_step_inv: "accessor_step s t \<Longrightarrow> accessor_inv s \<Longrightarrow> accessor_inv t"
proof (induction rule: accessor_step.cases)
  case (7 s ok)
  then show ?case
    by (auto simp: recovered_def accessor_inv_def open_ids_def fold_remove fset_of_list.rep_eq)
next
  case (8 s i)
  then show ?case by (simp add: completed_inv)
qed (simp_all add: Accessor_AsyncWatch_def Accessor_AsyncGetAndWatch_def Accessor_AsyncPut_def
    Accessor_AsyncDelete_def Accessor_AsyncGet_def Accessor_AsyncTxn_def pass_on_inv split: option.split)

lemma accessor_reachable_inv:
  assumes "accessor_reachable s" shows "accessor_inv s"
  using assms unfolding accessor_reachable_def
proof (induction rule: rtranclp_induct)
  case base
  show ?case by (simp add: accessor_inv_def KvServiceAccessorActor_def open_ids_def)
qed (rule accessor_step_inv)

text \<open>
  C26: The service never works on two requests with one id: in every reachable state the ids of
  the requests held back or being served are distinct and are exactly the ids remembered, no
  request reaches the service before the recovery is complete, and a further request with such
  an id changes nothing.
\<close>

theorem no_duplicate_in_service:
  assumes "accessor_reachable s"
  shows "distinct (open_ids s) \<and> fset (requestSet s) = set (open_ids s) \<and>
    (recovering s \<longrightarrow> forwarded s = []) \<and>
    (pr_requestid req \<in> set (open_ids s) \<longrightarrow> Accessor_AsyncPut from (Some req) s = s)"
proof -
  note inv = accessor_reachable_inv [OF assms, unfolded accessor_inv_def]
  have "pr_requestid req |\<in>| requestSet s \<Longrightarrow> s\<lparr>requestSet := finsert (pr_requestid req) (requestSet s)\<rparr> = s"
    by (simp add: finsert_absorb)
  then show ?thesis using inv
    by (auto simp: Accessor_AsyncPut_def pass_on_def InsertRequestSet_def)
qed

theorem no_duplicate_in_service_witness:
  "let r = \<lparr>pr_requestid = ''r1'', pr_key = ''k'', pr_value = ''v'', pr_lease = 0, pr_prevkv = False,
             pr_asyncbackup = False\<rparr>;
       s = recovered True (Accessor_AsyncPut ''c'' (Some r) KvServiceAccessorActor)
   in open_ids s = [''r1''] \<and> Accessor_AsyncPut ''c'' (Some r) s = s"
proof -
  let ?r = "\<lparr>pr_requestid = ''r1'', pr_key = ''k'', pr_value = ''v'', pr_lease = 0, pr_prevkv = False,
             pr_asyncbackup = False\<rparr>"
  let ?s = "recovered True (Accessor_AsyncPut ''c'' (Some ?r) KvServiceAccessorActor)"
  have "accessor_reachable ?s"
    unfolding accessor_reachable_def by (meson accessor_step.intros(3,7) rtranclp.rtrancl_into_rtrancl rtranclp.rtrancl_refl)
  moreover have "open_ids ?s = [''r1'']" by code_simp
  ultimately show ?thesis using no_duplicate_in_service [of ?s ?r "''c''"] by simp
qed

end
