(* ===== verification/Meta_Store.thy ===== *)
theory Meta_Store
  imports Kv_Invariant Lease_Correct Watch_Correct Backup_Correct Kv_Accessor
begin

text \<open>
  The meta store as a whole: the messages that the lease service sends to the key-value service,
  and the key-value service to the watch service and to the backup, delivered in their order.
\<close>

section \<open>Delivery\<close>

text \<open>What a message of the lease service does to the key-value service, and a message of the
  key-value service to the watch service. Messages to other actors do nothing there.\<close>

fun lease_to_kv :: "lease_msg \<Rightarrow> kv_state \<Rightarrow> kv_state" where
  "lease_to_kv (KvOnRevoke keys) s = snd (OnRevoke keys s)"
| "lease_to_kv _ s = s"

fun kv_to_watch :: "kv_msg \<Rightarrow> watch_state \<Rightarrow> watch_state" where
  "kv_to_watch (WatchOnPut kv prevKv) w = OnPut kv prevKv w"
| "kv_to_watch (WatchOnDeleteList kvs) w = OnDeleteList kvs w"
| "kv_to_watch (WatchOnDelete kv) w = OnDelete kv w"
| "kv_to_watch (WatchCreate from uuid req) w = Create from uuid req w"
| "kv_to_watch _ w = w"

record meta_store =
  m_lease :: lease_state
  m_kv :: kv_state
  m_watch :: watch_state

text \<open>The check for expired leases, and all it causes in the other two services.\<close>

definition expire :: "int \<Rightarrow> meta_store \<Rightarrow> meta_store" where
  "expire now m =
     (let l = CheckpointScheduledLeases now (m_lease m);
          kv = fold lease_to_kv (drop (length (l_outbox (m_lease m))) (l_outbox l)) (m_kv m);
          w = fold kv_to_watch (drop (length (outbox (m_kv m))) (outbox kv)) (m_watch m)
      in \<lparr>m_lease = l, m_kv = kv, m_watch = w\<rparr>)"

section \<open>Revocation\<close>

lemma OnRevoke_outbox:
  "outbox (snd (OnRevoke keys s)) = outbox s @
     (let ds = List.map_filter (fmlookup (cache s)) (sorted_list_of_fset keys)
      in (if ds \<noteq> [] then [WatchOnDeleteList ds] else []) @
         (if backupActor_ok s then [BackupWriteDeletes ds True] else []))"
  by (simp add: OnRevoke_def fold_revoke_one Let_def)

definition revoke_keys :: "lease_msg list \<Rightarrow> string set" where
  "revoke_keys ms = (\<Union>m \<in> set ms. case m of KvOnRevoke keys \<Rightarrow> fset keys | _ \<Rightarrow> {})"

lemma revoke_keys_Cons [simp]:
  "revoke_keys (m # ms) = (case m of KvOnRevoke keys \<Rightarrow> fset keys | _ \<Rightarrow> {}) \<union> revoke_keys ms"
  by (simp add: revoke_keys_def)

lemma set_map_filter: "set (List.map_filter f xs) = {y. \<exists>x \<in> set xs. f x = Some y}"
  by (induction xs) (auto simp: List.map_filter_simps split: option.split)

lemma lease_to_kv_cache:
  "fmlookup (cache (fold lease_to_kv ms s)) k = (if k \<in> revoke_keys ms then None else fmlookup (cache s) k)"
proof (induction ms arbitrary: s)
  case Nil
  show ?case by (simp add: revoke_keys_def)
next
  case (Cons m ms)
  then show ?case by (cases m) (auto simp: OnRevoke_sels)
qed

lemma lease_to_kv_outbox:
  "\<exists>new. outbox (fold lease_to_kv ms s) = outbox s @ new \<and>
     (\<forall>m \<in> set new. (\<exists>ds. m = WatchOnDeleteList ds) \<or> (\<exists>ds. m = BackupWriteDeletes ds True)) \<and>
     (\<forall>k r. k \<in> revoke_keys ms \<longrightarrow> fmlookup (cache s) k = Some r \<longrightarrow>
        (\<exists>ds. WatchOnDeleteList ds \<in> set new \<and> r \<in> set ds))"
proof (induction ms arbitrary: s)
  case Nil
  show ?case by (simp add: revoke_keys_def)
next
  case (Cons m ms)
    show ?case
    proof (cases "\<exists>keys. m = KvOnRevoke keys")
      case False
      then show ?thesis using Cons.IH [of s] by (cases m) auto
    next
      case True
      then obtain keys where m: "m = KvOnRevoke keys" by blast
      let ?ds = "List.map_filter (fmlookup (cache s)) (sorted_list_of_fset keys)"
      let ?s = "snd (OnRevoke keys s)"
      let ?new1 = "(if ?ds \<noteq> [] then [WatchOnDeleteList ?ds] else []) @
         (if backupActor_ok s then [BackupWriteDeletes ?ds True] else [])"
      obtain new where new: "outbox (fold lease_to_kv ms ?s) = outbox ?s @ new"
        "\<forall>m \<in> set new. (\<exists>ds. m = WatchOnDeleteList ds) \<or> (\<exists>ds. m = BackupWriteDeletes ds True)"
        "\<forall>k r. k \<in> revoke_keys ms \<longrightarrow> fmlookup (cache ?s) k = Some r \<longrightarrow>
          (\<exists>ds. WatchOnDeleteList ds \<in> set new \<and> r \<in> set ds)"
        using Cons.IH [of ?s] by blast
      have first: "\<exists>ds. WatchOnDeleteList ds \<in> set ?new1 \<and> r \<in> set ds"
        if "k \<in> fset keys" "fmlookup (cache s) k = Some r" for k r
      proof -
        have "r \<in> set ?ds" using that by (auto simp: set_map_filter)
        then show ?thesis by auto
      qed
      have later: "fmlookup (cache ?s) k = fmlookup (cache s) k" if "k \<notin> fset keys" for k
        using that by (simp add: OnRevoke_sels)
      show ?thesis
      proof (intro exI [of _ "?new1 @ new"] conjI allI impI)
        show "outbox (fold lease_to_kv (m # ms) s) = outbox s @ ?new1 @ new"
          using new(1) by (simp add: m OnRevoke_outbox Let_def)
        show "\<forall>m \<in> set (?new1 @ new). (\<exists>ds. m = WatchOnDeleteList ds) \<or> (\<exists>ds. m = BackupWriteDeletes ds True)"
          using new(2) by auto
        fix k r assume k: "k \<in> revoke_keys (m # ms)" "fmlookup (cache s) k = Some r"
        show "\<exists>ds. WatchOnDeleteList ds \<in> set (?new1 @ new) \<and> r \<in> set ds"
          using k first [of k r] new(3) later [of k] by (cases "k \<in> fset keys") (auto simp: m)
      qed
    qed
qed

section \<open>Notification\<close>

text \<open>The watch service has sent the client of a watch the deletion of a record, with the record
  when the watch asks for it.\<close>

definition deletion_sent :: "watch \<Rightarrow> key_value \<Rightarrow> watch_state \<Rightarrow> bool" where
  "deletion_sent w r s \<longleftrightarrow> (\<exists>u. PushEvents u \<in> set (w_outbox s) \<and>
     (if snd (snd (snd w))
      then fst w \<in> set (ue_toWithPrevKv u) \<and> ev_type (ue_eventWithPrevKv u) = EVENT_TYPE_DELETE \<and>
        kv_key (ev_kv (ue_eventWithPrevKv u)) = kv_key r \<and> ev_prev_kv (ue_eventWithPrevKv u) = Some r
      else fst w \<in> set (ue_to u) \<and> ev_type (ue_event u) = EVENT_TYPE_DELETE \<and>
        kv_key (ev_kv (ue_event u)) = kv_key r))"

definition same_watches :: "watch_state \<Rightarrow> watch_state \<Rightarrow> bool" where
  "same_watches s t \<longleftrightarrow> strictObserversById t = strictObserversById s \<and>
     strictObserversByKey t = strictObserversByKey s \<and> rangeObserverCaches t = rangeObserverCaches s \<and>
     set (w_outbox s) \<subseteq> set (w_outbox t)"

lemma same_watchesD:
  assumes "same_watches s t"
  shows "watches t = watches s" "caches_ok t = caches_ok s" "ranges_wf t = ranges_wf s"
    "deletion_sent w r s \<Longrightarrow> deletion_sent w r t"
  using assms watch_cong [of t s]
  by (auto simp: same_watches_def ranges_wf_def deletion_sent_def)

lemma same_watches_trans: "same_watches s t \<Longrightarrow> same_watches t u \<Longrightarrow> same_watches s u"
  by (auto simp: same_watches_def)

lemma OnDelete_same: "same_watches s (OnDelete r s)"
  by (auto simp: same_watches_def OnDelete_def Watch_AddToUnsyncedEvents_def w_emit_def)

lemma fold_OnDelete_same: "same_watches s (fold OnDelete rs s)"
proof (induction rs arbitrary: s)
  case (Cons r rs)
  then show ?case using same_watches_trans [OF OnDelete_same Cons] by simp
qed (simp add: same_watches_def)

lemma OnDelete_sent:
  assumes "caches_ok s" "ranges_wf s" "w \<in> watches s" "concerns w (kv_key r)"
  shows "deletion_sent w r (OnDelete r s)"
proof -
  obtain ci k rng pv where w: "w = (ci, k, rng, pv)" by (metis prod_cases4)
  let ?u = "add_watchers r s (BuildUnsyncedEventsForDelete r)"
  have e: "ue_to (BuildUnsyncedEventsForDelete r) = []" "ue_toWithPrevKv (BuildUnsyncedEventsForDelete r) = []"
    by (simp_all add: BuildUnsyncedEventsForDelete_def)
  have t: "fst w \<in> set (if pv then ue_toWithPrevKv ?u else ue_to ?u)"
    using add_watchers_sets [OF assms(1,2) e, of r] assms(3,4) unfolding w
    by (cases pv) (auto simp del: concerns.simps)
  then have "\<not> (ue_to ?u = [] \<and> ue_toWithPrevKv ?u = [])" by (auto split: if_splits)
  then have "PushEvents ?u \<in> set (w_outbox (OnDelete r s))"
    by (auto simp: OnDelete_def Watch_AddToUnsyncedEvents_def w_emit_def)
  then show ?thesis
    using t unfolding deletion_sent_def w
    by (intro exI [of _ ?u])
      (auto simp: response_events BuildUnsyncedEventsForDelete_def SetPrevKv_def)
qed

lemma fold_OnDelete_sent:
  "caches_ok s \<Longrightarrow> ranges_wf s \<Longrightarrow> w \<in> watches s \<Longrightarrow> concerns w (kv_key r) \<Longrightarrow> r \<in> set rs \<Longrightarrow>
   deletion_sent w r (fold OnDelete rs s)"
proof (induction rs arbitrary: s)
  case (Cons r' rs)
  note S = same_watchesD [OF OnDelete_same [of s r']]
  show ?case
  proof (cases "r = r'")
    case True
    then show ?thesis
      using same_watchesD(4) [OF fold_OnDelete_same OnDelete_sent [OF Cons.prems(1-4)]] by simp
  next
    case False
    then show ?thesis using Cons.IH [of "OnDelete r' s"] Cons.prems S by simp
  qed
qed simp

lemma kv_to_watch_fold:
  assumes "\<forall>m \<in> set ms. (\<exists>ds. m = WatchOnDeleteList ds) \<or> (\<exists>ds. m = BackupWriteDeletes ds True)"
  shows "same_watches s (fold kv_to_watch ms s) \<and>
    (\<forall>w r ds. caches_ok s \<longrightarrow> ranges_wf s \<longrightarrow> w \<in> watches s \<longrightarrow> concerns w (kv_key r) \<longrightarrow>
       WatchOnDeleteList ds \<in> set ms \<longrightarrow> r \<in> set ds \<longrightarrow> deletion_sent w r (fold kv_to_watch ms s))"
  using assms
proof (induction ms arbitrary: s)
  case (Cons m ms)
  have same: "same_watches s (kv_to_watch m s)"
    using Cons.prems fold_OnDelete_same by (fastforce simp: OnDeleteList_def same_watches_def)
  have p: "\<forall>m \<in> set ms. (\<exists>ds. m = WatchOnDeleteList ds) \<or> (\<exists>ds. m = BackupWriteDeletes ds True)"
    using Cons.prems by simp
  note IH = Cons.IH [OF p, of "kv_to_watch m s"] and S = same_watchesD [OF same]
  have "deletion_sent w r (fold kv_to_watch (m # ms) s)"
    if "caches_ok s" "ranges_wf s" "w \<in> watches s" "concerns w (kv_key r)"
      "WatchOnDeleteList ds \<in> set (m # ms)" "r \<in> set ds" for w r ds
  proof (cases "m = WatchOnDeleteList ds")
    case True
    then have "deletion_sent w r (kv_to_watch m s)"
      using fold_OnDelete_sent that by (simp add: OnDeleteList_def)
    then show ?thesis using same_watchesD(4) [OF conjunct1 [OF IH]] by simp
  next
    case False
    then have "WatchOnDeleteList ds \<in> set ms" using that(5) by simp
    then show ?thesis using IH S(1-3) that(1-4,6) unfolding fold_simps by blast
  qed
  moreover have "same_watches s (fold kv_to_watch (m # ms) s)"
    using same_watches_trans [OF same conjunct1 [OF IH]] by simp
  ultimately show ?case by blast
qed (simp add: same_watches_def)

section \<open>Expiry of a lease, from the lease to the watchers\<close>

definition dead_keys :: "int \<Rightarrow> lease_state \<Rightarrow> string set" where
  "dead_keys now s = {k. \<exists>i l. fmlookup (leases s) i = Some l \<and> l_expiry l < now \<and> k \<in> set (l_items l)}"

lemma checkpoint_messages:
  assumes "l_running s" "l_curStatus s \<noteq> SLAVE_BUSINESS"
  shows "revoke_keys (drop (length (l_outbox s)) (l_outbox (CheckpointScheduledLeases now s))) = dead_keys now s"
proof -
  have "revoke_keys (concat (map (\<lambda>(i, l). if l_expiry l < now then revoke_messages l else []) xs)) =
      {k. \<exists>i l. (i, l) \<in> set xs \<and> l_expiry l < now \<and> k \<in> set (l_items l)}" for xs :: "(int \<times> lease) list"
  proof (induction xs)
    case (Cons x xs)
    have "revoke_keys (ms @ ms') = revoke_keys ms \<union> revoke_keys ms'" for ms ms' by (simp add: revoke_keys_def)
    moreover have "revoke_keys (revoke_messages l) = set (l_items l)" for l
      by (simp add: revoke_keys_def revoke_messages_def fset_of_list.rep_eq)
    moreover have "revoke_keys [] = {}" by (simp add: revoke_keys_def)
    ultimately show ?case using Cons by (cases x) auto
  qed (simp add: revoke_keys_def)
  then have "revoke_keys (concat (map (\<lambda>(i, l). if l_expiry l < now then revoke_messages l else [])
      (sorted_list_of_fmap (leases s)))) = dead_keys now s"
    by (auto simp: dead_keys_def)
  then show ?thesis
    using assms by (simp add: CheckpointScheduledLeases_def fold_checkpoint l_emit_def revoke_keys_def)
qed


text \<open>A store with one leased record, watched by prefix.\<close>

definition demo_store :: meta_store where
  "demo_store = \<lparr>m_lease = demo_leases,
     m_kv = snd (AsyncPut_Master ''c'' \<lparr>pr_requestid = ''r'', pr_key = ''a'', pr_value = ''v'', pr_lease = 5,
       pr_prevkv = False, pr_asyncbackup = False\<rparr> (InitExplorer (KvServiceActor False False))),
     m_watch = Create ''w'' ''u'' \<lparr>wc_key = ''a'', wc_range_end = ''b'', wc_prev_kv = False\<rparr> WatchServiceActor\<rparr>"


section \<open>A delete that finds nothing\<close>

text \<open>A synchronous delete of a missing key waits for a backup of no records, whose promise the
  backup leaves open: the client gets no answer, and the accessor drops its retries as duplicates,
  until some other synchronous write is backed up.\<close>

theorem delete_of_missing_key_waits:
  assumes "business s = Some MasterBusiness" "backupActor_ok s" "fmlookup (cache s) key = None"
    "rq_payload req = Some \<lparr>dr_key = key, dr_range_end = [], dr_prev_kv = p\<rparr>" "\<not> rq_asyncbackup req"
    "at_rest b" "toBackup b = fmempty" "r = snd (WriteDeletes ser (Some []) False b)"
  shows "(\<exists>resp. kv_handle moved (ReqDelete from req) s =
      (Await (DeleteCont from req [] resp), emit (BackupWriteDeletes [] False) s)) \<and>
    at_rest (next_message ser r) \<and> b_answers (next_message ser r) = b_answers b \<and>
    b_next b \<in> set (promises (next_message ser r))"
proof
  show "\<exists>resp. kv_handle moved (ReqDelete from req) s =
      (Await (DeleteCont from req [] resp), emit (BackupWriteDeletes [] False) s)"
    using assms(1-5) by (simp add: kv_handle_def AsyncDelete_Master_def TryDeleteRange_def
        CheckDeletesOngoingValid_def InsertDeleteOngoing_def Let_def emit_def)
  show "at_rest (next_message ser r) \<and> b_answers (next_message ser r) = b_answers b \<and>
      b_next b \<in> set (promises (next_message ser r))"
    using assms(6-8)
    by (simp add: WriteDeletes_def WriteDeletesInternal_def CheckFlush_def next_message_def Flush_def
        post_def at_rest_def Let_def)
qed

end
