(* ===== verification/Sched_Types.thy ===== *)
theory Sched_Types
  imports Std_Numbers
begin

text \<open>
  The items of the scheduling queues
  (\<^verbatim>\<open>src/functionsystem/src/common/schedule_decision/queue/queue_item.h\<close>) and the decision whether
  an instance needs an agent of its own
  (\<^verbatim>\<open>src/functionsystem/src/common/create_agent_decision/create_agent_decision.h\<close>).

  A request carries the fields this code reads. The selectors of an affinity are opaque texts.
  The promise of an item is set in the scheduler's state, by request id. The tag that cancels an
  item is a future: not set, set with a reason, or failed.
\<close>

section \<open>Requests\<close>

record resource_affinity =
  ra_preferredAffinity :: "string option"
  ra_preferredAntiAffinity :: "string option"
  ra_requiredAffinity :: "string option"
  ra_requiredAntiAffinity :: "string option"

record schedule_option =
  so_schedPolicyName :: string
  so_priority :: int
  so_scheduleTimeoutMs :: int
  so_resource :: "resource_affinity option"
  so_pending :: "resource_affinity list"
  so_instanceAffinity :: "string list"

definition schedule_option_default :: schedule_option where
  "schedule_option_default = \<lparr>so_schedPolicyName = [], so_priority = 0, so_scheduleTimeoutMs = 0,
     so_resource = None, so_pending = [], so_instanceAffinity = []\<rparr>"

record instance_info =
  in_extensions :: "(string, string) fmap"
  in_createoptions :: "(string, string) fmap"
  in_resources :: "string fset"
  in_scheduleoption :: "schedule_option option"

definition instance_default :: instance_info where
  "instance_default = \<lparr>in_extensions = fmempty, in_createoptions = fmempty, in_resources = {||},
     in_scheduleoption = None\<rparr>"

text \<open>Reading an unset sub-message gives its default.\<close>

definition scheduleoption :: "instance_info \<Rightarrow> schedule_option" where
  "scheduleoption i = (case in_scheduleoption i of Some opt \<Rightarrow> opt | None \<Rightarrow> schedule_option_default)"

record schedule_request =
  sq_requestid :: string
  sq_instance :: "instance_info option"

definition request_instance :: "schedule_request \<Rightarrow> instance_info" where
  "request_instance r = (case sq_instance r of Some i \<Rightarrow> i | None \<Rightarrow> instance_default)"

section \<open>Items\<close>

datatype cancel_tag = CancelInit | CancelOK string | CancelError

text \<open>\<open>ii_req\<close> is \<open>None\<close> for a null request pointer.\<close>

record instance_item =
  ii_req :: "schedule_request option"
  ii_cancelTag :: cancel_tag
  ii_hasFailed :: bool

record group_item =
  gi_groupReqs :: "instance_item list"
  gi_groupReqID :: string
  gi_cancelTag :: cancel_tag
  gi_isRange :: bool
  gi_timeout :: int
  gi_hasFailed :: bool

datatype queue_item = InstanceItem instance_item | GroupItem group_item

definition RECEIVED_TIMESTAMP :: string where "RECEIVED_TIMESTAMP = ''receivedTimestamp''"

definition InstanceCreatedTimeStamp :: "instance_info \<Rightarrow> int" where
  "InstanceCreatedTimeStamp i =
     (case fmlookup (in_extensions i) RECEIVED_TIMESTAMP of
        None \<Rightarrow> 0
      | Some txt \<Rightarrow> (case stoll txt of Some time \<Rightarrow> time | None \<Rightarrow> 0))"

definition instance_priority :: "instance_item \<Rightarrow> nat" where
  "instance_priority i =
     (case ii_req i of
        None \<Rightarrow> 0
      | Some r \<Rightarrow>
          (case sq_instance r of
             None \<Rightarrow> 0
           | Some ins \<Rightarrow>
               (case in_scheduleoption ins of
                  None \<Rightarrow> 0
                | Some opt \<Rightarrow> nat (so_priority opt mod 2 ^ 16))))"

fun GetRequestId :: "queue_item \<Rightarrow> string" where
  "GetRequestId (InstanceItem i) = (case ii_req i of None \<Rightarrow> [] | Some r \<Rightarrow> sq_requestid r)"
| "GetRequestId (GroupItem g) = gi_groupReqID g"

text \<open>The priority is read from an \<^verbatim>\<open>int32\<close> into a \<^verbatim>\<open>uint16_t\<close>. A group has that of its first
  instance.\<close>

fun GetPriority :: "queue_item \<Rightarrow> nat" where
  "GetPriority (InstanceItem i) = instance_priority i"
| "GetPriority (GroupItem g) = (case gi_groupReqs g of [] \<Rightarrow> 0 | i # _ \<Rightarrow> instance_priority i)"

text \<open>The code reads the first instance of a group without a test for an empty group; the actor
  in front of the queues lets no empty group in. The model reads \<open>0\<close> there.\<close>

fun CreatedTimestamp :: "queue_item \<Rightarrow> int" where
  "CreatedTimestamp (InstanceItem i) =
     (case ii_req i of
        None \<Rightarrow> 0
      | Some r \<Rightarrow> (case sq_instance r of None \<Rightarrow> 0 | Some ins \<Rightarrow> InstanceCreatedTimeStamp ins))"
| "CreatedTimestamp (GroupItem g) =
     (case gi_groupReqs g of
        [] \<Rightarrow> 0
      | i # _ \<Rightarrow> (case ii_req i of None \<Rightarrow> 0 | Some r \<Rightarrow> InstanceCreatedTimeStamp (request_instance r)))"

fun cancelTag :: "queue_item \<Rightarrow> cancel_tag" where
  "cancelTag (InstanceItem i) = ii_cancelTag i"
| "cancelTag (GroupItem g) = gi_cancelTag g"

fun TagFailure :: "queue_item \<Rightarrow> queue_item" where
  "TagFailure (InstanceItem i) = InstanceItem (i\<lparr>ii_hasFailed := True\<rparr>)"
| "TagFailure (GroupItem g) = GroupItem (g\<lparr>gi_hasFailed := True\<rparr>)"

fun HasFailed :: "queue_item \<Rightarrow> bool" where
  "HasFailed (InstanceItem i) = ii_hasFailed i"
| "HasFailed (GroupItem g) = gi_hasFailed g"

lemma TagFailure_sels [simp]:
  "GetRequestId (TagFailure x) = GetRequestId x" "GetPriority (TagFailure x) = GetPriority x"
  "CreatedTimestamp (TagFailure x) = CreatedTimestamp x" "cancelTag (TagFailure x) = cancelTag x"
proof -
  have "GetRequestId (TagFailure x) = GetRequestId x \<and> GetPriority (TagFailure x) = GetPriority x \<and>
      CreatedTimestamp (TagFailure x) = CreatedTimestamp x \<and> cancelTag (TagFailure x) = cancelTag x"
    by (cases x) (simp_all add: instance_priority_def)
  then show "GetRequestId (TagFailure x) = GetRequestId x" "GetPriority (TagFailure x) = GetPriority x"
    "CreatedTimestamp (TagFailure x) = CreatedTimestamp x" "cancelTag (TagFailure x) = cancelTag x"
    by simp_all
qed

lemma GetPriority_less: "GetPriority x < 2 ^ 16"
proof -
  have "instance_priority i < 2 ^ 16" for i
    by (simp add: instance_priority_def nat_less_iff split: option.split)
  then show ?thesis by (cases x) (simp_all split: list.split)
qed

section \<open>Agents of their own\<close>

definition MONOPOLY_SCHEDULE :: string where "MONOPOLY_SCHEDULE = ''monopoly''"
definition RESOURCE_OWNER_KEY :: string where "RESOURCE_OWNER_KEY = ''resource.owner''"
definition SYSTEM_OWNER_VALUE :: string where "SYSTEM_OWNER_VALUE = ''system''"
definition STATIC_FUNCTION_OWNER_VALUE :: string where "STATIC_FUNCTION_OWNER_VALUE = ''static_function''"
definition ENABLE_HORIZONTAL_SCALE_KEY :: string where "ENABLE_HORIZONTAL_SCALE_KEY = ''ENABLE_HORIZONTAL_SCALE''"
definition DELEGATE_CONTAINER :: string where "DELEGATE_CONTAINER = ''DELEGATE_CONTAINER''"
definition AFFINITY_POOL_ID :: string where "AFFINITY_POOL_ID = ''AFFINITY_POOL_ID''"

definition NeedCreateAgentByPoolID :: "instance_info \<Rightarrow> bool" where
  "NeedCreateAgentByPoolID i \<longleftrightarrow>
     (case fmlookup (in_createoptions i) AFFINITY_POOL_ID of Some v \<Rightarrow> v \<noteq> [] | None \<Rightarrow> False)"

text \<open>The poolable resources are CPU and memory; a third resource is a custom one.\<close>

definition NeedCreateAgent :: "instance_info \<Rightarrow> bool" where
  "NeedCreateAgent i \<longleftrightarrow>
     (if so_schedPolicyName (scheduleoption i) \<noteq> MONOPOLY_SCHEDULE then False
      else if fmlookup (in_createoptions i) RESOURCE_OWNER_KEY = Some STATIC_FUNCTION_OWNER_VALUE then False
      else if fmlookup (in_createoptions i) DELEGATE_CONTAINER \<noteq> None then True
      else if fmlookup (in_createoptions i) RESOURCE_OWNER_KEY = Some SYSTEM_OWNER_VALUE then True
      else fcard (in_resources i) > 2)"

definition NeedCreateAgentInDomain :: "instance_info \<Rightarrow> status_code \<Rightarrow> bool" where
  "NeedCreateAgentInDomain i code \<longleftrightarrow>
     (if NeedCreateAgentByPoolID i then True
      else if code = AFFINITY_SCHEDULE_FAILED then False
      else if so_instanceAffinity (scheduleoption i) \<noteq> [] then True
      else if fmlookup (in_createoptions i) ENABLE_HORIZONTAL_SCALE_KEY = Some ''true'' \<and>
              (code = RESOURCE_NOT_ENOUGH \<or> code = ERR_RESOURCE_NOT_ENOUGH) then True
      else NeedCreateAgent i)"

end
