(* ===== verification/Sched_Queue.thy ===== *)
theory Sched_Queue
  imports Sched_Types "HOL-Library.Product_Lexorder"
begin

text \<open>
  The scheduling queues (\<^verbatim>\<open>src/functionsystem/src/common/schedule_decision/queue\<close>): the plain
  \<^verbatim>\<open>ScheduleQueue\<close>, first in first out on each priority level, and the \<^verbatim>\<open>TimeSortedQueue\<close>, which
  serves each level by the time the request was received. Both keep a deque or heap per priority
  and a set of request ids.

  A \<^verbatim>\<open>std::priority_queue\<close> is the list of its elements in the order they are popped; the standard
  leaves the order of equivalent elements open, and the model pops the one pushed last.
\<close>

section \<open>Model\<close>

record sched_queue =
  queueMap :: "(nat, queue_item list) fmap"
  reqIndex :: "string fset"
  maxPriority :: nat

definition ScheduleQueue :: "nat \<Rightarrow> sched_queue" where
  "ScheduleQueue maxPrio = \<lparr>queueMap = fmempty, reqIndex = {||}, maxPriority = maxPrio\<rparr>"

text \<open>\<^verbatim>\<open>queueMap_[i]\<close>: a missing level is an empty one. The loops go from the highest priority down to
  the first level that has an item.\<close>

definition level :: "sched_queue \<Rightarrow> nat \<Rightarrow> queue_item list" where
  "level q i = (case fmlookup (queueMap q) i of Some xs \<Rightarrow> xs | None \<Rightarrow> [])"

fun top_level :: "sched_queue \<Rightarrow> nat \<Rightarrow> nat option" where
  "top_level q 0 = (if level q 0 \<noteq> [] then Some 0 else None)"
| "top_level q (Suc i) = (if level q (Suc i) \<noteq> [] then Some (Suc i) else top_level q i)"

definition CheckIsQueueEmpty :: "sched_queue \<Rightarrow> bool" where
  "CheckIsQueueEmpty q \<longleftrightarrow> reqIndex q = {||}"

definition Size :: "sched_queue \<Rightarrow> nat" where
  "Size q = fcard (reqIndex q)"

definition set_level :: "nat \<Rightarrow> queue_item list \<Rightarrow> sched_queue \<Rightarrow> sched_queue" where
  "set_level i xs q = q\<lparr>queueMap := fmupd i xs (queueMap q)\<rparr>"

subsection \<open>\<open>ScheduleQueue\<close>\<close>

definition Enqueue :: "queue_item option \<Rightarrow> sched_queue \<Rightarrow> status \<times> sched_queue" where
  "Enqueue item q =
     (case item of
        None \<Rightarrow> (Status FAILED ''queueItem is null'', q)
      | Some x \<Rightarrow>
          if GetRequestId x = [] then (Status ERR_PARAM_INVALID ''get instance requestId failed'', q)
          else if GetPriority x > maxPriority q
          then (Status ERR_PARAM_INVALID ''instance priority is greater than maxPriority'', q)
          else
            let q = q\<lparr>reqIndex := finsert (GetRequestId x) (reqIndex q)\<rparr>
            in (Status_OK, set_level (GetPriority x) (level q (GetPriority x) @ [x]) q))"

definition pop_level :: "nat \<Rightarrow> sched_queue \<Rightarrow> sched_queue" where
  "pop_level i q =
     (let x = hd (level q i);
          q = set_level i (tl (level q i)) q
      in q\<lparr>reqIndex := reqIndex q |-| {|GetRequestId x|}\<rparr>)"

definition Dequeue :: "sched_queue \<Rightarrow> status \<times> sched_queue" where
  "Dequeue q =
     (if CheckIsQueueEmpty q then (Status FAILED ''queue is empty'', q)
      else case top_level q (maxPriority q) of
             None \<Rightarrow> (Status_OK, q)
           | Some i \<Rightarrow> (Status_OK, pop_level i q))"

definition Front :: "sched_queue \<Rightarrow> queue_item option" where
  "Front q =
     (if CheckIsQueueEmpty q then None
      else case top_level q (maxPriority q) of None \<Rightarrow> None | Some i \<Rightarrow> Some (hd (level q i)))"

text \<open>\<^verbatim>\<open>Swap\<close> exchanges the levels up to this queue's highest priority, and the id sets.\<close>

definition swap_level :: "nat \<Rightarrow> sched_queue \<times> sched_queue \<Rightarrow> sched_queue \<times> sched_queue" where
  "swap_level i = (\<lambda>(q, t).
     if fmlookup (queueMap q) i = None \<and> fmlookup (queueMap t) i = None then (q, t)
     else (set_level i (level t i) q, set_level i (level q i) t))"

definition Swap :: "sched_queue \<Rightarrow> sched_queue \<Rightarrow> sched_queue \<times> sched_queue" where
  "Swap q t =
     (let (q', t') = fold swap_level (rev [0..<Suc (maxPriority q)]) (q, t)
      in (q'\<lparr>reqIndex := reqIndex t'\<rparr>, t'\<lparr>reqIndex := reqIndex q'\<rparr>))"

definition extend_item :: "nat \<Rightarrow> queue_item \<Rightarrow> sched_queue \<Rightarrow> sched_queue" where
  "extend_item i x q =
     (set_level i (level q i @ [x]) q)\<lparr>reqIndex := finsert (GetRequestId x) (reqIndex q)\<rparr>"

definition extend_level :: "sched_queue \<Rightarrow> nat \<Rightarrow> sched_queue \<Rightarrow> sched_queue" where
  "extend_level t i q =
     (case fmlookup (queueMap t) i of
        None \<Rightarrow> q
      | Some xs \<Rightarrow> fold (extend_item i) xs (set_level i (level q i) q))"

definition Extend :: "sched_queue option \<Rightarrow> sched_queue \<Rightarrow> sched_queue" where
  "Extend target q =
     (case target of
        None \<Rightarrow> q
      | Some t \<Rightarrow> fold (extend_level t) (rev [0..<Suc (maxPriority q)]) q)"

subsection \<open>\<open>TimeSortedQueue\<close>\<close>

text \<open>\<^verbatim>\<open>operator>\<close> on items; the heap pops the least item first.\<close>

definition later_item :: "queue_item \<Rightarrow> queue_item \<Rightarrow> bool" where
  "later_item r l \<longleftrightarrow>
     (if CreatedTimestamp r = CreatedTimestamp l then GetRequestId r > GetRequestId l
      else CreatedTimestamp r > CreatedTimestamp l)"

definition heap_push :: "queue_item \<Rightarrow> queue_item list \<Rightarrow> queue_item list" where
  "heap_push x xs = ins_by (\<lambda>y x. later_item x y) x xs"

definition Time_Enqueue :: "queue_item option \<Rightarrow> sched_queue \<Rightarrow> status \<times> sched_queue" where
  "Time_Enqueue item q =
     (case item of
        None \<Rightarrow> (Status FAILED ''queue is nullptr'', q)
      | Some x \<Rightarrow>
          if GetRequestId x = [] then (Status ERR_PARAM_INVALID ''invalid request without id'', q)
          else if GetPriority x > maxPriority q
          then (Status ERR_PARAM_INVALID ''priority of request is greater than maxPriority'', q)
          else
            let q = q\<lparr>reqIndex := finsert (GetRequestId x) (reqIndex q)\<rparr>
            in (Status_OK, set_level (GetPriority x) (heap_push x (level q (GetPriority x))) q))"

definition Time_Front :: "sched_queue \<Rightarrow> queue_item option" where
  "Time_Front q = (case top_level q (maxPriority q) of None \<Rightarrow> None | Some i \<Rightarrow> Some (hd (level q i)))"

definition Time_Dequeue :: "sched_queue \<Rightarrow> status \<times> sched_queue" where
  "Time_Dequeue q =
     (case top_level q (maxPriority q) of
        None \<Rightarrow> (Status_OK, q)
      | Some i \<Rightarrow> (Status_OK, pop_level i q))"

definition Time_Swap :: "sched_queue \<Rightarrow> sched_queue \<Rightarrow> sched_queue \<times> sched_queue" where
  "Time_Swap q t =
     (\<lparr>queueMap = queueMap t, reqIndex = reqIndex t, maxPriority = maxPriority t\<rparr>,
      t\<lparr>queueMap := queueMap q, reqIndex := reqIndex q\<rparr>)"

definition time_extend_item :: "nat \<Rightarrow> queue_item \<Rightarrow> sched_queue \<Rightarrow> sched_queue" where
  "time_extend_item i x q =
     (set_level i (heap_push x (level q i)) q)\<lparr>reqIndex := finsert (GetRequestId x) (reqIndex q)\<rparr>"

definition time_extend_level :: "nat \<Rightarrow> sched_queue \<times> sched_queue \<Rightarrow> sched_queue \<times> sched_queue" where
  "time_extend_level i = (\<lambda>(q, t).
     case fmlookup (queueMap t) i of
       None \<Rightarrow> (q, t)
     | Some xs \<Rightarrow> (fold (time_extend_item i) xs (set_level i (level q i) q), set_level i [] t))"

text \<open>The items move from the target to this queue; the target keeps its id set.\<close>

definition Time_Extend :: "sched_queue \<Rightarrow> sched_queue \<Rightarrow> sched_queue \<times> sched_queue" where
  "Time_Extend q t = fold time_extend_level (rev [0..<Suc (maxPriority q)]) (q, t)"

section \<open>The items of a queue in the order of service\<close>

definition levels :: "sched_queue \<Rightarrow> nat \<Rightarrow> queue_item list" where
  "levels q n = concat (map (level q) (rev [0..<n]))"

definition queue_items :: "sched_queue \<Rightarrow> queue_item list" where
  "queue_items q = levels q (Suc (maxPriority q))"

lemma levels_Suc: "levels q (Suc n) = level q n @ levels q n"
  by (simp add: levels_def)

lemma level_set_level [simp]: "level (set_level i xs q) j = (if i = j then xs else level q j)"
  by (simp add: level_def set_level_def)

lemma set_level_sels [simp]:
  "reqIndex (set_level i xs q) = reqIndex q" "maxPriority (set_level i xs q) = maxPriority q"
  by (simp_all add: set_level_def)

lemma level_reqIndex [simp]: "level (q\<lparr>reqIndex := r\<rparr>) = level q"
  by (simp add: level_def fun_eq_iff)

lemma levels_cong: "(\<And>i. i < n \<Longrightarrow> level q i = level p i) \<Longrightarrow> levels q n = levels p n"
  by (induction n) (simp_all add: levels_Suc, simp add: levels_def)

lemma levels_upto:
  "p < n \<Longrightarrow> levels q n = concat (map (level q) (rev [Suc p..<n])) @ level q p @ levels q p"
proof (induction n)
  case (Suc n)
  then show ?case by (cases "p = n") (simp_all add: levels_Suc)
qed simp

lemma top_level_Some:
  "top_level q n = Some i \<Longrightarrow> level q i \<noteq> [] \<and> i \<le> n \<and> levels q (Suc n) = levels q (Suc i)"
  by (induction n) (auto simp: levels_Suc split: if_splits)

lemma top_level_None: "top_level q n = None \<longleftrightarrow> levels q (Suc n) = []"
  by (induction n) (auto simp: levels_Suc, simp_all add: levels_def)

definition queue_inv :: "sched_queue \<Rightarrow> bool" where
  "queue_inv q \<longleftrightarrow> (\<forall>i. \<forall>x \<in> set (level q i). GetPriority x = i) \<and>
     distinct (map GetRequestId (queue_items q)) \<and> [] \<notin> GetRequestId ` set (queue_items q) \<and>
     fset (reqIndex q) = GetRequestId ` set (queue_items q)"

lemma queue_inv_empty_iff: "queue_inv q \<Longrightarrow> CheckIsQueueEmpty q \<longleftrightarrow> queue_items q = []"
  by (metis CheckIsQueueEmpty_def bot_fset.rep_eq fset_inject image_is_empty queue_inv_def set_empty)

lemma pop_level_items:
  assumes "queue_inv q" "top_level q (maxPriority q) = Some i"
  shows "queue_items (pop_level i q) = tl (queue_items q)" "queue_inv (pop_level i q)"
    "queue_items q = hd (level q i) # tl (queue_items q)" "maxPriority (pop_level i q) = maxPriority q"
proof -
  let ?n = "maxPriority q" and ?p = "pop_level i q"
  note t = top_level_Some [OF assms(2)]
  obtain x xs where x: "level q i = x # xs" using t by (cases "level q i") auto
  have lv: "level ?p j = (if j = i then xs else level q j)" for j
    by (simp add: pop_level_def x Let_def)
  have above: "concat (map (level q) (rev [Suc i..<Suc ?n])) = []"
  proof -
    have "levels q (Suc ?n) = concat (map (level q) (rev [Suc i..<Suc ?n])) @ level q i @ levels q i"
      by (rule levels_upto) (use t in simp)
    then show ?thesis using t by (simp add: levels_Suc)
  qed
  show m: "maxPriority ?p = ?n" by (simp add: pop_level_def Let_def)
  have "concat (map (level ?p) (rev [Suc i..<Suc ?n])) = concat (map (level q) (rev [Suc i..<Suc ?n]))"
    by (rule arg_cong [of _ _ concat]) (auto simp: lv)
  then have ip: "queue_items ?p = xs @ levels q i"
    using levels_upto [of i "Suc ?n" ?p] t above levels_cong [of i ?p q]
    by (simp add: queue_items_def m lv)
  have iq: "queue_items q = x # xs @ levels q i"
    using t by (simp add: queue_items_def levels_Suc x)
  show "queue_items ?p = tl (queue_items q)" "queue_items q = hd (level q i) # tl (queue_items q)"
    by (simp_all add: ip iq x)
  have "reqIndex ?p = reqIndex q |-| {|GetRequestId x|}" by (simp add: pop_level_def x Let_def)
  then show "queue_inv ?p"
    using assms(1) x unfolding queue_inv_def lv ip iq
    by (auto split: if_splits) (metis image_eqI)+
qed

section \<open>The contract of a scheduling queue\<close>

definition acceptable :: "nat \<Rightarrow> queue_item list \<Rightarrow> queue_item \<Rightarrow> bool" where
  "acceptable maxPrio xs x \<longleftrightarrow> GetRequestId x \<noteq> [] \<and> GetPriority x \<le> maxPrio \<and>
     GetRequestId x \<notin> GetRequestId ` set xs"

text \<open>Serving a queue until it is empty, with fuel for the number of items.\<close>

fun drain :: "('q \<Rightarrow> queue_item option) \<Rightarrow> ('q \<Rightarrow> status \<times> 'q) \<Rightarrow> nat \<Rightarrow> 'q \<Rightarrow> queue_item list" where
  "drain front deq 0 q = []"
| "drain front deq (Suc n) q =
     (case front q of None \<Rightarrow> [] | Some x \<Rightarrow> x # drain front deq n (snd (deq q)))"

text \<open>A queue shows its clients the list of its items: an accepted item is inserted by the order
  \<open>before\<close>, the front is the head, and dequeuing removes it.\<close>

locale served_in_order =
  fixes enq :: "queue_item option \<Rightarrow> 'q \<Rightarrow> status \<times> 'q" and front :: "'q \<Rightarrow> queue_item option"
    and deq :: "'q \<Rightarrow> status \<times> 'q" and is_empty :: "'q \<Rightarrow> bool" and maxp :: "'q \<Rightarrow> nat"
    and contents :: "'q \<Rightarrow> queue_item list" and inv :: "'q \<Rightarrow> bool"
    and before :: "queue_item \<Rightarrow> queue_item \<Rightarrow> bool"
  assumes enq_ok: "inv q \<Longrightarrow> acceptable (maxp q) (contents q) x \<Longrightarrow>
      enq (Some x) q = (Status_OK, snd (enq (Some x) q)) \<and> inv (snd (enq (Some x) q)) \<and>
      maxp (snd (enq (Some x) q)) = maxp q \<and>
      contents (snd (enq (Some x) q)) = ins_by before x (contents q)"
    and front_head: "inv q \<Longrightarrow> front q = (case contents q of [] \<Rightarrow> None | x # _ \<Rightarrow> Some x)"
    and deq_tail: "inv q \<Longrightarrow> inv (snd (deq q)) \<and> contents (snd (deq q)) = tl (contents q) \<and>
      maxp (snd (deq q)) = maxp q"
    and empty_iff: "inv q \<Longrightarrow> is_empty q \<longleftrightarrow> contents q = []"
begin

lemma drain_contents: "inv q \<Longrightarrow> length (contents q) \<le> n \<Longrightarrow> drain front deq n q = contents q"
proof (induction n arbitrary: q)
  case (Suc n)
  show ?case
  proof (cases "contents q")
    case Nil
    then show ?thesis using Suc.prems front_head by simp
  next
    case (Cons x xs)
    then show ?thesis
      using Suc.IH [of "snd (deq q)"] Suc.prems front_head deq_tail [of q] by simp
  qed
qed simp

lemma enqueue_all:
  "inv q \<Longrightarrow> distinct (map GetRequestId xs) \<Longrightarrow> (\<forall>x \<in> set xs. acceptable (maxp q) (contents q) x) \<Longrightarrow>
   inv (fold (\<lambda>x q. snd (enq (Some x) q)) xs q) \<and>
   contents (fold (\<lambda>x q. snd (enq (Some x) q)) xs q) = fold (ins_by before) xs (contents q)"
proof (induction xs arbitrary: q)
  case (Cons x xs)
  let ?q = "snd (enq (Some x) q)"
  have x: "inv ?q" "maxp ?q = maxp q" "contents ?q = ins_by before x (contents q)"
    using enq_ok [of q x] Cons.prems by auto
  have s: "set (contents ?q) = insert x (set (contents q))"
    using x(3) by (metis mset_ins_by set_mset_add_mset_insert set_mset_mset)
  have "\<forall>y \<in> set xs. acceptable (maxp ?q) (contents ?q) y"
    using Cons.prems(2,3) by (auto simp: acceptable_def s x(2)) (metis image_eqI)
  then show ?case using Cons.IH [OF x(1)] Cons.prems(2) x(3) by simp
qed simp

end

section \<open>The two queues keep the contract\<close>

definition fifo_before :: "queue_item \<Rightarrow> queue_item \<Rightarrow> bool" where
  "fifo_before y x \<longleftrightarrow> GetPriority y \<ge> GetPriority x"

definition time_before :: "queue_item \<Rightarrow> queue_item \<Rightarrow> bool" where
  "time_before y x \<longleftrightarrow> GetPriority y > GetPriority x \<or> (GetPriority y = GetPriority x \<and> later_item x y)"

lemma ins_by_skip: "\<forall>y \<in> set ys. lt y x \<Longrightarrow> ins_by lt x (ys @ zs) = ys @ ins_by lt x zs"
  by (induction ys) auto

lemma ins_by_within:
  "(\<forall>y \<in> set ys. lt y x = lt' y x) \<Longrightarrow> (\<forall>z \<in> set zs. \<not> lt z x) \<Longrightarrow>
   ins_by lt x (ys @ zs) = ins_by lt' x ys @ zs"
  by (induction ys) (auto, metis ins_by.elims list.set_intros(1))

text \<open>Inserting an item on its level inserts it in the order of service.\<close>

lemma insert_on_level:
  assumes "\<forall>i. \<forall>y \<in> set (level q i). GetPriority y = i" "GetPriority x \<le> maxPriority q"
    and "\<And>y. GetPriority y > GetPriority x \<Longrightarrow> lt y x" "\<And>y. GetPriority y < GetPriority x \<Longrightarrow> \<not> lt y x"
    and "\<And>y. GetPriority y = GetPriority x \<Longrightarrow> lt y x = lt' y x"
  shows "queue_items (set_level (GetPriority x) (ins_by lt' x (level q (GetPriority x))) q) =
    ins_by lt x (queue_items q)"
proof -
  let ?p = "GetPriority x" and ?n = "Suc (maxPriority q)"
  let ?t = "set_level ?p (ins_by lt' x (level q ?p)) q"
  have p: "?p < ?n" using assms(2) by simp
  have hi: "concat (map (level ?t) (rev [Suc ?p..<?n])) = concat (map (level q) (rev [Suc ?p..<?n]))"
    by (rule arg_cong [of _ _ concat]) auto
  have lo: "levels ?t ?p = levels q ?p" by (rule levels_cong) simp
  have above: "\<forall>y \<in> set (concat (map (level q) (rev [Suc ?p..<?n]))). lt y x"
    using assms(1,3) by fastforce
  have "\<forall>y \<in> set (levels q ?p). \<not> lt y x"
    using assms(1,4) by (fastforce simp: levels_def)
  moreover have "\<forall>y \<in> set (level q ?p). lt y x = lt' y x" using assms(1,5) by blast
  ultimately have "ins_by lt x (level q ?p @ levels q ?p) = ins_by lt' x (level q ?p) @ levels q ?p"
    using ins_by_within [of "level q ?p" lt x lt' "levels q ?p"] by blast
  then show ?thesis
    using levels_upto [OF p, of ?t] levels_upto [OF p, of q] hi lo
      ins_by_skip [of "concat (map (level q) (rev [Suc ?p..<?n]))" lt x] above
    by (simp add: queue_items_def)
qed

lemma queue_inv_insert:
  assumes "queue_inv q" "acceptable (maxPriority q) (queue_items q) x"
    and "t = set_level (GetPriority x) ys (q\<lparr>reqIndex := finsert (GetRequestId x) (reqIndex q)\<rparr>)"
    and "set ys = insert x (set (level q (GetPriority x)))"
    and "mset (queue_items t) = add_mset x (mset (queue_items q))"
  shows "queue_inv t"
proof -
  have "mset (map GetRequestId (queue_items t)) = mset (GetRequestId x # map GetRequestId (queue_items q))"
    using assms(5) by simp
  from mset_eq_imp_distinct_iff [OF this] have "distinct (map GetRequestId (queue_items t))"
    using assms(1,2) by (simp add: queue_inv_def acceptable_def)
  moreover have "set (queue_items t) = insert x (set (queue_items q))"
    using assms(5) by (metis set_mset_add_mset_insert set_mset_mset)
  ultimately show ?thesis
    using assms(1-4) by (auto simp: queue_inv_def acceptable_def)
qed

lemma queue_items_reqIndex [simp]: "queue_items (set_level i xs (q\<lparr>reqIndex := r\<rparr>)) = queue_items (set_level i xs q)"
proof -
  have "level (set_level i xs (q\<lparr>reqIndex := r\<rparr>)) = level (set_level i xs q)" by (simp add: fun_eq_iff)
  then show ?thesis by (simp add: queue_items_def levels_def)
qed

lemma ins_by_append: "ins_by (\<lambda>_ _. True) x ys = ys @ [x]"
  by (induction ys) auto

interpretation fifo: served_in_order Enqueue Front Dequeue CheckIsQueueEmpty maxPriority queue_items
  queue_inv fifo_before
proof unfold_locales
  fix q :: sched_queue and x
  assume q: "queue_inv q"
  show "Front q = (case queue_items q of [] \<Rightarrow> None | x # _ \<Rightarrow> Some x)"
    using queue_inv_empty_iff [OF q] pop_level_items(3) [OF q] top_level_None [of q "maxPriority q"]
    by (auto simp: Front_def queue_items_def split: option.split list.split)
  show "queue_inv (snd (Dequeue q)) \<and> queue_items (snd (Dequeue q)) = tl (queue_items q) \<and>
      maxPriority (snd (Dequeue q)) = maxPriority q"
    using q queue_inv_empty_iff [OF q] pop_level_items [OF q] top_level_None [of q "maxPriority q"]
    by (auto simp: Dequeue_def queue_items_def split: option.split)
  show "CheckIsQueueEmpty q \<longleftrightarrow> queue_items q = []" by (rule queue_inv_empty_iff [OF q])
  assume a: "acceptable (maxPriority q) (queue_items q) x"
  let ?t = "set_level (GetPriority x) (level q (GetPriority x) @ [x]) (q\<lparr>reqIndex := finsert (GetRequestId x) (reqIndex q)\<rparr>)"
  have e: "Enqueue (Some x) q = (Status_OK, ?t)"
    using a by (simp add: Enqueue_def acceptable_def Let_def)
  have i: "queue_items ?t = ins_by fifo_before x (queue_items q)"
    using insert_on_level [of q x fifo_before "\<lambda>_ _. True"] q a
    by (simp add: ins_by_append fifo_before_def queue_inv_def acceptable_def)
  have "queue_inv ?t" by (rule queue_inv_insert [OF q a refl]) (use i in auto)
  then show "Enqueue (Some x) q = (Status_OK, snd (Enqueue (Some x) q)) \<and> queue_inv (snd (Enqueue (Some x) q)) \<and>
      maxPriority (snd (Enqueue (Some x) q)) = maxPriority q \<and>
      queue_items (snd (Enqueue (Some x) q)) = ins_by fifo_before x (queue_items q)"
    using e i by simp
qed

interpretation by_time: served_in_order Time_Enqueue Time_Front Time_Dequeue CheckIsQueueEmpty maxPriority queue_items
  queue_inv time_before
proof unfold_locales
  fix q :: sched_queue and x
  assume q: "queue_inv q"
  show "Time_Front q = (case queue_items q of [] \<Rightarrow> None | x # _ \<Rightarrow> Some x)"
    using pop_level_items(3) [OF q] top_level_None [of q "maxPriority q"]
    by (auto simp: Time_Front_def queue_items_def split: option.split list.split)
  show "queue_inv (snd (Time_Dequeue q)) \<and> queue_items (snd (Time_Dequeue q)) = tl (queue_items q) \<and>
      maxPriority (snd (Time_Dequeue q)) = maxPriority q"
    using q pop_level_items [OF q] top_level_None [of q "maxPriority q"]
    by (auto simp: Time_Dequeue_def queue_items_def split: option.split)
  show "CheckIsQueueEmpty q \<longleftrightarrow> queue_items q = []" by (rule queue_inv_empty_iff [OF q])
  assume a: "acceptable (maxPriority q) (queue_items q) x"
  let ?t = "set_level (GetPriority x) (heap_push x (level q (GetPriority x))) (q\<lparr>reqIndex := finsert (GetRequestId x) (reqIndex q)\<rparr>)"
  have e: "Time_Enqueue (Some x) q = (Status_OK, ?t)"
    using a by (simp add: Time_Enqueue_def acceptable_def Let_def)
  have i: "queue_items ?t = ins_by time_before x (queue_items q)"
    using insert_on_level [of q x time_before "\<lambda>y x. later_item x y"] q a
    by (simp add: heap_push_def time_before_def queue_inv_def acceptable_def)
  have s: "set (heap_push x ys) = insert x (set ys)" for ys
    by (metis heap_push_def mset_ins_by set_mset_add_mset_insert set_mset_mset)
  have "queue_inv ?t" by (rule queue_inv_insert [OF q a refl]) (use i s in auto)
  then show "Time_Enqueue (Some x) q = (Status_OK, snd (Time_Enqueue (Some x) q)) \<and>
      queue_inv (snd (Time_Enqueue (Some x) q)) \<and> maxPriority (snd (Time_Enqueue (Some x) q)) = maxPriority q \<and>
      queue_items (snd (Time_Enqueue (Some x) q)) = ins_by time_before x (queue_items q)"
    using e i by simp
qed

section \<open>Equivalence with sorting\<close>

lemma filter_ins_le:
  fixes f :: "queue_item \<Rightarrow> int"
  shows "sorted (map f ys) \<Longrightarrow> filter (\<lambda>z. k = f z) (ins_by (\<lambda>y x. f y \<le> f x) x ys) =
    filter (\<lambda>z. k = f z) ys @ (if k = f x then [x] else [])"
proof (induction ys)
  case (Cons y ys)
  show ?case
  proof (cases "f y \<le> f x")
    case True
    then show ?thesis using Cons by (cases "k = f y"; cases "k = f x") auto
  next
    case False
    then have "\<forall>z \<in> set (y # ys). f z \<noteq> f x" using Cons.prems by auto
    then have "filter (\<lambda>z. f x = f z) (y # ys) = []" by (metis (mono_tags, lifting) filter_False)
    then show ?thesis using False by auto
  qed
qed simp

lemma sorted_ins_le:
  fixes f :: "queue_item \<Rightarrow> int"
  shows "sorted (map f ys) \<Longrightarrow> sorted (map f (ins_by (\<lambda>y x. f y \<le> f x) x ys))"
proof (induction ys)
  case (Cons y ys)
  have "set (ins_by (\<lambda>y x. f y \<le> f x) x ys) = insert x (set ys)"
    by (metis mset_ins_by set_mset_add_mset_insert set_mset_mset)
  then show ?case using Cons by auto
qed simp

lemma fold_ins_le:
  fixes f :: "queue_item \<Rightarrow> int"
  shows "fold (ins_by (\<lambda>y x. f y \<le> f x)) xs [] = sort_key f xs"
proof -
  have "mset (fold (ins_by (\<lambda>y x. f y \<le> f x)) xs ys) = mset xs + mset ys" for ys
    by (induction xs arbitrary: ys) auto
  moreover have "sorted (map f ys) \<Longrightarrow> sorted (map f (fold (ins_by (\<lambda>y x. f y \<le> f x)) xs ys)) \<and>
      (\<forall>k. filter (\<lambda>z. k = f z) (fold (ins_by (\<lambda>y x. f y \<le> f x)) xs ys) =
        filter (\<lambda>z. k = f z) ys @ filter (\<lambda>z. k = f z) xs)" for ys
  proof (induction xs arbitrary: ys)
    case (Cons x xs)
    then show ?case using sorted_ins_le [OF Cons.prems, of x] filter_ins_le [OF Cons.prems] by auto
  qed simp
  ultimately show ?thesis
    by (intro sym [OF properties_for_sort_key]) auto
qed

lemma queue_inv_new: "queue_inv (ScheduleQueue m)" "queue_items (ScheduleQueue m) = []"
proof -
  have l: "level (ScheduleQueue m) = (\<lambda>i. [])" by (simp add: ScheduleQueue_def level_def fun_eq_iff)
  have "concat (map (\<lambda>i. []) xs) = ([] :: queue_item list)" for xs :: "nat list" by (induction xs) auto
  then show i: "queue_items (ScheduleQueue m) = []" by (simp add: queue_items_def levels_def l)
  show "queue_inv (ScheduleQueue m)" by (simp add: queue_inv_def i l) (simp add: ScheduleQueue_def)
qed

lemma maxPriority_new [simp]: "maxPriority (ScheduleQueue m) = m"
  by (simp add: ScheduleQueue_def)

definition enqueue_list :: "(queue_item option \<Rightarrow> sched_queue \<Rightarrow> status \<times> sched_queue) \<Rightarrow> queue_item list \<Rightarrow> sched_queue \<Rightarrow> sched_queue" where
  "enqueue_list enq xs q = fold (\<lambda>x q. snd (enq (Some x) q)) xs q"

text \<open>
  C29: The plain queue is a stable sort by priority: requests with distinct ids and admissible
  priorities, enqueued in some order and then served until the queue is empty, come out as that
  list sorted by falling priority, equal priorities in the order of arrival.
\<close>

theorem fifo_queue_is_stable_sort:
  assumes "distinct (map GetRequestId xs)" "\<forall>x \<in> set xs. GetRequestId x \<noteq> [] \<and> GetPriority x \<le> m"
  shows "drain Front Dequeue (length xs) (enqueue_list Enqueue xs (ScheduleQueue m)) =
    sort_key (\<lambda>x. - int (GetPriority x)) xs"
proof -
  let ?q = "enqueue_list Enqueue xs (ScheduleQueue m)"
  have "\<forall>x \<in> set xs. acceptable (maxPriority (ScheduleQueue m)) (queue_items (ScheduleQueue m)) x"
    using assms(2) by (simp add: acceptable_def queue_inv_new)
  note e = fifo.enqueue_all [OF queue_inv_new(1) assms(1) this, folded enqueue_list_def]
  have "fifo_before = (\<lambda>y x. - int (GetPriority y) \<le> - int (GetPriority x))"
    by (simp add: fifo_before_def fun_eq_iff)
  then have s: "queue_items ?q = sort_key (\<lambda>x. - int (GetPriority x)) xs"
    using e fold_ins_le [of "\<lambda>x. - int (GetPriority x)" xs] by (simp add: queue_inv_new)
  then show ?thesis using fifo.drain_contents [of ?q "length xs"] e by simp
qed

text \<open>The order of service of the time-sorted queue, as a key.\<close>

definition service_key :: "queue_item \<Rightarrow> int \<times> int \<times> string" where
  "service_key x = (- int (GetPriority x), CreatedTimestamp x, GetRequestId x)"

lemma time_before_key: "time_before = lt_by service_key"
  by (auto simp: time_before_def later_item_def lt_by_def service_key_def fun_eq_iff)

text \<open>
  C28: The time-sorted queue is a sort by priority, time of receipt and request id: requests
  with distinct ids and admissible priorities come out by falling priority, equal priorities by
  the time they were received, and equal times by their ids, whatever the order of arrival.
\<close>

theorem time_queue_is_sort:
  assumes "distinct (map GetRequestId xs)" "\<forall>x \<in> set xs. GetRequestId x \<noteq> [] \<and> GetPriority x \<le> m"
  shows "drain Time_Front Time_Dequeue (length xs) (enqueue_list Time_Enqueue xs (ScheduleQueue m)) =
    sort_key service_key xs"
proof -
  let ?q = "enqueue_list Time_Enqueue xs (ScheduleQueue m)"
  have "\<forall>x \<in> set xs. acceptable (maxPriority (ScheduleQueue m)) (queue_items (ScheduleQueue m)) x"
    using assms(2) by (simp add: acceptable_def queue_inv_new)
  note e = by_time.enqueue_all [OF queue_inv_new(1) assms(1) this, folded enqueue_list_def]
  have m: "mset (fold (ins_by lt) xs ys) = mset xs + mset ys" for lt and ys :: "queue_item list"
    by (induction xs arbitrary: ys) auto
  have "sorted_wrt (\<lambda>a b. \<not> lt_by service_key b a) (fold (ins_by (lt_by service_key)) xs ys)"
    if "sorted_wrt (\<lambda>a b. \<not> lt_by service_key b a) ys" for ys
    using that by (induction xs arbitrary: ys) (simp_all add: lt_by.sorted_ins_by)
  then have "sorted (map service_key (queue_items ?q))"
    using e by (simp add: time_before_key queue_inv_new flip: sorted_wrt_not_gt)
  moreover have "inj_on service_key (set xs)"
    using assms(1) by (auto simp: service_key_def distinct_map inj_on_def)
  ultimately have "sort_key service_key xs = queue_items ?q"
    using e m [of time_before "[]"] by (intro sort_key_inj_key_eq) (simp_all add: queue_inv_new)
  moreover have "length (queue_items ?q) = length xs" by (metis calculation length_sort)
  ultimately show ?thesis using by_time.drain_contents [of ?q "length xs"] e by simp
qed

text \<open>Three requests: the second has the higher priority, the third was received before the first.\<close>

definition demo_instance :: "string \<Rightarrow> int \<Rightarrow> string \<Rightarrow> instance_item" where
  "demo_instance i prio time = \<lparr>ii_req = Some \<lparr>sq_requestid = i,
     sq_instance = Some (instance_default\<lparr>in_extensions := fmupd RECEIVED_TIMESTAMP time fmempty,
       in_scheduleoption := Some (schedule_option_default\<lparr>so_priority := prio\<rparr>)\<rparr>)\<rparr>,
     ii_cancelTag = CancelInit, ii_hasFailed = False\<rparr>"

definition demo_item :: "string \<Rightarrow> int \<Rightarrow> string \<Rightarrow> queue_item" where
  "demo_item i prio time = InstanceItem (demo_instance i prio time)"

definition demo_items :: "queue_item list" where
  "demo_items = [demo_item ''r1'' 0 ''20'', demo_item ''r2'' 1 ''30'', demo_item ''r3'' 0 ''10'']"

lemma demo_items_ok:
  "distinct (map GetRequestId demo_items)" "\<forall>x \<in> set demo_items. GetRequestId x \<noteq> [] \<and> GetPriority x \<le> 1"
  by code_simp+

theorem fifo_queue_is_stable_sort_witness:
  "map GetRequestId (drain Front Dequeue 3 (enqueue_list Enqueue demo_items (ScheduleQueue 1))) =
     [''r2'', ''r1'', ''r3'']"
proof -
  have "length demo_items = 3" by (simp add: demo_items_def)
  then have "drain Front Dequeue 3 (enqueue_list Enqueue demo_items (ScheduleQueue 1)) =
      sort_key (\<lambda>x. - int (GetPriority x)) demo_items"
    using fifo_queue_is_stable_sort [OF demo_items_ok] by simp
  moreover have "map GetRequestId (sort_key (\<lambda>x. - int (GetPriority x)) demo_items) = [''r2'', ''r1'', ''r3'']"
    by code_simp
  ultimately show ?thesis by simp
qed

theorem time_queue_is_sort_witness:
  "map GetRequestId (drain Time_Front Time_Dequeue 3 (enqueue_list Time_Enqueue demo_items (ScheduleQueue 1))) =
     [''r2'', ''r3'', ''r1'']"
proof -
  have "length demo_items = 3" by (simp add: demo_items_def)
  then have "drain Time_Front Time_Dequeue 3 (enqueue_list Time_Enqueue demo_items (ScheduleQueue 1)) =
      sort_key service_key demo_items"
    using time_queue_is_sort [OF demo_items_ok] by simp
  moreover have "map GetRequestId (sort_key service_key demo_items) = [''r2'', ''r3'', ''r1'']"
    by code_simp
  ultimately show ?thesis by simp
qed

text \<open>With two requests of one id the queue loses one: after the first is served the id set is
  empty, and the queue says that it is.\<close>

theorem duplicate_id_hides_request:
  "let q = snd (Dequeue (enqueue_list Enqueue [demo_item ''r'' 0 ''1'', demo_item ''r'' 0 ''2''] (ScheduleQueue 1)))
   in CheckIsQueueEmpty q \<and> Front q = None \<and> level q 0 = [demo_item ''r'' 0 ''2'']"
  by code_simp

end
