(* ===== verification/Priority_Scheduler.thy ===== *)
theory Priority_Scheduler
  imports Sched_Queue
begin

text \<open>
  The priority scheduler (\<^verbatim>\<open>src/functionsystem/src/common/schedule_decision/scheduler\<close>): a running
  queue that is consumed in rounds, a pending queue for requests that found no resources, and a
  policy that decides which requests may be tried. Modelled for time-sorted queues (the strategy
  \<^verbatim>\<open>no_aggregate\<close>) and both policies, \<^verbatim>\<open>FIFO\<close> and \<^verbatim>\<open>FAIRNESS\<close>.

  The performers, which try to place a request, are parameters: they map the context of the round
  to a result and a new context. The bytes of an affinity (\<^verbatim>\<open>SerializeAsString\<close>) are the parameter
  \<open>ser\<close>. Setting a promise appends to \<open>answers\<close>; a promise keeps the first value it is given.
\<close>

section \<open>Policies\<close>

datatype priority_policy_type = FIFO | FAIRNESS

record 'ctx scheduler =
  policyType :: priority_policy_type
  affinityCount :: "(nat, (string, int) fmap) fmap"
  affinityMap :: "(nat, resource_affinity list) fmap"
  runningQueue :: sched_queue
  pendingQueue :: sched_queue
  preContext :: 'ctx
  hasRecorder :: bool
  scheduleErrs :: "(string, status) fmap"
  answers :: "(string \<times> status) list"

definition PriorityScheduler :: "bool \<Rightarrow> nat \<Rightarrow> priority_policy_type \<Rightarrow> 'ctx \<Rightarrow> 'ctx scheduler" where
  "PriorityScheduler recorder maxPrio policy ctx = \<lparr>policyType = policy, affinityCount = fmempty,
     affinityMap = fmempty, runningQueue = ScheduleQueue maxPrio, pendingQueue = ScheduleQueue maxPrio,
     preContext = ctx, hasRecorder = recorder, scheduleErrs = fmempty, answers = []\<rparr>"

definition NeedSuspend :: "status_code \<Rightarrow> int \<Rightarrow> bool" where
  "NeedSuspend resCode timeout \<longleftrightarrow>
     (if resCode \<noteq> RESOURCE_NOT_ENOUGH \<and> resCode \<noteq> AFFINITY_SCHEDULE_FAILED then False
      else if timeout = 0 then False else True)"

definition EMPTY_PENDING_AFFINITY_STRING :: string where "EMPTY_PENDING_AFFINITY_STRING = ''empty''"

definition item_option :: "instance_item \<Rightarrow> schedule_option" where
  "item_option i = (case ii_req i of None \<Rightarrow> schedule_option_default | Some r \<Rightarrow> scheduleoption (request_instance r))"

text \<open>The required part of a resource affinity, when there is one.\<close>

definition required_affinity :: "instance_item \<Rightarrow> resource_affinity option" where
  "required_affinity i =
     (case so_resource (item_option i) of
        None \<Rightarrow> None
      | Some a \<Rightarrow>
          if ra_requiredAffinity a = None \<and> ra_requiredAntiAffinity a = None then None
          else Some (a\<lparr>ra_preferredAffinity := None, ra_preferredAntiAffinity := None\<rparr>))"

definition has_pending :: "nat \<Rightarrow> string \<Rightarrow> 'ctx scheduler \<Rightarrow> bool" where
  "has_pending priority key s \<longleftrightarrow>
     list_ex (\<lambda>(p, counts). p \<ge> priority \<and> (case fmlookup counts key of None \<Rightarrow> False | Some n \<Rightarrow> n > 0))
       (sorted_list_of_fmap (affinityCount s))"

definition ExistNonAffinityPendingInstances :: "nat \<Rightarrow> 'ctx scheduler \<Rightarrow> bool" where
  "ExistNonAffinityPendingInstances priority s = has_pending priority EMPTY_PENDING_AFFINITY_STRING s"

definition bump :: "nat \<Rightarrow> string \<Rightarrow> 'ctx scheduler \<Rightarrow> 'ctx scheduler" where
  "bump p key s =
     (let counts = (case fmlookup (affinityCount s) p of Some c \<Rightarrow> c | None \<Rightarrow> fmempty);
          n = (case fmlookup counts key of Some n \<Rightarrow> n | None \<Rightarrow> 0)
      in s\<lparr>affinityCount := fmupd p (fmupd key (n + 1) counts) (affinityCount s)\<rparr>)"

definition StorePendingAffinity ::
  "(resource_affinity \<Rightarrow> string) \<Rightarrow> instance_item \<Rightarrow> 'ctx scheduler \<Rightarrow> 'ctx scheduler" where
  "StorePendingAffinity ser i s =
     (let p = instance_priority i
      in case required_affinity i of
           None \<Rightarrow> bump p EMPTY_PENDING_AFFINITY_STRING s
         | Some a \<Rightarrow>
             let counts = (case fmlookup (affinityCount s) p of Some c \<Rightarrow> c | None \<Rightarrow> fmempty);
                 old = (case fmlookup (affinityMap s) p of Some as \<Rightarrow> as | None \<Rightarrow> []);
                 s = (if fmlookup counts (ser a) = None
                      then s\<lparr>affinityMap := fmupd p (old @ [a]) (affinityMap s)\<rparr> else s)
             in bump p (ser a) s)"

definition StorePendingAffinity_group ::
  "(resource_affinity \<Rightarrow> string) \<Rightarrow> group_item \<Rightarrow> 'ctx scheduler \<Rightarrow> 'ctx scheduler" where
  "StorePendingAffinity_group ser g s =
     (case gi_groupReqs g of
        [] \<Rightarrow> s
      | i # is \<Rightarrow>
          if gi_isRange g then StorePendingAffinity ser i s
          else fold (StorePendingAffinity ser) (i # is) s)"

definition AddPendingAffinityToInstance :: "'ctx scheduler \<Rightarrow> instance_item \<Rightarrow> instance_item" where
  "AddPendingAffinityToInstance s i =
     (case ii_req i of
        None \<Rightarrow> i
      | Some r \<Rightarrow>
          let ins = request_instance r;
              pend = concat (map snd (filter (\<lambda>(p, as). p \<ge> instance_priority i)
                       (sorted_list_of_fmap (affinityMap s))))
          in i\<lparr>ii_req := Some (r\<lparr>sq_instance := Some
                 (ins\<lparr>in_scheduleoption := Some ((scheduleoption ins)\<lparr>so_pending := pend\<rparr>)\<rparr>)\<rparr>)\<rparr>)"

definition HasSimilarResourceDemand ::
  "(resource_affinity \<Rightarrow> string) \<Rightarrow> instance_item \<Rightarrow> 'ctx scheduler \<Rightarrow> bool" where
  "HasSimilarResourceDemand ser i s \<longleftrightarrow>
     (let priority = instance_priority i
      in if ExistNonAffinityPendingInstances priority s then True
         else
           let key = (case required_affinity i of None \<Rightarrow> EMPTY_PENDING_AFFINITY_STRING | Some a \<Rightarrow> ser a)
           in has_pending priority key s)"

fun HasSimilarPendingRequest ::
  "(resource_affinity \<Rightarrow> string) \<Rightarrow> queue_item \<Rightarrow> 'ctx scheduler \<Rightarrow> bool" where
  "HasSimilarPendingRequest ser (InstanceItem i) s \<longleftrightarrow> HasSimilarResourceDemand ser i s"
| "HasSimilarPendingRequest ser (GroupItem g) s \<longleftrightarrow>
     (case gi_groupReqs g of
        [] \<Rightarrow> False
      | i # is \<Rightarrow>
          if gi_isRange g then HasSimilarResourceDemand ser i s
          else list_ex (\<lambda>i. HasSimilarResourceDemand ser i s) (i # is))"

definition CanSchedule :: "(resource_affinity \<Rightarrow> string) \<Rightarrow> queue_item \<Rightarrow> 'ctx scheduler \<Rightarrow> bool" where
  "CanSchedule ser x s \<longleftrightarrow>
     (case policyType s of FIFO \<Rightarrow> True | FAIRNESS \<Rightarrow> \<not> HasSimilarPendingRequest ser x s)"

definition PrepareForScheduling :: "'ctx scheduler \<Rightarrow> queue_item \<Rightarrow> queue_item" where
  "PrepareForScheduling s x =
     (case policyType s of
        FIFO \<Rightarrow> x
      | FAIRNESS \<Rightarrow>
          (case x of
             InstanceItem i \<Rightarrow> InstanceItem (AddPendingAffinityToInstance s i)
           | GroupItem g \<Rightarrow> GroupItem (g\<lparr>gi_groupReqs := map (AddPendingAffinityToInstance s) (gi_groupReqs g)\<rparr>)))"

definition ClearPendingInfos :: "'ctx scheduler \<Rightarrow> 'ctx scheduler" where
  "ClearPendingInfos s =
     (case policyType s of
        FIFO \<Rightarrow> s
      | FAIRNESS \<Rightarrow> s\<lparr>affinityCount := fmempty, affinityMap := fmempty\<rparr>)"

definition StorePendingInfo ::
  "(resource_affinity \<Rightarrow> string) \<Rightarrow> queue_item \<Rightarrow> 'ctx scheduler \<Rightarrow> 'ctx scheduler" where
  "StorePendingInfo ser x s =
     (case policyType s of
        FIFO \<Rightarrow> s
      | FAIRNESS \<Rightarrow>
          (case x of
             InstanceItem i \<Rightarrow> StorePendingAffinity ser i s
           | GroupItem g \<Rightarrow> StorePendingAffinity_group ser g s))"

section \<open>The scheduler\<close>

text \<open>The performers: placing an instance, placing a group, and undoing.\<close>

record 'ctx performers =
  doInstance :: "'ctx \<Rightarrow> instance_item \<Rightarrow> status \<times> 'ctx"
  doGroup :: "'ctx \<Rightarrow> group_item \<Rightarrow> status \<times> 'ctx"
  rollBack :: "'ctx \<Rightarrow> queue_item \<Rightarrow> status \<Rightarrow> 'ctx"

definition Sched_Enqueue ::
  "(resource_affinity \<Rightarrow> string) \<Rightarrow> queue_item \<Rightarrow> 'ctx scheduler \<Rightarrow> status \<times> 'ctx scheduler" where
  "Sched_Enqueue ser x s =
     (if \<not> CanSchedule ser x s
      then let (st, q) = Time_Enqueue (Some x) (pendingQueue s) in (st, s\<lparr>pendingQueue := q\<rparr>)
      else let (st, q) = Time_Enqueue (Some x) (runningQueue s) in (st, s\<lparr>runningQueue := q\<rparr>))"

definition ActivatePendingRequests :: "'ctx scheduler \<Rightarrow> 'ctx scheduler" where
  "ActivatePendingRequests s =
     (if CheckIsQueueEmpty (pendingQueue s) then s
      else
        let (q, _) = Time_Extend (pendingQueue s) (runningQueue s)
        in ClearPendingInfos (s\<lparr>runningQueue := q, pendingQueue := ScheduleQueue (maxPriority (pendingQueue s))\<rparr>))"

definition HandleResourceInfoUpdate :: "'ctx \<Rightarrow> 'ctx scheduler \<Rightarrow> 'ctx scheduler" where
  "HandleResourceInfoUpdate ctx s = s\<lparr>preContext := ctx\<rparr>"

definition set_promise :: "queue_item \<Rightarrow> status \<Rightarrow> 'ctx scheduler \<Rightarrow> 'ctx scheduler" where
  "set_promise x st s = s\<lparr>answers := answers s @ [(GetRequestId x, st)]\<rparr>"

definition EraseRecord :: "queue_item \<Rightarrow> 'ctx scheduler \<Rightarrow> 'ctx scheduler" where
  "EraseRecord x s =
     (if \<not> hasRecorder s then s
      else if HasFailed x then s\<lparr>scheduleErrs := fmdrop (GetRequestId x) (scheduleErrs s)\<rparr> else s)"

definition dequeue_running :: "'ctx scheduler \<Rightarrow> 'ctx scheduler" where
  "dequeue_running s = s\<lparr>runningQueue := snd (Time_Dequeue (runningQueue s))\<rparr>"

definition enqueue_pending :: "queue_item \<Rightarrow> 'ctx scheduler \<Rightarrow> 'ctx scheduler" where
  "enqueue_pending x s = s\<lparr>pendingQueue := snd (Time_Enqueue (Some x) (pendingQueue s))\<rparr>"

definition suspend ::
  "(resource_affinity \<Rightarrow> string) \<Rightarrow> queue_item \<Rightarrow> status \<Rightarrow> 'ctx scheduler \<Rightarrow> 'ctx scheduler" where
  "suspend ser x result s =
     (let s = s\<lparr>scheduleErrs := fmupd (GetRequestId x) result (scheduleErrs s)\<rparr>;
          x = TagFailure x
      in StorePendingInfo ser x (enqueue_pending x s))"

fun cancel_reason :: "cancel_tag \<Rightarrow> string" where
  "cancel_reason (CancelOK reason) = reason"
| "cancel_reason _ = ''timeout''"

definition OnScheduleDone_instance ::
  "(resource_affinity \<Rightarrow> string) \<Rightarrow> 'ctx performers \<Rightarrow> status \<Rightarrow> instance_item \<Rightarrow> 'ctx scheduler \<Rightarrow> 'ctx scheduler" where
  "OnScheduleDone_instance ser perf result i s =
     (let x = InstanceItem i
      in if ii_cancelTag i \<noteq> CancelInit
         then
           let s = set_promise x (Status ERR_SCHEDULE_CANCELED (cancel_reason (ii_cancelTag i))) s;
               s = s\<lparr>preContext := rollBack perf (preContext s) x result\<rparr>
           in EraseRecord x s
         else if NeedSuspend (StatusCode result) (so_scheduleTimeoutMs (item_option i)) \<and>
                 \<not> NeedCreateAgentInDomain (case ii_req i of None \<Rightarrow> instance_default | Some r \<Rightarrow> request_instance r)
                     (StatusCode result) \<and> hasRecorder s
         then suspend ser x result s
         else set_promise x result (EraseRecord x s))"

definition OnScheduleDone_group ::
  "(resource_affinity \<Rightarrow> string) \<Rightarrow> 'ctx performers \<Rightarrow> status \<Rightarrow> group_item \<Rightarrow> 'ctx scheduler \<Rightarrow> 'ctx scheduler" where
  "OnScheduleDone_group ser perf result g s =
     (let x = GroupItem g
      in if gi_cancelTag g \<noteq> CancelInit
         then
           let s = set_promise x (Status ERR_SCHEDULE_CANCELED (cancel_reason (gi_cancelTag g))) s;
               s = s\<lparr>preContext := rollBack perf (preContext s) x result\<rparr>
           in EraseRecord x s
         else if NeedSuspend (StatusCode result) (gi_timeout g) \<and> hasRecorder s
         then suspend ser x result (s\<lparr>preContext := rollBack perf (preContext s) x result\<rparr>)
         else
           let s = set_promise x result (EraseRecord x s)
           in if StatusCode result \<noteq> SUCCESS then s\<lparr>preContext := rollBack perf (preContext s) x result\<rparr> else s)"

definition try_item ::
  "(resource_affinity \<Rightarrow> string) \<Rightarrow> 'ctx performers \<Rightarrow> queue_item \<Rightarrow> 'ctx scheduler \<Rightarrow> 'ctx scheduler" where
  "try_item ser perf x s =
     (case x of
        InstanceItem _ \<Rightarrow>
          (case PrepareForScheduling s x of
             InstanceItem i \<Rightarrow>
               let (result, ctx) = doInstance perf (preContext s) i
               in OnScheduleDone_instance ser perf result i (s\<lparr>preContext := ctx\<rparr>)
           | GroupItem g \<Rightarrow> s)
      | GroupItem g0 \<Rightarrow>
          if gi_groupReqs g0 = [] then set_promise x Status_OK s
          else
            (case PrepareForScheduling s x of
               GroupItem g \<Rightarrow>
                 let (result, ctx) = doGroup perf (preContext s) g
                 in OnScheduleDone_group ser perf result g (s\<lparr>preContext := ctx\<rparr>)
             | InstanceItem i \<Rightarrow> s))"

definition DoConsume ::
  "(resource_affinity \<Rightarrow> string) \<Rightarrow> 'ctx performers \<Rightarrow> 'ctx scheduler \<Rightarrow> 'ctx scheduler" where
  "DoConsume ser perf s =
     (case Time_Front (runningQueue s) of
        None \<Rightarrow> s
      | Some x \<Rightarrow>
          (case cancelTag x of
             CancelOK reason \<Rightarrow> dequeue_running (set_promise x (Status ERR_SCHEDULE_CANCELED reason) s)
           | _ \<Rightarrow>
               if \<not> CanSchedule ser x s then dequeue_running (enqueue_pending x s)
               else dequeue_running (try_item ser perf x s)))"

text \<open>The loop runs while the queue says it is not empty. \<open>None\<close> means that it never ends.\<close>

partial_function (option) ConsumeRunningQueue ::
  "(resource_affinity \<Rightarrow> string) \<Rightarrow> 'ctx performers \<Rightarrow> 'ctx scheduler \<Rightarrow> 'ctx scheduler option" where
  "ConsumeRunningQueue ser perf s =
     (if CheckIsQueueEmpty (runningQueue s) then Some s
      else ConsumeRunningQueue ser perf (DoConsume ser perf s))"

declare ConsumeRunningQueue.simps [code]

end
