(* ===== verification/Scheduler_Correct.thy ===== *)
theory Scheduler_Correct
  imports Priority_Scheduler
begin

text \<open>
  Correctness of the priority scheduler: a round ends and settles every request of the running
  queue, by an answer or by moving it to the pending queue; under the fairness policy a suspended
  request is not overtaken.
\<close>

section \<open>What a round does with one item\<close>

text \<open>The counts of pending demands are positive.\<close>

definition counts_pos :: "(nat, (string, int) fmap) fmap \<Rightarrow> bool" where
  "counts_pos m \<longleftrightarrow> (\<forall>p c. fmlookup m p = Some c \<longrightarrow> (\<forall>k n. fmlookup c k = Some n \<longrightarrow> n > 0))"

text \<open>\<open>settled x s t\<close>: from \<open>s\<close> to \<open>t\<close> the item \<open>x\<close> is answered once, or put once into the pending
  queue, perhaps marked, under its id and priority.\<close>

definition settled :: "queue_item \<Rightarrow> 'ctx scheduler \<Rightarrow> 'ctx scheduler \<Rightarrow> bool" where
  "settled x s t \<longleftrightarrow> runningQueue t = runningQueue s \<and> policyType t = policyType s \<and>
     (counts_pos (affinityCount s) \<longrightarrow> counts_pos (affinityCount t)) \<and>
     (policyType s = FIFO \<longrightarrow> affinityCount t = affinityCount s) \<and>
     ((\<exists>st. answers t = answers s @ [(GetRequestId x, st)]) \<and> pendingQueue t = pendingQueue s \<and>
        affinityCount t = affinityCount s \<or>
      answers t = answers s \<and> (\<exists>x'. GetRequestId x' = GetRequestId x \<and> GetPriority x' = GetPriority x \<and>
        pendingQueue t = snd (Time_Enqueue (Some x') (pendingQueue s))))"

lemma bump_sels [simp]:
  "runningQueue (bump p k s) = runningQueue s" "pendingQueue (bump p k s) = pendingQueue s"
  "answers (bump p k s) = answers s" "preContext (bump p k s) = preContext s"
  "policyType (bump p k s) = policyType s" "hasRecorder (bump p k s) = hasRecorder s"
  by (simp_all add: bump_def Let_def)

lemma bump_pos: "counts_pos (affinityCount s) \<Longrightarrow> counts_pos (affinityCount (bump p k s))"
proof -
  assume pos: "counts_pos (affinityCount s)"
  let ?c = "case fmlookup (affinityCount s) p of Some c \<Rightarrow> c | None \<Rightarrow> fmempty"
  have c: "fmlookup ?c k' = Some n \<Longrightarrow> n > 0" for k' n
    using pos by (cases "fmlookup (affinityCount s) p") (auto simp: counts_pos_def)
  then have "fmlookup (fmupd k ((case fmlookup ?c k of Some n \<Rightarrow> n | None \<Rightarrow> 0) + 1) ?c) k' = Some n \<Longrightarrow> n > 0" for k' n
    by (cases "fmlookup ?c k") (auto dest: c split: if_splits intro: order.strict_trans)
  then show ?thesis
    using pos unfolding bump_def Let_def counts_pos_def by (auto split: if_splits)
qed

lemma StorePendingAffinity_pos:
  "counts_pos (affinityCount s) \<Longrightarrow> counts_pos (affinityCount (StorePendingAffinity ser i s))"
  by (auto simp: StorePendingAffinity_def Let_def bump_pos split: option.split)

lemma fold_StorePendingAffinity_pos:
  "counts_pos (affinityCount s) \<Longrightarrow> counts_pos (affinityCount (fold (StorePendingAffinity ser) is s))"
  by (induction "is" arbitrary: s) (simp_all add: StorePendingAffinity_pos)

lemma StorePendingInfo_pos:
  "counts_pos (affinityCount s) \<Longrightarrow> counts_pos (affinityCount (StorePendingInfo ser x s))"
  by (simp add: StorePendingInfo_def StorePendingAffinity_group_def StorePendingAffinity_pos
      fold_StorePendingAffinity_pos split: priority_policy_type.split queue_item.split list.split)

lemma StorePendingAffinity_sels [simp]:
  "runningQueue (StorePendingAffinity ser i s) = runningQueue s"
  "pendingQueue (StorePendingAffinity ser i s) = pendingQueue s"
  "answers (StorePendingAffinity ser i s) = answers s"
  "preContext (StorePendingAffinity ser i s) = preContext s"
  "policyType (StorePendingAffinity ser i s) = policyType s"
  by (simp_all add: StorePendingAffinity_def Let_def split: option.split)

lemma fold_StorePendingAffinity_sels [simp]:
  "runningQueue (fold (StorePendingAffinity ser) is s) = runningQueue s"
  "pendingQueue (fold (StorePendingAffinity ser) is s) = pendingQueue s"
  "answers (fold (StorePendingAffinity ser) is s) = answers s"
  "preContext (fold (StorePendingAffinity ser) is s) = preContext s"
  "policyType (fold (StorePendingAffinity ser) is s) = policyType s"
  by (induction "is" arbitrary: s) simp_all

lemma StorePendingInfo_sels [simp]:
  "runningQueue (StorePendingInfo ser x s) = runningQueue s"
  "pendingQueue (StorePendingInfo ser x s) = pendingQueue s"
  "answers (StorePendingInfo ser x s) = answers s"
  "preContext (StorePendingInfo ser x s) = preContext s"
  "policyType (StorePendingInfo ser x s) = policyType s"
  by (simp_all add: StorePendingInfo_def StorePendingAffinity_group_def
      split: priority_policy_type.split queue_item.split list.split)

lemma EraseRecord_sels [simp]:
  "runningQueue (EraseRecord x s) = runningQueue s" "pendingQueue (EraseRecord x s) = pendingQueue s"
  "answers (EraseRecord x s) = answers s" "preContext (EraseRecord x s) = preContext s"
  "policyType (EraseRecord x s) = policyType s" "affinityCount (EraseRecord x s) = affinityCount s" "hasRecorder (EraseRecord x s) = hasRecorder s"
  by (simp_all add: EraseRecord_def)

lemma StorePendingInfo_FIFO: "policyType s = FIFO \<Longrightarrow> StorePendingInfo ser x s = s"
  by (simp add: StorePendingInfo_def)

lemma suspend_settled: "settled x s (suspend ser x st s)"
  by (auto simp: settled_def suspend_def enqueue_pending_def Let_def StorePendingInfo_pos StorePendingInfo_FIFO intro!: exI [of _ "TagFailure x"])

lemma settled_ctx: "settled x (s\<lparr>preContext := c\<rparr>) t = settled x s t"
  by (simp add: settled_def)

lemma settled_same: "GetRequestId x' = GetRequestId x \<Longrightarrow> GetPriority x' = GetPriority x \<Longrightarrow> settled x' s t = settled x s t"
  by (simp add: settled_def)

lemma done_instance_settled: "settled (InstanceItem i) s (OnScheduleDone_instance ser perf st i s)"
  using suspend_settled [of "InstanceItem i" s ser st]
  by (auto simp: OnScheduleDone_instance_def Let_def) (auto simp: settled_def set_promise_def)

lemma done_group_settled: "settled (GroupItem g) s (OnScheduleDone_group ser perf st g s)"
proof -
  have "settled (GroupItem g) s (suspend ser (GroupItem g) st (s\<lparr>preContext := c\<rparr>))" for c
    using suspend_settled [of "GroupItem g" "s\<lparr>preContext := c\<rparr>" ser st] by (simp only: settled_ctx)
  moreover have "settled (GroupItem g) s (set_promise (GroupItem g) r (s\<lparr>preContext := c\<rparr>))"
    "settled (GroupItem g) s (set_promise (GroupItem g) r (EraseRecord x s))"
    "settled (GroupItem g) s ((set_promise (GroupItem g) r (EraseRecord x s))\<lparr>preContext := c\<rparr>)"
    "settled (GroupItem g) s (EraseRecord x ((set_promise (GroupItem g) r s)\<lparr>preContext := c\<rparr>))" for c r x
    by (simp_all add: settled_def set_promise_def)
  ultimately show ?thesis
    by (simp add: OnScheduleDone_group_def Let_def)
qed

lemma AddPending_sels [simp]:
  "GetRequestId (InstanceItem (AddPendingAffinityToInstance s i)) = GetRequestId (InstanceItem i)"
  "instance_priority (AddPendingAffinityToInstance s i) = instance_priority i"
  by (auto simp: AddPendingAffinityToInstance_def instance_priority_def request_instance_def scheduleoption_def
      instance_default_def schedule_option_default_def Let_def split: option.split)

lemma Prepare_instance:
  "\<exists>i'. PrepareForScheduling s (InstanceItem i) = InstanceItem i' \<and>
     GetRequestId (InstanceItem i') = GetRequestId (InstanceItem i) \<and> instance_priority i' = instance_priority i"
  by (simp add: PrepareForScheduling_def del: GetRequestId.simps split: priority_policy_type.split)

lemma Prepare_group:
  "\<exists>g'. PrepareForScheduling s (GroupItem g) = GroupItem g' \<and>
     GetRequestId (GroupItem g') = GetRequestId (GroupItem g) \<and> GetPriority (GroupItem g') = GetPriority (GroupItem g)"
  by (auto simp: PrepareForScheduling_def split: priority_policy_type.split list.split)

lemma try_item_settled: "settled x s (try_item ser perf x s)"
proof (cases x)
  case (InstanceItem i)
  obtain i' where i': "PrepareForScheduling s (InstanceItem i) = InstanceItem i'"
    "GetRequestId (InstanceItem i') = GetRequestId (InstanceItem i)" "instance_priority i' = instance_priority i"
    using Prepare_instance by blast
  obtain st c where r: "doInstance perf (preContext s) i' = (st, c)" by fastforce
  have "settled (InstanceItem i') s (OnScheduleDone_instance ser perf st i' (s\<lparr>preContext := c\<rparr>))"
    using done_instance_settled [of i' "s\<lparr>preContext := c\<rparr>" ser perf st] by (simp only: settled_ctx)
  then show ?thesis
    using settled_same [of "InstanceItem i'" "InstanceItem i" s] i'(2,3)
    by (simp add: InstanceItem try_item_def i'(1) r del: GetRequestId.simps)
next
  case (GroupItem g)
  obtain g' where g': "PrepareForScheduling s (GroupItem g) = GroupItem g'"
    "GetRequestId (GroupItem g') = GetRequestId (GroupItem g)" "GetPriority (GroupItem g') = GetPriority (GroupItem g)"
    using Prepare_group by blast
  obtain st c where r: "doGroup perf (preContext s) g' = (st, c)" by fastforce
  have "settled (GroupItem g') s (OnScheduleDone_group ser perf st g' (s\<lparr>preContext := c\<rparr>))"
    using done_group_settled [of g' "s\<lparr>preContext := c\<rparr>" ser perf st] by (simp only: settled_ctx)
  then have "settled (GroupItem g) s (OnScheduleDone_group ser perf st g' (s\<lparr>preContext := c\<rparr>))"
    using settled_same [OF g'(2,3)] by blast
  moreover have "settled (GroupItem g) s (set_promise (GroupItem g) Status_OK s)"
    by (simp add: settled_def set_promise_def)
  ultimately show ?thesis by (simp add: GroupItem try_item_def g'(1) r)
qed

section \<open>Rounds\<close>

definition sched_inv :: "'ctx scheduler \<Rightarrow> bool" where
  "sched_inv s \<longleftrightarrow> queue_inv (runningQueue s) \<and> queue_inv (pendingQueue s) \<and>
     maxPriority (pendingQueue s) = maxPriority (runningQueue s) \<and>
     GetRequestId ` set (queue_items (runningQueue s)) \<inter> GetRequestId ` set (queue_items (pendingQueue s)) = {} \<and>
     counts_pos (affinityCount s) \<and> 
     (policyType s = FIFO \<or> queue_items (pendingQueue s) = [] \<longrightarrow> affinityCount s = fmempty)"

text \<open>Both invariants can be evaluated: the quantifiers range over the entries of finite maps.\<close>

lemma queue_inv_code [code]:
  "queue_inv q \<longleftrightarrow> fmpred (\<lambda>i xs. \<forall>x \<in> set xs. GetPriority x = i) (queueMap q) \<and>
     distinct (map GetRequestId (queue_items q)) \<and> [] \<notin> GetRequestId ` set (queue_items q) \<and>
     fset (reqIndex q) = GetRequestId ` set (queue_items q)"
proof -
  have "x \<in> set (level q i) \<longleftrightarrow> (\<exists>xs. fmlookup (queueMap q) i = Some xs \<and> x \<in> set xs)" for x i
    by (cases "fmlookup (queueMap q) i") (simp_all add: level_def)
  then have "(\<forall>i. \<forall>x \<in> set (level q i). GetPriority x = i) \<longleftrightarrow>
      fmpred (\<lambda>i xs. \<forall>x \<in> set xs. GetPriority x = i) (queueMap q)"
    unfolding fmpred_iff by blast
  then show ?thesis unfolding queue_inv_def by simp
qed

lemma counts_pos_code [code]: "counts_pos m \<longleftrightarrow> fmpred (\<lambda>_ c. fmpred (\<lambda>_ n. n > 0) c) m"
  by (simp add: counts_pos_def fmpred_iff)

definition queue_ids :: "sched_queue \<Rightarrow> string multiset" where
  "queue_ids q = mset (map GetRequestId (queue_items q))"

lemma queue_items_priority: "queue_inv q \<Longrightarrow> x \<in> set (queue_items q) \<Longrightarrow> GetPriority x \<le> maxPriority q"
  by (auto simp: queue_items_def levels_def queue_inv_def)

lemma DoConsume_cases:
  assumes "sched_inv s" "queue_items (runningQueue s) = x # xs"
  shows "\<exists>t. DoConsume ser perf s = dequeue_running t \<and> settled x s t \<and>
    (t = set_promise x (Status ERR_SCHEDULE_CANCELED (cancel_reason (cancelTag x))) s \<or>
     \<not> CanSchedule ser x s \<and> t = enqueue_pending x s \<or>
     CanSchedule ser x s \<and> t = try_item ser perf x s)"
proof -
  have "Time_Front (runningQueue s) = Some x"
    using by_time.front_head [of "runningQueue s"] assms by (simp add: sched_inv_def)
  moreover have "settled x s (set_promise x st s)" "settled x s (enqueue_pending x s)" for st
    by (auto simp: settled_def set_promise_def enqueue_pending_def)
  ultimately show ?thesis
    using try_item_settled [of x s ser perf]
    by (auto simp: DoConsume_def split: cancel_tag.split)
qed

lemma pending_acceptable:
  assumes "sched_inv s" "queue_items (runningQueue s) = x # xs"
    "GetRequestId x' = GetRequestId x" "GetPriority x' = GetPriority x"
  shows "acceptable (maxPriority (pendingQueue s)) (queue_items (pendingQueue s)) x'"
proof -
  have "queue_inv (runningQueue s)" using assms(1) by (simp add: sched_inv_def)
  from queue_items_priority [OF this, of x] this show ?thesis
    using assms unfolding acceptable_def sched_inv_def queue_inv_def by auto
qed

lemma settled_step:
  assumes "sched_inv s" "queue_items (runningQueue s) = x # xs" "settled x s t"
  shows "sched_inv (dequeue_running t) \<and> queue_items (runningQueue (dequeue_running t)) = xs \<and>
    (\<exists>new. answers (dequeue_running t) = answers s @ new \<and>
      mset (map fst new) + queue_ids (pendingQueue (dequeue_running t)) =
        add_mset (GetRequestId x) (queue_ids (pendingQueue s)))"
proof -
  let ?r = "runningQueue s" and ?p = "pendingQueue s"
  have q: "queue_inv ?r" "queue_inv ?p" "maxPriority ?p = maxPriority ?r"
    and dis: "GetRequestId ` set (x # xs) \<inter> GetRequestId ` set (queue_items ?p) = {}"
    and pol: "counts_pos (affinityCount s)" "policyType s = FIFO \<or> queue_items ?p = [] \<longrightarrow> affinityCount s = fmempty"
    using assms(1,2) by (auto simp: sched_inv_def)
  have pol': "counts_pos (affinityCount t)" "policyType t = policyType s"
    "policyType s = FIFO \<longrightarrow> affinityCount t = fmempty"
    using pol assms(3) by (auto simp: settled_def)
  have d: "distinct (map GetRequestId (x # xs))" "GetRequestId x \<noteq> []"
    using q(1) assms(2) by (auto simp: queue_inv_def)
  have run: "runningQueue (dequeue_running t) = snd (Time_Dequeue ?r)"
    using assms(3) by (simp add: dequeue_running_def settled_def)
  note deq = by_time.deq_tail [OF q(1)]
  show ?thesis
  proof (cases "pendingQueue t = ?p \<and> affinityCount t = affinityCount s \<and>
      (\<exists>st. answers t = answers s @ [(GetRequestId x, st)])")
    case True
    then obtain st where t: "pendingQueue t = ?p" "answers t = answers s @ [(GetRequestId x, st)]"
      "affinityCount t = affinityCount s" by blast
    have "sched_inv (dequeue_running t)"
      using deq q dis pol pol' assms(2) unfolding sched_inv_def run by (auto simp: dequeue_running_def t)
    then show ?thesis
      using deq assms(2) unfolding run
      by (intro conjI exI [of _ "[(GetRequestId x, st)]"]) (auto simp: dequeue_running_def t)
  next
    case False
    then obtain x' where t: "answers t = answers s" "GetRequestId x' = GetRequestId x" "GetPriority x' = GetPriority x"
      "pendingQueue t = snd (Time_Enqueue (Some x') ?p)"
      using assms(3) by (auto simp: settled_def)
    note e = by_time.enq_ok [OF q(2) pending_acceptable [OF assms(1,2) t(2,3)]]
    have m: "mset (queue_items (pendingQueue t)) = add_mset x' (mset (queue_items ?p))"
      using e t(4) by simp
    then have s: "set (queue_items (pendingQueue t)) = insert x' (set (queue_items ?p))"
      by (metis set_mset_add_mset_insert set_mset_mset)
    have "GetRequestId ` set xs \<inter> GetRequestId ` set (queue_items (pendingQueue t)) = {}"
      unfolding s using dis d(1) t(2) by auto
    moreover have "queue_items (pendingQueue t) \<noteq> []" using s by force
    ultimately have "sched_inv (dequeue_running t)"
      using deq e q assms(2) pol' unfolding sched_inv_def run
      by (simp add: dequeue_running_def t(4) [symmetric] del: ins_by.simps)
    then show ?thesis
      using deq assms(2) m unfolding run
      by (intro conjI exI [of _ "[]"]) (auto simp: dequeue_running_def queue_ids_def t(1,2))
  qed
qed

lemma round_effect:
  assumes "sched_inv s"
  shows "\<exists>t new. ConsumeRunningQueue ser perf s = Some t \<and> sched_inv t \<and> CheckIsQueueEmpty (runningQueue t) \<and>
    queue_items (runningQueue t) = [] \<and> answers t = answers s @ new \<and>
    mset (map fst new) + queue_ids (pendingQueue t) = queue_ids (runningQueue s) + queue_ids (pendingQueue s)"
  using assms
proof (induction "length (queue_items (runningQueue s))" arbitrary: s)
  case 0
  then have "CheckIsQueueEmpty (runningQueue s)"
    using by_time.empty_iff [of "runningQueue s"] by (simp add: sched_inv_def)
  then show ?case using 0 by (simp add: ConsumeRunningQueue.simps queue_ids_def)
next
  case (Suc n)
  then obtain x xs where x: "queue_items (runningQueue s) = x # xs" by (cases "queue_items (runningQueue s)") auto
  have ne: "\<not> CheckIsQueueEmpty (runningQueue s)"
    using by_time.empty_iff [of "runningQueue s"] x Suc.prems by (simp add: sched_inv_def)
  obtain u where u: "DoConsume ser perf s = dequeue_running u" "settled x s u"
    using DoConsume_cases [OF Suc.prems x, of ser perf] by blast
  obtain new1 where new1: "sched_inv (dequeue_running u)" "queue_items (runningQueue (dequeue_running u)) = xs"
    "answers (dequeue_running u) = answers s @ new1"
    "mset (map fst new1) + queue_ids (pendingQueue (dequeue_running u)) =
       add_mset (GetRequestId x) (queue_ids (pendingQueue s))"
    using settled_step [OF Suc.prems x u(2)] by blast
  obtain t new2 where t: "ConsumeRunningQueue ser perf (dequeue_running u) = Some t" "sched_inv t"
    "CheckIsQueueEmpty (runningQueue t)" "queue_items (runningQueue t) = []"
    "answers t = answers (dequeue_running u) @ new2"
    "mset (map fst new2) + queue_ids (pendingQueue t) =
       queue_ids (runningQueue (dequeue_running u)) + queue_ids (pendingQueue (dequeue_running u))"
    using Suc.hyps(1) [OF _ new1(1)] Suc.hyps(2) x new1(2) by auto
  have "mset (map fst (new1 @ new2)) + queue_ids (pendingQueue t) =
      queue_ids (runningQueue s) + queue_ids (pendingQueue s)"
    using t(6) new1(4) by (simp add: queue_ids_def new1(2) x add.assoc add.left_commute)
  moreover have "ConsumeRunningQueue ser perf s = Some t"
    using t(1) ne u(1) by (subst ConsumeRunningQueue.simps) simp
  ultimately show ?case using t new1(3) by (intro exI [of _ t] exI [of _ "new1 @ new2"]) simp
qed

section \<open>Accepting and reactivating requests\<close>

lemma set_inserted: "set (ins_by lt x xs) = insert x (set xs)"
  by (metis mset_ins_by set_mset_add_mset_insert set_mset_mset)

lemma ins_by_nonempty [simp]: "ins_by lt x xs \<noteq> []"
  using set_inserted [of lt x xs] by force

lemma heap_push_items [simp]:
  "mset (heap_push x xs) = add_mset x (mset xs)" "set (heap_push x xs) = insert x (set xs)"
  by (simp_all add: heap_push_def set_inserted)

lemma fold_heap_push [simp]:
  "mset (fold heap_push xs ys) = mset xs + mset ys" "set (fold heap_push xs ys) = set xs \<union> set ys"
  by (induction xs arbitrary: ys) auto

lemma fold_time_extend_item:
  "level (fold (time_extend_item i) xs q) j = (if j = i then fold heap_push xs (level q i) else level q j)"
  "fset (reqIndex (fold (time_extend_item i) xs q)) = fset (reqIndex q) \<union> GetRequestId ` set xs"
  "maxPriority (fold (time_extend_item i) xs q) = maxPriority q"
  by (induction xs arbitrary: q) (auto simp: time_extend_item_def)

lemma time_extend_level_effect:
  assumes "time_extend_level i (q, t) = (q', t')"
  shows "level q' j = (if j = i then fold heap_push (level t i) (level q i) else level q j)"
    "fset (reqIndex q') = fset (reqIndex q) \<union> GetRequestId ` set (level t i)"
    "maxPriority q' = maxPriority q" "j \<noteq> i \<Longrightarrow> level t' j = level t j"
proof -
  have "(level q' j = (if j = i then fold heap_push (level t i) (level q i) else level q j)) \<and>
    fset (reqIndex q') = fset (reqIndex q) \<union> GetRequestId ` set (level t i) \<and>
    maxPriority q' = maxPriority q \<and> (j \<noteq> i \<longrightarrow> level t' j = level t j)"
  proof (cases "fmlookup (queueMap t) i")
    case None
    then have "level t i = []" by (simp add: level_def)
    then show ?thesis using assms None by (simp add: time_extend_level_def)
  next
    case (Some xs)
    then have "level t i = xs" by (simp add: level_def)
    then show ?thesis using assms Some by (auto simp: time_extend_level_def fold_time_extend_item)
  qed
  then show "level q' j = (if j = i then fold heap_push (level t i) (level q i) else level q j)"
    "fset (reqIndex q') = fset (reqIndex q) \<union> GetRequestId ` set (level t i)"
    "maxPriority q' = maxPriority q" "j \<noteq> i \<Longrightarrow> level t' j = level t j" by blast+
qed

lemma fold_time_extend_level:
  "fold time_extend_level (rev [0..<n]) (q, t) = (q', t') \<Longrightarrow>
   (\<forall>j. level q' j = (if j < n then fold heap_push (level t j) (level q j) else level q j)) \<and>
   fset (reqIndex q') = fset (reqIndex q) \<union> GetRequestId ` set (levels t n) \<and> maxPriority q' = maxPriority q"
proof (induction n arbitrary: q t)
  case 0
  then show ?case by (simp add: levels_def)
next
  case (Suc n)
  obtain q1 t1 where 1: "time_extend_level n (q, t) = (q1, t1)" by fastforce
  note e = time_extend_level_effect [OF 1]
  have "fold time_extend_level (rev [0..<n]) (q1, t1) = (q', t')" using Suc.prems 1 by simp
  from Suc.IH [OF this] show ?case
    using e levels_cong [of n t1 t] by (auto simp: levels_Suc less_Suc_eq)
qed

lemma levels_mset:
  "(\<And>j. j < n \<Longrightarrow> mset (level q' j) = mset (level t j) + mset (level q j)) \<Longrightarrow>
   mset (levels q' n) = mset (levels t n) + mset (levels q n)"
  by (induction n) (simp_all add: levels_Suc, simp add: levels_def)

lemma Time_Extend_items:
  assumes "queue_inv q" "queue_inv t" "maxPriority t = maxPriority q" "Time_Extend q t = (q', t')"
    and dis: "GetRequestId ` set (queue_items t) \<inter> GetRequestId ` set (queue_items q) = {}"
  shows "queue_inv q'" "mset (queue_items q') = mset (queue_items t) + mset (queue_items q)"
    "maxPriority q' = maxPriority q"
proof -
  note e = fold_time_extend_level [OF assms(4) [unfolded Time_Extend_def]]
  show m: "maxPriority q' = maxPriority q" using e by simp
  show i: "mset (queue_items q') = mset (queue_items t) + mset (queue_items q)"
    unfolding queue_items_def m assms(3) by (rule levels_mset) (use e in simp)
  then have s: "set (queue_items q') = set (queue_items t) \<union> set (queue_items q)"
    by (metis set_mset_mset set_mset_union)
  have "mset (map GetRequestId (queue_items q')) = mset (map GetRequestId (queue_items t @ queue_items q))"
    using i by simp
  moreover have "distinct (map GetRequestId (queue_items t @ queue_items q))"
    using assms(1,2) dis by (simp add: queue_inv_def)
  ultimately have "distinct (map GetRequestId (queue_items q'))" by (metis mset_eq_imp_distinct_iff)
  moreover have "fset (reqIndex q') = GetRequestId ` set (queue_items q')"
    using e assms(1) by (simp add: queue_inv_def s queue_items_def [of t] assms(3) image_Un Un_commute)
  moreover have "\<forall>i. \<forall>x \<in> set (level q' i). GetPriority x = i"
    using e assms(1,2) by (auto simp: queue_inv_def split: if_splits)
  ultimately show "queue_inv q'"
    using assms(1,2) unfolding queue_inv_def s by blast
qed

lemma ClearPendingInfos_sels [simp]:
  "runningQueue (ClearPendingInfos s) = runningQueue s" "pendingQueue (ClearPendingInfos s) = pendingQueue s"
  "answers (ClearPendingInfos s) = answers s" "preContext (ClearPendingInfos s) = preContext s"
  "policyType (ClearPendingInfos s) = policyType s" "hasRecorder (ClearPendingInfos s) = hasRecorder s"
  by (simp_all add: ClearPendingInfos_def split: priority_policy_type.split)

lemma ClearPendingInfos_counts:
  "affinityCount (ClearPendingInfos s) = (if policyType s = FIFO then affinityCount s else fmempty)"
  by (simp add: ClearPendingInfos_def split: priority_policy_type.split)

lemma counts_pos_empty [simp]: "counts_pos fmempty"
  by (simp add: counts_pos_def)

lemma ActivatePendingRequests_effect:
  assumes "sched_inv s"
  shows "sched_inv (ActivatePendingRequests s)"
    "queue_ids (runningQueue (ActivatePendingRequests s)) = queue_ids (runningQueue s) + queue_ids (pendingQueue s)"
    "queue_items (pendingQueue (ActivatePendingRequests s)) = []"
    "answers (ActivatePendingRequests s) = answers s"
proof -
  have q: "queue_inv (runningQueue s)" "queue_inv (pendingQueue s)"
    "maxPriority (runningQueue s) = maxPriority (pendingQueue s)"
    "GetRequestId ` set (queue_items (runningQueue s)) \<inter> GetRequestId ` set (queue_items (pendingQueue s)) = {}"
    using assms by (simp_all add: sched_inv_def)
  obtain q' t' where x: "Time_Extend (pendingQueue s) (runningQueue s) = (q', t')" by fastforce
  note e = Time_Extend_items [OF q(2,1,3) x q(4)]
  have "sched_inv (ActivatePendingRequests s) \<and>
    queue_ids (runningQueue (ActivatePendingRequests s)) = queue_ids (runningQueue s) + queue_ids (pendingQueue s) \<and>
    queue_items (pendingQueue (ActivatePendingRequests s)) = [] \<and> answers (ActivatePendingRequests s) = answers s"
  proof (cases "CheckIsQueueEmpty (pendingQueue s)")
    case True
    then have "queue_items (pendingQueue s) = []" using queue_inv_empty_iff [OF q(2)] by simp
    then show ?thesis using True assms by (simp add: ActivatePendingRequests_def queue_ids_def)
  next
    case False
    then have "ActivatePendingRequests s = ClearPendingInfos (s\<lparr>runningQueue := q',
        pendingQueue := ScheduleQueue (maxPriority (pendingQueue s))\<rparr>)"
      by (simp add: ActivatePendingRequests_def x)
    then show ?thesis using e assms by (simp add: sched_inv_def queue_inv_new queue_ids_def ClearPendingInfos_counts)
  qed
  then show "sched_inv (ActivatePendingRequests s)"
    "queue_ids (runningQueue (ActivatePendingRequests s)) = queue_ids (runningQueue s) + queue_ids (pendingQueue s)"
    "queue_items (pendingQueue (ActivatePendingRequests s)) = []"
    "answers (ActivatePendingRequests s) = answers s" by simp_all
qed

lemma Sched_Enqueue_effect:
  assumes "sched_inv s" and new: "acceptable (maxPriority (runningQueue s)) (queue_items (runningQueue s)) x"
    "acceptable (maxPriority (pendingQueue s)) (queue_items (pendingQueue s)) x"
  shows "sched_inv (snd (Sched_Enqueue ser x s)) \<and> fst (Sched_Enqueue ser x s) = Status_OK \<and>
    queue_ids (runningQueue (snd (Sched_Enqueue ser x s))) + queue_ids (pendingQueue (snd (Sched_Enqueue ser x s))) =
      add_mset (GetRequestId x) (queue_ids (runningQueue s) + queue_ids (pendingQueue s))"
proof -
  have q: "queue_inv (runningQueue s)" "queue_inv (pendingQueue s)"
    "maxPriority (pendingQueue s) = maxPriority (runningQueue s)"
    "GetRequestId ` set (queue_items (runningQueue s)) \<inter> GetRequestId ` set (queue_items (pendingQueue s)) = {}"
    using assms(1) by (simp_all add: sched_inv_def)
  note r = by_time.enq_ok [OF q(1) new(1)] and p = by_time.enq_ok [OF q(2) new(2)]
  obtain st qr where er: "Time_Enqueue (Some x) (runningQueue s) = (st, qr)" by fastforce
  obtain st' qp where ep: "Time_Enqueue (Some x) (pendingQueue s) = (st', qp)" by fastforce
  show ?thesis
  proof (cases "CanSchedule ser x s")
    case True
    then show ?thesis
      using r q(2,3,4) new(2) assms(1)
      by (auto simp: Sched_Enqueue_def er sched_inv_def set_inserted queue_ids_def acceptable_def)
  next
    case False
    then show ?thesis
      using p q(1,3,4) new(1) assms(1)
      by (auto simp: Sched_Enqueue_def ep sched_inv_def set_inserted queue_ids_def acceptable_def)
  qed
qed

text \<open>
  C30: A round of the scheduler ends, whatever the performers answer and under both policies: it
  leaves the running queue empty, and every request of the running queue is either answered
  exactly once or waits exactly once in the pending queue; the requests that were pending stay.
  Reactivation then puts exactly the waiting requests into the running queue for the next round.
\<close>

theorem round_settles_every_request:
  assumes "sched_inv s"
  shows "\<exists>t new. ConsumeRunningQueue ser perf s = Some t \<and> sched_inv t \<and> CheckIsQueueEmpty (runningQueue t) \<and>
    queue_items (runningQueue t) = [] \<and> answers t = answers s @ new \<and>
    mset (map fst new) + queue_ids (pendingQueue t) = queue_ids (runningQueue s) + queue_ids (pendingQueue s) \<and>
    sched_inv (ActivatePendingRequests t) \<and> queue_items (pendingQueue (ActivatePendingRequests t)) = [] \<and>
    queue_ids (runningQueue (ActivatePendingRequests t)) = queue_ids (pendingQueue t)"
proof -
  obtain t new where t: "ConsumeRunningQueue ser perf s = Some t" "sched_inv t" "CheckIsQueueEmpty (runningQueue t)"
    "queue_items (runningQueue t) = []" "answers t = answers s @ new"
    "mset (map fst new) + queue_ids (pendingQueue t) = queue_ids (runningQueue s) + queue_ids (pendingQueue s)"
    using round_effect [OF assms, of ser perf] by blast
  moreover have "queue_ids (runningQueue t) = {#}" using t(4) by (simp add: queue_ids_def)
  ultimately show ?thesis
    using ActivatePendingRequests_effect [OF t(2)] by (intro exI [of _ t] exI [of _ new]) simp
qed

lemma sched_inv_new: "sched_inv (PriorityScheduler recorder m policy ctx)"
  by (simp add: sched_inv_def PriorityScheduler_def queue_inv_new)

text \<open>A new scheduler that accepts a list of requests.\<close>

definition accept_all ::
  "(resource_affinity \<Rightarrow> string) \<Rightarrow> queue_item list \<Rightarrow> 'ctx scheduler \<Rightarrow> 'ctx scheduler" where
  "accept_all ser xs s = fold (\<lambda>x s. snd (Sched_Enqueue ser x s)) xs s"

definition demo_scheduler :: "priority_policy_type \<Rightarrow> nat scheduler" where
  "demo_scheduler policy = accept_all (\<lambda>_. ''a'') demo_items (PriorityScheduler True 1 policy 0)"

lemma demo_scheduler_inv: "sched_inv (demo_scheduler FIFO) \<and> sched_inv (demo_scheduler FAIRNESS)"
  by code_simp

text \<open>Performers that place the first request of a round and have no room for the others.\<close>

definition demo_performers :: "nat performers" where
  "demo_performers = \<lparr>doInstance = (\<lambda>n i. if n = 0 then (Status_OK, 1) else (Status RESOURCE_NOT_ENOUGH ''full'', n)),
     doGroup = (\<lambda>n g. (Status RESOURCE_NOT_ENOUGH ''full'', n)), rollBack = (\<lambda>n x st. n)\<rparr>"

theorem round_settles_every_request_witness:
  "sched_inv (demo_scheduler FIFO) \<and> (\<exists>t new.
     ConsumeRunningQueue (\<lambda>_. ''a'') demo_performers (demo_scheduler FIFO) = Some t \<and> answers t = new \<and>
     mset (map fst new) + queue_ids (pendingQueue t) = {#''r1'', ''r2'', ''r3''#})"
proof -
  have "queue_ids (runningQueue (demo_scheduler FIFO)) + queue_ids (pendingQueue (demo_scheduler FIFO)) =
      {#''r1'', ''r2'', ''r3''#}" "answers (demo_scheduler FIFO) = []" by code_simp+
  moreover obtain t new where
    "ConsumeRunningQueue (\<lambda>_. ''a'') demo_performers (demo_scheduler FIFO) = Some t"
    "answers t = answers (demo_scheduler FIFO) @ new"
    "mset (map fst new) + queue_ids (pendingQueue t) =
       queue_ids (runningQueue (demo_scheduler FIFO)) + queue_ids (pendingQueue (demo_scheduler FIFO))"
    using round_settles_every_request [OF conjunct1 [OF demo_scheduler_inv], of "\<lambda>_. ''a''" demo_performers]
    by blast
  ultimately show ?thesis
    using conjunct1 [OF demo_scheduler_inv] by (intro conjI exI [of _ t] exI [of _ new]) simp_all
qed

end
