(* ===== verification/Sched_Fairness.thy ===== *)
theory Sched_Fairness
  imports Scheduler_Correct
begin

text \<open>
  The fairness policy: once a request that asks for no particular place is suspended, no request
  of the same or a lower priority is tried in its round, so that none overtakes it.
\<close>

lemma queue_items_by_priority:
  assumes "queue_inv q"
  shows "sorted_wrt (\<lambda>x y. GetPriority x \<ge> GetPriority y) (queue_items q)"
proof -
  have prio: "x \<in> set (level q i) \<Longrightarrow> GetPriority x = i" for x i
    using assms by (simp add: queue_inv_def)
  have "sorted_wrt (\<lambda>x y. GetPriority x \<ge> GetPriority y) (levels q n) \<and>
      (\<forall>x \<in> set (levels q n). GetPriority x < n)" for n
  proof (induction n)
    case (Suc n)
    have "sorted_wrt (\<lambda>x y. GetPriority x \<ge> GetPriority y) (level q n)"
      by (rule sorted_wrt_mono_rel [of _ "\<lambda>_ _. True"]) (simp_all add: prio)
    then show ?case using Suc prio [of _ n] by (auto simp: levels_Suc sorted_wrt_append)
  qed (simp add: levels_def)
  then show ?thesis by (simp add: queue_items_def)
qed

lemma has_pending_iff:
  "has_pending p k s \<longleftrightarrow> (\<exists>i c n. fmlookup (affinityCount s) i = Some c \<and> p \<le> i \<and> fmlookup c k = Some n \<and> n > 0)"
  unfolding has_pending_def list_ex_iff set_sorted_list_of_fmap by (fastforce split: option.splits)

lemma has_pending_mono: "has_pending p k s \<Longrightarrow> q \<le> p \<Longrightarrow> has_pending q k s"
  unfolding has_pending_iff by (meson order_trans)

lemma bump_pending:
  assumes "counts_pos (affinityCount s)"
  shows "has_pending p k (bump p k s)"
proof -
  let ?c = "the (fmlookup (affinityCount (bump p k s)) p)"
  have c: "fmlookup (affinityCount (bump p k s)) p = Some ?c" by (simp add: bump_def Let_def)
  obtain n where n: "fmlookup ?c k = Some n" by (simp add: bump_def Let_def)
  moreover have "n > 0" using bump_pos [OF assms, of p k] c n unfolding counts_pos_def by blast
  ultimately show ?thesis using c has_pending_iff by blast
qed

definition nonempty_group :: "queue_item \<Rightarrow> bool" where
  "nonempty_group x = (case x of InstanceItem _ \<Rightarrow> True | GroupItem g \<Rightarrow> gi_groupReqs g \<noteq> [])"

lemma not_CanSchedule:
  assumes "policyType s = FAIRNESS" "ExistNonAffinityPendingInstances p s" "GetPriority x \<le> p" "nonempty_group x"
  shows "\<not> CanSchedule ser x s"
proof -
  have "ExistNonAffinityPendingInstances (GetPriority x) s"
    using assms(2,3) has_pending_mono by (simp add: ExistNonAffinityPendingInstances_def)
  then show ?thesis
    using assms(1,4)
    by (auto simp: CanSchedule_def HasSimilarResourceDemand_def nonempty_group_def
        split: queue_item.splits list.splits)
qed

definition cancelled :: "queue_item \<Rightarrow> bool" where
  "cancelled x = (case cancelTag x of CancelOK _ \<Rightarrow> True | _ \<Rightarrow> False)"

text \<open>The answers to the requests that are cancelled.\<close>

definition cancellations :: "queue_item list \<Rightarrow> (string \<times> status) list" where
  "cancellations xs = map (\<lambda>x. (GetRequestId x, Status ERR_SCHEDULE_CANCELED (cancel_reason (cancelTag x))))
     (filter cancelled xs)"

lemma blocked_step:
  assumes "sched_inv s" "policyType s = FAIRNESS" "ExistNonAffinityPendingInstances p s"
    "queue_items (runningQueue s) = x # xs" "GetPriority x \<le> p" "nonempty_group x"
  shows "DoConsume ser perf s = dequeue_running (if cancelled x
      then set_promise x (Status ERR_SCHEDULE_CANCELED (cancel_reason (cancelTag x))) s else enqueue_pending x s)"
proof -
  have "Time_Front (runningQueue s) = Some x"
    using by_time.front_head [of "runningQueue s"] assms(1,4) by (simp add: sched_inv_def)
  then show ?thesis
    using not_CanSchedule [OF assms(2,3,5,6)]
    by (simp add: DoConsume_def cancelled_def split: cancel_tag.split)
qed

lemma blocked_round:
  assumes "sched_inv s" "policyType s = FAIRNESS" "ExistNonAffinityPendingInstances p s"
    "queue_items (runningQueue s) = xs" "\<forall>x \<in> set xs. GetPriority x \<le> p \<and> nonempty_group x"
  shows "\<exists>t. ConsumeRunningQueue ser perf s = Some t \<and> preContext t = preContext s \<and>
    answers t = answers s @ cancellations xs \<and>
    mset (queue_items (pendingQueue t)) = mset (queue_items (pendingQueue s)) + mset (filter (\<lambda>x. \<not> cancelled x) xs)"
  using assms
proof (induction xs arbitrary: s)
  case Nil
  then have "CheckIsQueueEmpty (runningQueue s)"
    using by_time.empty_iff [of "runningQueue s"] by (simp add: sched_inv_def)
  then show ?case by (simp add: ConsumeRunningQueue.simps cancellations_def)
next
  case (Cons x xs)
  let ?u = "if cancelled x then set_promise x (Status ERR_SCHEDULE_CANCELED (cancel_reason (cancelTag x))) s
    else enqueue_pending x s"
  have step: "DoConsume ser perf s = dequeue_running ?u"
    using blocked_step [OF Cons.prems(1-4)] Cons.prems(5) by simp
  have set: "settled x s ?u"
    by (auto simp: settled_def set_promise_def enqueue_pending_def)
  note s = settled_step [OF Cons.prems(1,4) set]
  have same: "policyType (dequeue_running ?u) = FAIRNESS" "ExistNonAffinityPendingInstances p (dequeue_running ?u)"
    "preContext (dequeue_running ?u) = preContext s"
    using Cons.prems(2,3)
    by (simp_all add: ExistNonAffinityPendingInstances_def has_pending_def dequeue_running_def set_promise_def enqueue_pending_def)
  have ne: "\<not> CheckIsQueueEmpty (runningQueue s)"
    using by_time.empty_iff [of "runningQueue s"] Cons.prems(1,4) by (simp add: sched_inv_def)
  have q: "queue_inv (pendingQueue s)" using Cons.prems(1) by (simp add: sched_inv_def)
  have p: "mset (queue_items (pendingQueue (dequeue_running ?u))) =
      mset (queue_items (pendingQueue s)) + mset (filter (\<lambda>x. \<not> cancelled x) [x])"
    using by_time.enq_ok [OF q pending_acceptable [OF Cons.prems(1,4) refl refl]]
    by (simp add: dequeue_running_def set_promise_def enqueue_pending_def)
  have a: "answers (dequeue_running ?u) = answers s @ cancellations [x]"
    by (simp add: dequeue_running_def set_promise_def enqueue_pending_def cancellations_def)
  obtain t where t: "ConsumeRunningQueue ser perf (dequeue_running ?u) = Some t"
    "preContext t = preContext s" "answers t = answers (dequeue_running ?u) @ cancellations xs"
    "mset (queue_items (pendingQueue t)) =
       mset (queue_items (pendingQueue (dequeue_running ?u))) + mset (filter (\<lambda>x. \<not> cancelled x) xs)"
    using Cons.IH [OF _ same(1,2)] s Cons.prems(5) same(3) by auto
  have "ConsumeRunningQueue ser perf s = Some t"
    using t(1) ne step by (subst ConsumeRunningQueue.simps) simp
  moreover have "answers t = answers s @ cancellations (x # xs)"
    using t(3) a by (simp add: cancellations_def)
  ultimately show ?case using t(2,4) p by auto
qed

text \<open>
  C31: Under the fairness policy a suspended request is not overtaken in its round. When the
  request at the head of the running queue asks for no particular place and is suspended, the
  round goes on without asking a performer: the allocation context stays as it is, the requests
  that were cancelled are answered so, in the order of the queue, and all others join the
  suspended request in the pending queue.
\<close>

theorem suspended_not_overtaken:
  assumes "sched_inv s" "policyType s = FAIRNESS" "queue_items (runningQueue s) = InstanceItem y # xs"
    "required_affinity y = None" "\<forall>x \<in> set xs. nonempty_group x"
  shows "\<exists>t. ConsumeRunningQueue ser perf (dequeue_running (suspend ser (InstanceItem y) result s)) = Some t \<and>
    preContext t = preContext s \<and> answers t = answers s @ cancellations xs \<and>
    mset (queue_items (pendingQueue t)) = add_mset (TagFailure (InstanceItem y))
      (mset (queue_items (pendingQueue s)) + mset (filter (\<lambda>x. \<not> cancelled x) xs))"
proof -
  let ?y = "InstanceItem y" and ?u = "suspend ser (InstanceItem y) result s"
  have q: "queue_inv (runningQueue s)" "queue_inv (pendingQueue s)" "counts_pos (affinityCount s)"
    using assms(1) by (simp_all add: sched_inv_def)
  note s = settled_step [OF assms(1,3) suspend_settled [of ?y s ser result]]
  have prio: "\<forall>x \<in> set xs. GetPriority x \<le> instance_priority y \<and> nonempty_group x"
    using queue_items_by_priority [OF q(1)] assms(3,5) by simp
  have tag: "required_affinity (y\<lparr>ii_hasFailed := True\<rparr>) = None" "instance_priority (y\<lparr>ii_hasFailed := True\<rparr>) = instance_priority y"
    using assms(4) by (simp_all add: required_affinity_def item_option_def instance_priority_def)
  have "ExistNonAffinityPendingInstances (instance_priority y) (dequeue_running ?u)"
  proof -
    have "has_pending (instance_priority y) EMPTY_PENDING_AFFINITY_STRING ?u"
      using assms(2) q(3)
      by (simp add: suspend_def Let_def StorePendingInfo_def StorePendingAffinity_def tag enqueue_pending_def bump_pending)
    then show ?thesis by (simp add: ExistNonAffinityPendingInstances_def has_pending_def dequeue_running_def)
  qed
  moreover have "policyType (dequeue_running ?u) = FAIRNESS" "preContext (dequeue_running ?u) = preContext s"
    "answers (dequeue_running ?u) = answers s"
    using assms(2) by (simp_all add: dequeue_running_def suspend_def Let_def enqueue_pending_def)
  moreover have "mset (queue_items (pendingQueue (dequeue_running ?u))) =
      add_mset (TagFailure ?y) (mset (queue_items (pendingQueue s)))"
    using by_time.enq_ok [OF q(2) pending_acceptable [OF assms(1,3), of "TagFailure ?y"]]
    by (simp add: dequeue_running_def suspend_def Let_def enqueue_pending_def del: TagFailure.simps)
  ultimately show ?thesis
    using blocked_round [of "dequeue_running ?u" "instance_priority y" xs ser perf] s prio by auto
qed

text \<open>The request \<open>r2\<close>, of the highest priority, is suspended: \<open>r1\<close> and \<open>r3\<close> wait with it.\<close>

theorem suspended_not_overtaken_witness:
  "\<exists>t. ConsumeRunningQueue (\<lambda>_. ''a'') demo_performers (dequeue_running (suspend (\<lambda>_. ''a'')
      (InstanceItem (demo_instance ''r2'' 1 ''30'')) (Status RESOURCE_NOT_ENOUGH ''full'') (demo_scheduler FAIRNESS))) = Some t \<and>
    preContext t = 0 \<and> answers t = [] \<and> length (queue_items (pendingQueue t)) = 3"
proof -
  let ?xs = "[demo_item ''r3'' 0 ''10'', demo_item ''r1'' 0 ''20'']"
  have f: "queue_items (runningQueue (demo_scheduler FAIRNESS)) =
      InstanceItem (demo_instance ''r2'' 1 ''30'') # ?xs"
    "policyType (demo_scheduler FAIRNESS) = FAIRNESS" "required_affinity (demo_instance ''r2'' 1 ''30'') = None"
    "\<forall>x \<in> set ?xs. nonempty_group x" "preContext (demo_scheduler FAIRNESS) = 0"
    "answers (demo_scheduler FAIRNESS) @ cancellations ?xs = []"
    "length (queue_items (pendingQueue (demo_scheduler FAIRNESS)) @ filter (\<lambda>x. \<not> cancelled x) ?xs) = 2"
    by code_simp+
  obtain t where "ConsumeRunningQueue (\<lambda>_. ''a'') demo_performers (dequeue_running (suspend (\<lambda>_. ''a'')
        (InstanceItem (demo_instance ''r2'' 1 ''30'')) (Status RESOURCE_NOT_ENOUGH ''full'') (demo_scheduler FAIRNESS))) = Some t"
      "preContext t = preContext (demo_scheduler FAIRNESS)"
      "answers t = answers (demo_scheduler FAIRNESS) @ cancellations ?xs"
      and m: "mset (queue_items (pendingQueue t)) = add_mset (TagFailure (InstanceItem (demo_instance ''r2'' 1 ''30'')))
        (mset (queue_items (pendingQueue (demo_scheduler FAIRNESS))) + mset (filter (\<lambda>x. \<not> cancelled x) ?xs))"
    using suspended_not_overtaken [OF conjunct2 [OF demo_scheduler_inv] f(2,1,3,4)] by blast
  moreover have "length (queue_items (pendingQueue t)) = 3"
    using arg_cong [OF m, of size] f(7) by (simp only: size_mset size_add_mset size_union length_append)
  ultimately show ?thesis using f(5,6) by (intro exI [of _ t]) simp
qed

end
