(* ===== verification/Sched_Actor.thy ===== *)
theory Sched_Actor
  imports Sched_Fairness
begin

text \<open>
  The actor around the scheduler
  (\<^verbatim>\<open>src/functionsystem/src/common/schedule_decision/schedule_queue_actor.cpp\<close>): it accepts requests,
  moves between waiting, running and pending, and consumes the queue by messages to itself.

  The mailbox is a list of messages in the order of their arrival. The resource view is outside:
  the actor asks it for the resources, and the answer, resources or an error, comes back as a
  message. An answer to a client is recorded with the scheduler's; a promise keeps its first value.
\<close>

section \<open>State\<close>

datatype queue_status = WAITING | RUNNING | PENDING

datatype allocate_type = PRE_ALLOCATION | ALLOCATION

datatype 'ctx actor_msg =
    MRequestConsumer
  | MDoConsumeWithLatestInfo "'ctx option"
  | MDoConsumeWithCurrentInfo
  | MOnCancel string cancel_tag

record 'ctx sched_actor =
  scheduleStrategy :: "'ctx scheduler"
  allocType :: allocate_type
  isNewResourceAvailable :: bool
  queueStatus :: queue_status
  idleTimer :: bool
  mailbox :: "'ctx actor_msg list"
  resourceAsked :: nat
  deletedInstances :: "string list"

definition ScheduleQueueActor :: "allocate_type \<Rightarrow> 'ctx scheduler \<Rightarrow> 'ctx sched_actor" where
  "ScheduleQueueActor ty sch = \<lparr>scheduleStrategy = sch, allocType = ty, isNewResourceAvailable = True,
     queueStatus = WAITING, idleTimer = False, mailbox = [], resourceAsked = 0, deletedInstances = []\<rparr>"

definition post_msg :: "'ctx actor_msg \<Rightarrow> 'ctx sched_actor \<Rightarrow> 'ctx sched_actor" where
  "post_msg m a = a\<lparr>mailbox := mailbox a @ [m]\<rparr>"

definition reply :: "string \<Rightarrow> status \<Rightarrow> 'ctx sched_actor \<Rightarrow> 'ctx sched_actor" where
  "reply i st a = a\<lparr>scheduleStrategy := (scheduleStrategy a)\<lparr>answers := answers (scheduleStrategy a) @ [(i, st)]\<rparr>\<rparr>"

section \<open>State transitions\<close>

text \<open>Running queue empty, pending queue empty, the new status, and whether a consumer is needed.\<close>

definition STATE_TRANSITIONS_MAP :: "(bool \<times> bool \<times> queue_status \<times> bool) list" where
  "STATE_TRANSITIONS_MAP =
     [(True, True, WAITING, False), (True, False, PENDING, False), (False, False, RUNNING, True), (False, True, RUNNING, True)]"

definition TransitionSchedulerQueueState :: "'ctx sched_actor \<Rightarrow> 'ctx sched_actor" where
  "TransitionSchedulerQueueState a =
     (let isRunningQueueEmpty = CheckIsQueueEmpty (runningQueue (scheduleStrategy a));
          isPendingQueueEmpty = CheckIsQueueEmpty (pendingQueue (scheduleStrategy a));
          (_, _, newStatus, needRequestConsumer) =
            (case List.find (\<lambda>(r, p, _, _). r = isRunningQueueEmpty \<and> p = isPendingQueueEmpty) STATE_TRANSITIONS_MAP of
               Some t \<Rightarrow> t | None \<Rightarrow> hd STATE_TRANSITIONS_MAP)
      in if queueStatus a = newStatus then a
         else
           let a = a\<lparr>queueStatus := newStatus\<rparr>
           in if needRequestConsumer then post_msg MRequestConsumer a else a)"

definition HandlePendingRequests :: "'ctx sched_actor \<Rightarrow> 'ctx sched_actor" where
  "HandlePendingRequests a =
     (if queueStatus a = PENDING \<and> isNewResourceAvailable a
      then TransitionSchedulerQueueState (a\<lparr>scheduleStrategy := ActivatePendingRequests (scheduleStrategy a)\<rparr>)
      else a)"

definition ScheduleOnResourceUpdate :: "'ctx sched_actor \<Rightarrow> 'ctx sched_actor" where
  "ScheduleOnResourceUpdate a =
     (HandlePendingRequests (a\<lparr>idleTimer := False, isNewResourceAvailable := True\<rparr>))\<lparr>idleTimer := True\<rparr>"

definition UpdateResourceInfo :: "'ctx option \<Rightarrow> 'ctx sched_actor \<Rightarrow> 'ctx sched_actor" where
  "UpdateResourceInfo resourceFuture a =
     (case resourceFuture of
        None \<Rightarrow> a
      | Some info \<Rightarrow> a\<lparr>scheduleStrategy := HandleResourceInfoUpdate info (scheduleStrategy a), isNewResourceAvailable := False\<rparr>)"

section \<open>Requests\<close>

text \<open>The common part of \<^verbatim>\<open>ScheduleDecision\<close> and \<^verbatim>\<open>GroupScheduleDecision\<close>: \<open>err\<close> makes the code of the reply
  to a request that is not accepted. A tag that is already set calls back at once.\<close>

definition accept_item ::
  "(resource_affinity \<Rightarrow> string) \<Rightarrow> (status_code \<Rightarrow> status_code) \<Rightarrow> queue_item \<Rightarrow> 'ctx sched_actor \<Rightarrow> 'ctx sched_actor" where
  "accept_item ser err x a =
     (let (res, sch) = Sched_Enqueue ser x (scheduleStrategy a);
          a = a\<lparr>scheduleStrategy := sch\<rparr>
      in if IsError res then reply (GetRequestId x) (Status (err (StatusCode res)) (RawMessage res)) a
         else
           let a = TransitionSchedulerQueueState a
           in if cancelTag x = CancelInit then a else post_msg (MOnCancel (GetRequestId x) (cancelTag x)) a)"

definition ScheduleDecision ::
  "(resource_affinity \<Rightarrow> string) \<Rightarrow> schedule_request option \<Rightarrow> cancel_tag \<Rightarrow> 'ctx sched_actor \<Rightarrow> 'ctx sched_actor" where
  "ScheduleDecision ser req tag a =
     accept_item ser (\<lambda>code. code) (InstanceItem \<lparr>ii_req = req, ii_cancelTag = tag, ii_hasFailed = False\<rparr>) a"

record group_spec =
  gs_requests :: "schedule_request option list"
  gs_groupReqId :: string
  gs_cancelTag :: cancel_tag
  gs_isRange :: bool
  gs_timeout :: int

definition group_of :: "group_spec \<Rightarrow> group_item" where
  "group_of spec = \<lparr>gi_groupReqs = map (\<lambda>req. \<lparr>ii_req = req, ii_cancelTag = gs_cancelTag spec, ii_hasFailed = False\<rparr>) (gs_requests spec),
     gi_groupReqID = gs_groupReqId spec, gi_cancelTag = gs_cancelTag spec, gi_isRange = gs_isRange spec,
     gi_timeout = gs_timeout spec, gi_hasFailed = False\<rparr>"

definition GroupScheduleDecision ::
  "(resource_affinity \<Rightarrow> string) \<Rightarrow> group_spec \<Rightarrow> 'ctx sched_actor \<Rightarrow> 'ctx sched_actor" where
  "GroupScheduleDecision ser spec a =
     (if gs_requests spec = [] then reply (gs_groupReqId spec) Status_OK a
      else accept_item ser (\<lambda>_. FAILED) (GroupItem (group_of spec)) a)"

text \<open>\<^verbatim>\<open>OnCancelInstanceSchedule\<close> and \<^verbatim>\<open>OnCancelGroupSchedule\<close> differ in the type of the promise.\<close>

definition OnCancelSchedule :: "string \<Rightarrow> cancel_tag \<Rightarrow> 'ctx sched_actor \<Rightarrow> 'ctx sched_actor" where
  "OnCancelSchedule i tag a =
     (case tag of CancelOK reason \<Rightarrow> reply i (Status ERR_SCHEDULE_CANCELED reason) a | _ \<Rightarrow> a)"

text \<open>A response to a placement: too few resources become a conflict, and on a local node a failed
  placement is taken out of the resource view. \<open>None\<close> is a null response.\<close>

definition ScheduleConfirm ::
  "status_code option \<Rightarrow> string \<Rightarrow> 'ctx sched_actor \<Rightarrow> status \<times> status_code option \<times> 'ctx sched_actor" where
  "ScheduleConfirm rsp instanceID a =
     (case rsp of
        None \<Rightarrow> (Status FAILED ''null schedule response'', None, a)
      | Some code \<Rightarrow>
          let code = (if code = RESOURCE_NOT_ENOUGH \<or> code = ERR_RESOURCE_NOT_ENOUGH then SCHEDULE_CONFLICTED else code)
          in if allocType a = ALLOCATION
             then if code = SUCCESS then (Status_OK, Some code, a)
                  else (Status_OK, Some code, a\<lparr>deletedInstances := deletedInstances a @ [instanceID]\<rparr>)
             else (Status_OK, Some code, a))"

section \<open>Consuming\<close>

text \<open>\<open>None\<close> means that the round does not end.\<close>

definition consume ::
  "(resource_affinity \<Rightarrow> string) \<Rightarrow> 'ctx performers \<Rightarrow> 'ctx sched_actor \<Rightarrow> 'ctx sched_actor option" where
  "consume ser perf a =
     map_option (\<lambda>sch. a\<lparr>scheduleStrategy := sch\<rparr>) (ConsumeRunningQueue ser perf (scheduleStrategy a))"

definition DoConsumeWithCurrentInfo ::
  "(resource_affinity \<Rightarrow> string) \<Rightarrow> 'ctx performers \<Rightarrow> 'ctx sched_actor \<Rightarrow> 'ctx sched_actor option" where
  "DoConsumeWithCurrentInfo ser perf a =
     (if CheckIsQueueEmpty (runningQueue (scheduleStrategy a))
      then Some (HandlePendingRequests (TransitionSchedulerQueueState a))
      else map_option (post_msg MDoConsumeWithCurrentInfo) (consume ser perf a))"

definition DoConsumeWithLatestInfo ::
  "(resource_affinity \<Rightarrow> string) \<Rightarrow> 'ctx performers \<Rightarrow> 'ctx option \<Rightarrow> 'ctx sched_actor \<Rightarrow> 'ctx sched_actor option" where
  "DoConsumeWithLatestInfo ser perf resourceFuture a =
     map_option (post_msg MDoConsumeWithCurrentInfo) (consume ser perf (UpdateResourceInfo resourceFuture a))"

definition RequestConsumer ::
  "(resource_affinity \<Rightarrow> string) \<Rightarrow> 'ctx performers \<Rightarrow> 'ctx sched_actor \<Rightarrow> 'ctx sched_actor option" where
  "RequestConsumer ser perf a =
     (if \<not> isNewResourceAvailable a \<and> allocType a = PRE_ALLOCATION then DoConsumeWithCurrentInfo ser perf a
      else Some (a\<lparr>resourceAsked := resourceAsked a + 1\<rparr>))"

fun run_msg ::
  "(resource_affinity \<Rightarrow> string) \<Rightarrow> 'ctx performers \<Rightarrow> 'ctx actor_msg \<Rightarrow> 'ctx sched_actor \<Rightarrow> 'ctx sched_actor option" where
  "run_msg ser perf MRequestConsumer a = RequestConsumer ser perf a"
| "run_msg ser perf (MDoConsumeWithLatestInfo info) a = DoConsumeWithLatestInfo ser perf info a"
| "run_msg ser perf MDoConsumeWithCurrentInfo a = DoConsumeWithCurrentInfo ser perf a"
| "run_msg ser perf (MOnCancel i tag) a = Some (OnCancelSchedule i tag a)"

section \<open>Steps\<close>

text \<open>A client sets the tag of its request, once: the items that wait see it, and the actor is called
  back.\<close>

fun set_tag :: "string \<Rightarrow> cancel_tag \<Rightarrow> queue_item \<Rightarrow> queue_item" where
  "set_tag i tag (InstanceItem x) =
     (if GetRequestId (InstanceItem x) = i \<and> ii_cancelTag x = CancelInit
      then InstanceItem (x\<lparr>ii_cancelTag := tag\<rparr>) else InstanceItem x)"
| "set_tag i tag (GroupItem g) =
     (if gi_groupReqID g = i \<and> gi_cancelTag g = CancelInit
      then GroupItem (g\<lparr>gi_cancelTag := tag, gi_groupReqs := map (\<lambda>x. x\<lparr>ii_cancelTag := tag\<rparr>) (gi_groupReqs g)\<rparr>)
      else GroupItem g)"

definition tag_queue :: "string \<Rightarrow> cancel_tag \<Rightarrow> sched_queue \<Rightarrow> sched_queue" where
  "tag_queue i tag q = q\<lparr>queueMap := fmmap (map (set_tag i tag)) (queueMap q)\<rparr>"

definition cancel_request :: "string \<Rightarrow> cancel_tag \<Rightarrow> 'ctx sched_actor \<Rightarrow> 'ctx sched_actor" where
  "cancel_request i tag a =
     (let sch = scheduleStrategy a;
          sch = sch\<lparr>runningQueue := tag_queue i tag (runningQueue sch), pendingQueue := tag_queue i tag (pendingQueue sch)\<rparr>
      in post_msg (MOnCancel i tag) (a\<lparr>scheduleStrategy := sch\<rparr>))"

definition waiting_ids :: "'ctx sched_actor \<Rightarrow> string set" where
  "waiting_ids a = GetRequestId ` (set (queue_items (runningQueue (scheduleStrategy a))) \<union>
     set (queue_items (pendingQueue (scheduleStrategy a))))"

definition request_id :: "schedule_request option \<Rightarrow> string" where
  "request_id req = (case req of None \<Rightarrow> [] | Some r \<Rightarrow> sq_requestid r)"

text \<open>Work under way: the next message, or an answer of the resource view.\<close>

inductive actor_internal ::
  "(resource_affinity \<Rightarrow> string) \<Rightarrow> 'ctx performers \<Rightarrow> 'ctx sched_actor \<Rightarrow> 'ctx sched_actor \<Rightarrow> bool" for ser perf where
  handle: "mailbox a = m # ms \<Longrightarrow> run_msg ser perf m (a\<lparr>mailbox := ms\<rparr>) = Some b \<Longrightarrow> actor_internal ser perf a b"
| resources: "0 < resourceAsked a \<Longrightarrow>
    actor_internal ser perf a (post_msg (MDoConsumeWithLatestInfo info) (a\<lparr>resourceAsked := resourceAsked a - 1\<rparr>))"

text \<open>A history: \<open>actor_run ser perf ids a\<close> holds when \<open>a\<close> is reached after the requests \<open>ids\<close>. The ids
  of waiting requests are not used again.\<close>

inductive actor_run ::
  "(resource_affinity \<Rightarrow> string) \<Rightarrow> 'ctx performers \<Rightarrow> string list \<Rightarrow> 'ctx sched_actor \<Rightarrow> bool" for ser perf where
  start: "actor_run ser perf [] (ScheduleQueueActor ty (PriorityScheduler recorder maxPrio policy ctx))"
| single: "actor_run ser perf ids a \<Longrightarrow> request_id req \<notin> waiting_ids a \<Longrightarrow>
    actor_run ser perf (request_id req # ids) (ScheduleDecision ser req tag a)"
| several: "actor_run ser perf ids a \<Longrightarrow> gs_groupReqId spec \<notin> waiting_ids a \<Longrightarrow>
    actor_run ser perf (gs_groupReqId spec # ids) (GroupScheduleDecision ser spec a)"
| update: "actor_run ser perf ids a \<Longrightarrow> actor_run ser perf ids (ScheduleOnResourceUpdate a)"
| cancel: "actor_run ser perf ids a \<Longrightarrow> tag \<noteq> CancelInit \<Longrightarrow> actor_run ser perf ids (cancel_request i tag a)"
| confirm: "actor_run ser perf ids a \<Longrightarrow> actor_run ser perf ids (snd (snd (ScheduleConfirm rsp instanceID a)))"
| internal: "actor_run ser perf ids a \<Longrightarrow> actor_internal ser perf a b \<Longrightarrow> actor_run ser perf ids b"

end
