(* ===== verification/Sched_Actor_Correct.thy ===== *)
theory Sched_Actor_Correct
  imports Sched_Actor
begin

text \<open>
  The scheduling actor strands no request: a request that can be tried has a consumer under way,
  a request that waits for resources is picked up by the next resource update, and every request
  is answered or waits.
\<close>

section \<open>Invariant\<close>

fun is_consumer :: "'ctx actor_msg \<Rightarrow> bool" where
  "is_consumer (MOnCancel i tag) = False"
| "is_consumer _ = True"

definition has_consumer :: "'ctx sched_actor \<Rightarrow> bool" where
  "has_consumer a \<longleftrightarrow> 0 < resourceAsked a \<or> (\<exists>m \<in> set (mailbox a). is_consumer m)"

lemma has_consumer_strategy [simp]: "has_consumer (a\<lparr>scheduleStrategy := x\<rparr>) = has_consumer a"
  by (simp add: has_consumer_def)

abbreviation run_items :: "'ctx sched_actor \<Rightarrow> queue_item list" where
  "run_items a \<equiv> queue_items (runningQueue (scheduleStrategy a))"

abbreviation pend_items :: "'ctx sched_actor \<Rightarrow> queue_item list" where
  "pend_items a \<equiv> queue_items (pendingQueue (scheduleStrategy a))"

text \<open>The status agrees with the queues, up to a running queue that was just consumed.\<close>

definition status_ok :: "'ctx sched_actor \<Rightarrow> bool" where
  "status_ok a \<longleftrightarrow> sched_inv (scheduleStrategy a) \<and> (queueStatus a \<noteq> RUNNING \<longrightarrow> run_items a = []) \<and>
     (queueStatus a = WAITING \<longrightarrow> pend_items a = []) \<and> (queueStatus a = PENDING \<longrightarrow> pend_items a \<noteq> [])"

definition actor_inv :: "'ctx sched_actor \<Rightarrow> bool" where
  "actor_inv a \<longleftrightarrow> status_ok a \<and> (queueStatus a = RUNNING \<longrightarrow> has_consumer a) \<and>
     (\<not> has_consumer a \<and> queueStatus a = PENDING \<longrightarrow> \<not> isNewResourceAvailable a)"

definition accounted :: "string list \<Rightarrow> 'ctx sched_actor \<Rightarrow> bool" where
  "accounted ids a \<longleftrightarrow> set ids \<subseteq> fst ` set (answers (scheduleStrategy a)) \<union> waiting_ids a"

lemma queues_empty_iff:
  assumes "sched_inv s"
  shows "CheckIsQueueEmpty (runningQueue s) \<longleftrightarrow> queue_items (runningQueue s) = []"
    "CheckIsQueueEmpty (pendingQueue s) \<longleftrightarrow> queue_items (pendingQueue s) = []"
  using assms queue_inv_empty_iff by (auto simp: sched_inv_def)

lemma waiting_ids_mset:
  "waiting_ids a = set_mset (queue_ids (runningQueue (scheduleStrategy a)) + queue_ids (pendingQueue (scheduleStrategy a)))"
  by (auto simp: waiting_ids_def queue_ids_def)

lemma post_msg_sels [simp]:
  "scheduleStrategy (post_msg m a) = scheduleStrategy a" "queueStatus (post_msg m a) = queueStatus a"
  "isNewResourceAvailable (post_msg m a) = isNewResourceAvailable a" "mailbox (post_msg m a) = mailbox a @ [m]"
  "resourceAsked (post_msg m a) = resourceAsked a" "allocType (post_msg m a) = allocType a"
  by (simp_all add: post_msg_def)

lemma reply_sels [simp]:
  "scheduleStrategy (reply i st a) = (scheduleStrategy a)\<lparr>answers := answers (scheduleStrategy a) @ [(i, st)]\<rparr>"
  "queueStatus (reply i st a) = queueStatus a" "isNewResourceAvailable (reply i st a) = isNewResourceAvailable a"
  "mailbox (reply i st a) = mailbox a" "resourceAsked (reply i st a) = resourceAsked a"
  by (simp_all add: reply_def)

lemma sched_inv_answers [simp]: "sched_inv (s\<lparr>answers := x\<rparr>) = sched_inv s"
  by (simp add: sched_inv_def)

section \<open>The transition of the status\<close>

definition status_of :: "'ctx scheduler \<Rightarrow> queue_status" where
  "status_of s = (if queue_items (runningQueue s) \<noteq> [] then RUNNING
     else if queue_items (pendingQueue s) \<noteq> [] then PENDING else WAITING)"

lemma transition_alt:
  assumes "sched_inv (scheduleStrategy a)"
  shows "TransitionSchedulerQueueState a =
    (let st = status_of (scheduleStrategy a)
     in if queueStatus a = st then a
        else if st = RUNNING then post_msg MRequestConsumer (a\<lparr>queueStatus := st\<rparr>) else a\<lparr>queueStatus := st\<rparr>)"
  using queues_empty_iff [OF assms]
  by (simp add: TransitionSchedulerQueueState_def STATE_TRANSITIONS_MAP_def status_of_def Let_def)

lemma transition_effect:
  assumes "sched_inv (scheduleStrategy a)"
  defines "b \<equiv> TransitionSchedulerQueueState a"
  shows "scheduleStrategy b = scheduleStrategy a" "queueStatus b = status_of (scheduleStrategy a)"
    "isNewResourceAvailable b = isNewResourceAvailable a" "status_ok b" "resourceAsked b = resourceAsked a"
    "queueStatus a \<noteq> RUNNING \<or> has_consumer a \<Longrightarrow> queueStatus b = RUNNING \<Longrightarrow> has_consumer b"
    "has_consumer a \<Longrightarrow> has_consumer b"
  using assms(1) unfolding b_def transition_alt [OF assms(1)]
  by (auto simp: Let_def status_ok_def status_of_def has_consumer_def split: if_splits)

lemma activate_effect:
  assumes "status_ok a" "queueStatus a = PENDING"
  defines "b \<equiv> TransitionSchedulerQueueState (a\<lparr>scheduleStrategy := ActivatePendingRequests (scheduleStrategy a)\<rparr>)"
  shows "status_ok b" "queueStatus b = RUNNING" "has_consumer b" "waiting_ids b = waiting_ids a" "pend_items b = []"
    "answers (scheduleStrategy b) = answers (scheduleStrategy a)"
    "queue_ids (runningQueue (scheduleStrategy b)) = queue_ids (pendingQueue (scheduleStrategy a))"
proof -
  let ?s = "scheduleStrategy a"
  have s: "sched_inv ?s" "run_items a = []" "pend_items a \<noteq> []" using assms(1,2) by (auto simp: status_ok_def)
  note e = ActivatePendingRequests_effect [OF s(1)]
  have ne: "queue_items (runningQueue (ActivatePendingRequests ?s)) \<noteq> []"
    using e(2) s(3) by (auto simp: queue_ids_def)
  have inv: "sched_inv (scheduleStrategy (a\<lparr>scheduleStrategy := ActivatePendingRequests ?s\<rparr>))" using e(1) by simp
  note t = transition_effect [OF inv, folded b_def]
  show "status_ok b" "queueStatus b = RUNNING" "has_consumer b" "pend_items b = []"
    "answers (scheduleStrategy b) = answers ?s"
    using t ne e(3,4) assms(2) by (auto simp: status_of_def)
  show "queue_ids (runningQueue (scheduleStrategy b)) = queue_ids (pendingQueue ?s)"
    using t(1) e(2) s(2) by (simp add: queue_ids_def)
  then show "waiting_ids b = waiting_ids a"
    using t(1) e(3) s(2) by (simp add: waiting_ids_mset queue_ids_def)
qed

lemma HandlePending_effect:
  assumes "status_ok a" "queueStatus a = RUNNING \<longrightarrow> has_consumer a"
  shows "actor_inv (HandlePendingRequests a)" "waiting_ids (HandlePendingRequests a) = waiting_ids a"
    "answers (scheduleStrategy (HandlePendingRequests a)) = answers (scheduleStrategy a)"
  using activate_effect [OF assms(1)] assms
  by (auto simp: HandlePendingRequests_def actor_inv_def)

section \<open>Every step keeps the invariant\<close>

text \<open>A step that only answers or touches fields outside the invariant.\<close>

lemma actor_inv_reply [simp]: "actor_inv (reply i st a) = actor_inv a"
  by (simp add: actor_inv_def status_ok_def has_consumer_def)

lemma accounted_reply: "accounted ids a \<Longrightarrow> accounted (i # ids) (reply i st a) \<and> accounted ids (reply i st a)"
  by (auto simp: accounted_def waiting_ids_def)

lemma CanSchedule_unblocked:
  assumes "affinityCount s = fmempty"
  shows "CanSchedule ser x s"
proof -
  have "\<not> HasSimilarResourceDemand ser i s" for i
    using assms by (simp add: HasSimilarResourceDemand_def ExistNonAffinityPendingInstances_def has_pending_iff Let_def)
  then show ?thesis
    by (cases x) (auto simp: CanSchedule_def list_ex_iff split: priority_policy_type.split list.split)
qed

lemma Sched_Enqueue_rejects:
  assumes "IsError (fst (Sched_Enqueue ser x s))"
  shows "snd (Sched_Enqueue ser x s) = s"
  using assms by (auto simp: Sched_Enqueue_def Time_Enqueue_def Let_def split: if_splits)

lemma accept_item_step:
  assumes inv: "actor_inv a" "accounted ids a" and new: "GetRequestId x \<notin> waiting_ids a"
  shows "actor_inv (accept_item ser err x a) \<and> accounted (GetRequestId x # ids) (accept_item ser err x a)"
proof -
  let ?s = "scheduleStrategy a"
  obtain res sch where e: "Sched_Enqueue ser x ?s = (res, sch)" by fastforce
  have s: "sched_inv ?s" using inv(1) by (simp add: actor_inv_def status_ok_def)
  show ?thesis
  proof (cases "IsError res")
    case True
    then have "sch = ?s" using Sched_Enqueue_rejects [of ser x ?s] e by simp
    then show ?thesis using True inv accounted_reply [OF inv(2)] by (simp add: accept_item_def e)
  next
    case False
    then have acc: "GetRequestId x \<noteq> []" "GetPriority x \<le> maxPriority (runningQueue ?s)"
      using e s by (auto simp: Sched_Enqueue_def Time_Enqueue_def Let_def sched_inv_def split: if_splits)
    have q: "queue_inv (runningQueue ?s)" "maxPriority (pendingQueue ?s) = maxPriority (runningQueue ?s)"
      using s by (simp_all add: sched_inv_def)
    have ok: "acceptable (maxPriority (runningQueue ?s)) (run_items a) x"
      "acceptable (maxPriority (pendingQueue ?s)) (pend_items a) x"
      using acc new q(2) by (simp_all add: acceptable_def waiting_ids_def image_Un)
    have ef: "sched_inv sch" "queue_ids (runningQueue sch) + queue_ids (pendingQueue sch) =
        add_mset (GetRequestId x) (queue_ids (runningQueue ?s) + queue_ids (pendingQueue ?s))"
      using Sched_Enqueue_effect [OF s ok, of ser] e by simp_all
    let ?b = "a\<lparr>scheduleStrategy := sch\<rparr>"
    have ans: "answers sch = answers ?s"
      using e by (auto simp: Sched_Enqueue_def split: if_splits prod.splits)
    note t = transition_effect [of ?b, simplified, OF ef(1)]
    let ?c = "TransitionSchedulerQueueState ?b"
    have five: "\<not> isNewResourceAvailable ?c" if "\<not> has_consumer ?c" "queueStatus ?c = PENDING"
    proof -
      have no: "\<not> has_consumer a" using that(1) t(7) by auto
      then have "queueStatus a \<noteq> RUNNING" using inv(1) by (auto simp: actor_inv_def)
      moreover have "queueStatus a \<noteq> WAITING"
      proof
        assume w: "queueStatus a = WAITING"
        then have "affinityCount ?s = fmempty" using inv(1) s by (simp add: actor_inv_def status_ok_def sched_inv_def)
        then have "runningQueue sch = snd (Time_Enqueue (Some x) (runningQueue ?s))"
          using e CanSchedule_unblocked [of ?s ser x] by (auto simp: Sched_Enqueue_def split: prod.splits)
        then have "queue_items (runningQueue sch) \<noteq> []"
          using by_time.enq_ok [OF q(1) ok(1)] by simp
        then show False using that(2) t(2) by (simp add: status_of_def)
      qed
      ultimately show ?thesis using inv(1) no t(3) by (cases "queueStatus a") (auto simp: actor_inv_def)
    qed
    have "actor_inv ?c"
      using t(4) t(6) five inv(1) by (auto simp: actor_inv_def)
    moreover have "accounted (GetRequestId x # ids) ?c"
      using inv(2) ans by (simp add: accounted_def waiting_ids_mset t(1) ef(2)) blast
    ultimately show ?thesis
      using False by (auto simp: accept_item_def e Let_def actor_inv_def status_ok_def has_consumer_def accounted_def
          waiting_ids_def)
  qed
qed

lemma update_step:
  assumes "actor_inv a" "accounted ids a"
  shows "actor_inv (ScheduleOnResourceUpdate a) \<and> accounted ids (ScheduleOnResourceUpdate a)"
proof -
  let ?b = "a\<lparr>idleTimer := False, isNewResourceAvailable := True\<rparr>"
  have b: "status_ok ?b" "queueStatus ?b = RUNNING \<longrightarrow> has_consumer ?b" "waiting_ids ?b = waiting_ids a"
    using assms(1) by (auto simp: actor_inv_def status_ok_def has_consumer_def waiting_ids_def)
  then show ?thesis
    using HandlePending_effect [OF b(1,2)] assms(2)
    by (auto simp: ScheduleOnResourceUpdate_def actor_inv_def status_ok_def has_consumer_def accounted_def waiting_ids_def)
qed

subsection \<open>Cancelling\<close>

lemma set_tag_sels [simp]:
  "GetRequestId (set_tag i tag x) = GetRequestId x" "GetPriority (set_tag i tag x) = GetPriority x"
proof -
  have "GetRequestId (set_tag i tag x) = GetRequestId x \<and> GetPriority (set_tag i tag x) = GetPriority x"
    by (cases x) (auto simp: instance_priority_def split: list.split)
  then show "GetRequestId (set_tag i tag x) = GetRequestId x" "GetPriority (set_tag i tag x) = GetPriority x"
    by simp_all
qed

lemma level_tag_queue [simp]: "level (tag_queue i tag q) j = map (set_tag i tag) (level q j)"
  by (simp add: level_def tag_queue_def split: option.split)

lemma tag_queue_sels [simp]:
  "maxPriority (tag_queue i tag q) = maxPriority q" "reqIndex (tag_queue i tag q) = reqIndex q"
  by (simp_all add: tag_queue_def)

lemma queue_items_tag [simp]: "queue_items (tag_queue i tag q) = map (set_tag i tag) (queue_items q)"
proof -
  have "levels (tag_queue i tag q) n = map (set_tag i tag) (levels q n)" for n
    by (induction n) (simp_all add: levels_Suc, simp add: levels_def)
  then show ?thesis by (simp add: queue_items_def)
qed

lemma queue_inv_tag: "queue_inv q \<Longrightarrow> queue_inv (tag_queue i tag q)"
  by (auto simp: queue_inv_def image_image comp_def)

lemma cancel_step:
  assumes "actor_inv a" "accounted ids a"
  shows "actor_inv (cancel_request i tag a) \<and> accounted ids (cancel_request i tag a)"
  using assms
  by (auto simp: cancel_request_def Let_def actor_inv_def status_ok_def sched_inv_def has_consumer_def accounted_def
      waiting_ids_def image_image image_Un queue_inv_tag)

subsection \<open>Consuming\<close>

lemma consume_effect:
  assumes "status_ok a"
  shows "\<exists>b. consume ser perf a = Some b \<and> status_ok b \<and> run_items b = [] \<and> mailbox b = mailbox a \<and>
    resourceAsked b = resourceAsked a \<and> queueStatus b = queueStatus a \<and>
    isNewResourceAvailable b = isNewResourceAvailable a \<and> (accounted ids a \<longrightarrow> accounted ids b)"
proof -
  let ?s = "scheduleStrategy a"
  have s: "sched_inv ?s" using assms by (simp add: status_ok_def)
  obtain t new where t: "ConsumeRunningQueue ser perf ?s = Some t" "sched_inv t" "queue_items (runningQueue t) = []"
    "answers t = answers ?s @ new"
    "mset (map fst new) + queue_ids (pendingQueue t) = queue_ids (runningQueue ?s) + queue_ids (pendingQueue ?s)"
    using round_effect [OF s, of ser perf] by blast
  let ?b = "a\<lparr>scheduleStrategy := t\<rparr>"
  have same: "t = ?s" if "run_items a = []"
    using t(1) that queues_empty_iff(1) [OF s] by (simp add: ConsumeRunningQueue.simps)
  have "status_ok ?b"
    using assms t(2,3) same by (cases "queueStatus a") (auto simp: status_ok_def)
  moreover have "accounted ids ?b" if "accounted ids a"
  proof -
    have w: "waiting_ids a = fst ` set new \<union> waiting_ids ?b"
      using t(3) arg_cong [OF t(5), of set_mset] by (simp add: waiting_ids_mset queue_ids_def image_image)
    show ?thesis using that unfolding accounted_def w by (auto simp: t(4))
  qed
  ultimately show ?thesis using t(1,3) by (simp add: consume_def)
qed

lemma current_effect:
  assumes "status_ok a" "accounted ids a"
  shows "\<exists>b. DoConsumeWithCurrentInfo ser perf a = Some b \<and> actor_inv b \<and> accounted ids b \<and>
    (run_items a = [] \<or> run_items b = [])"
proof (cases "run_items a = []")
  case True
  have s: "sched_inv (scheduleStrategy a)" using assms(1) by (simp add: status_ok_def)
  let ?b = "TransitionSchedulerQueueState a"
  note t = transition_effect [OF s]
  have "queueStatus ?b \<noteq> RUNNING" using t(2) True by (simp add: status_of_def)
  moreover have "waiting_ids ?b = waiting_ids a" by (simp add: waiting_ids_def t(1))
  ultimately show ?thesis
    using HandlePending_effect [OF t(4)] True queues_empty_iff [OF s] assms(2) t(1)
    by (simp add: DoConsumeWithCurrentInfo_def accounted_def)
next
  case False
  have s: "sched_inv (scheduleStrategy a)" using assms(1) by (simp add: status_ok_def)
  obtain b where b: "consume ser perf a = Some b" "status_ok b" "accounted ids b" "run_items b = []"
    using consume_effect [OF assms(1), of ser perf ids] assms(2) by blast
  have "actor_inv (post_msg MDoConsumeWithCurrentInfo b)" "accounted ids (post_msg MDoConsumeWithCurrentInfo b)"
    using b(2,3) by (auto simp: actor_inv_def status_ok_def has_consumer_def accounted_def waiting_ids_def)
  then show ?thesis using b(1,4) False queues_empty_iff [OF s] by (simp add: DoConsumeWithCurrentInfo_def)
qed

lemma latest_effect:
  assumes "status_ok a" "accounted ids a"
  shows "\<exists>b. DoConsumeWithLatestInfo ser perf info a = Some b \<and> actor_inv b \<and> accounted ids b \<and> run_items b = []"
proof -
  let ?u = "UpdateResourceInfo info a"
  have u: "status_ok ?u" "accounted ids ?u"
    using assms by (auto simp: UpdateResourceInfo_def HandleResourceInfoUpdate_def status_ok_def sched_inv_def accounted_def
        waiting_ids_def split: option.split)
  obtain b where b: "consume ser perf ?u = Some b" "status_ok b" "accounted ids b" "run_items b = []"
    using consume_effect [OF u(1), of ser perf ids] u(2) by blast
  then show ?thesis
    by (auto simp: DoConsumeWithLatestInfo_def actor_inv_def status_ok_def has_consumer_def accounted_def waiting_ids_def)
qed

text \<open>Handling a message keeps the invariant. It consumes the running queue, or leaves it as it is
  and the mailbox shorter.\<close>

lemma handle_step:
  assumes inv: "actor_inv a" "accounted ids a" and m: "mailbox a = m # ms"
  shows "\<exists>b. run_msg ser perf m (a\<lparr>mailbox := ms\<rparr>) = Some b \<and> actor_inv b \<and> accounted ids b \<and>
    (run_items a = [] \<or> run_items b = [] \<or> run_items b = run_items a \<and> mailbox b = ms)"
proof -
  let ?a = "a\<lparr>mailbox := ms\<rparr>"
  have a: "status_ok ?a" "accounted ids ?a"
    using inv by (auto simp: actor_inv_def status_ok_def accounted_def waiting_ids_def)
  note current = current_effect [OF a, of ser perf]
  show ?thesis
  proof (cases m)
    case MRequestConsumer
    have "actor_inv (?a\<lparr>resourceAsked := resourceAsked a + 1\<rparr>)" "accounted ids (?a\<lparr>resourceAsked := resourceAsked a + 1\<rparr>)"
      using a by (auto simp: actor_inv_def status_ok_def has_consumer_def accounted_def waiting_ids_def)
    then show ?thesis using MRequestConsumer current by (auto simp: RequestConsumer_def)
  next
    case (MDoConsumeWithLatestInfo info)
    then show ?thesis using latest_effect [OF a, of ser perf info] by auto
  next
    case MDoConsumeWithCurrentInfo
    then show ?thesis using current by auto
  next
    case (MOnCancel i tag)
    then have "has_consumer ?a = has_consumer a" using m by (auto simp: has_consumer_def)
    then have "actor_inv ?a" using inv(1) a(1) by (simp add: actor_inv_def)
    then show ?thesis
      using MOnCancel a(2) accounted_reply [OF a(2)] by (auto simp: OnCancelSchedule_def split: cancel_tag.split)
  qed
qed

lemma resources_step:
  assumes "actor_inv a" "accounted ids a" "0 < resourceAsked a"
  shows "actor_inv (post_msg (MDoConsumeWithLatestInfo info) (a\<lparr>resourceAsked := resourceAsked a - 1\<rparr>))"
    "accounted ids (post_msg (MDoConsumeWithLatestInfo info) (a\<lparr>resourceAsked := resourceAsked a - 1\<rparr>))"
  using assms by (auto simp: actor_inv_def status_ok_def has_consumer_def accounted_def waiting_ids_def)

lemma actor_internal_inv:
  assumes "actor_internal ser perf a b" "actor_inv a" "accounted ids a"
  shows "actor_inv b \<and> accounted ids b"
  using assms(1)
proof cases
  case (handle m ms)
  then show ?thesis using handle_step [OF assms(2,3) handle(1), of ser perf] by auto
next
  case (resources info)
  then show ?thesis using resources_step [OF assms(2,3)] by simp
qed

lemma actor_run_inv:
  "actor_run ser perf ids a \<Longrightarrow> actor_inv a \<and> accounted ids a"
proof (induction rule: actor_run.induct)
  case (start ty recorder maxPrio policy ctx)
  then show ?case
    by (simp add: ScheduleQueueActor_def actor_inv_def status_ok_def accounted_def sched_inv_new)
      (simp add: PriorityScheduler_def queue_inv_new)
next
  case (single ids a req tag)
  then show ?case
    using accept_item_step [of a ids "InstanceItem \<lparr>ii_req = req, ii_cancelTag = tag, ii_hasFailed = False\<rparr>" ser]
    by (simp add: ScheduleDecision_def request_id_def)
next
  case (several ids a spec)
  then show ?case
    using accept_item_step [of a ids "GroupItem (group_of spec)" ser] accounted_reply [of ids a]
    by (simp add: GroupScheduleDecision_def group_of_def)
next
  case (update ids a)
  then show ?case using update_step by blast
next
  case (cancel ids a tag i)
  then show ?case using cancel_step by blast
next
  case (confirm ids a rsp instanceID)
  then show ?case
    by (auto simp: ScheduleConfirm_def Let_def actor_inv_def status_ok_def has_consumer_def accounted_def waiting_ids_def
        split: option.split)
next
  case (internal ids a b)
  then show ?case using actor_internal_inv by blast
qed

lemma internal_consumes:
  assumes "actor_inv a" "accounted ids a"
  shows "\<exists>b. (actor_internal ser perf)\<^sup>*\<^sup>* a b \<and> actor_inv b \<and> accounted ids b \<and> run_items b = []"
  using assms
proof (induction "length (mailbox a)" arbitrary: a rule: less_induct)
  case less
  consider (empty) "run_items a = []" | (asked) "run_items a \<noteq> []" "mailbox a = []"
    | (mail) m ms where "run_items a \<noteq> []" "mailbox a = m # ms"
    by (meson list.exhaust)
  then show ?case
  proof cases
    case empty
    then show ?thesis using less.prems by blast
  next
    case asked
    then have r: "0 < resourceAsked a"
      using less.prems(1) by (auto simp: actor_inv_def status_ok_def has_consumer_def)
    let ?b = "post_msg (MDoConsumeWithLatestInfo None) (a\<lparr>resourceAsked := resourceAsked a - 1\<rparr>)"
    have b: "actor_internal ser perf a ?b" using r by (rule actor_internal.resources)
    have m: "mailbox ?b = [MDoConsumeWithLatestInfo None]" using asked by simp
    have s: "status_ok (?b\<lparr>mailbox := []\<rparr>)" "accounted ids (?b\<lparr>mailbox := []\<rparr>)"
      using less.prems by (auto simp: actor_inv_def status_ok_def accounted_def waiting_ids_def)
    obtain c where c: "DoConsumeWithLatestInfo ser perf None (?b\<lparr>mailbox := []\<rparr>) = Some c" "actor_inv c"
      "accounted ids c" "run_items c = []"
      using latest_effect [OF s, of ser perf None] by blast
    have "actor_internal ser perf ?b c" using actor_internal.handle [OF m, of ser perf c] c(1) by simp
    then show ?thesis using b c(2-4) by (meson converse_rtranclp_into_rtranclp rtranclp.rtrancl_refl)
  next
    case mail
    obtain b where b: "run_msg ser perf m (a\<lparr>mailbox := ms\<rparr>) = Some b" "actor_inv b" "accounted ids b"
      "run_items b = [] \<or> mailbox b = ms"
      using handle_step [OF less.prems mail(2), of ser perf] mail(1) by blast
    have step: "actor_internal ser perf a b" using mail(2) b(1) by (rule actor_internal.handle)
    show ?thesis
    proof (cases "run_items b = []")
      case True
      then show ?thesis using step b(2,3) by blast
    next
      case False
      then have "length (mailbox b) < length (mailbox a)" using b(4) mail(2) by simp
      from less.hyps [OF this b(2,3)] show ?thesis using step by (meson converse_rtranclp_into_rtranclp)
    qed
  qed
qed

section \<open>Theorems\<close>


text \<open>
  C33: A resource update wakes the waiting requests. When the actor is idle, the update moves all
  pending requests into the running queue and asks for a consumer; and from every reachable state
  the work under way leads, whatever the performers answer, to an empty running queue with every
  request answered or pending again.
\<close>

theorem resource_update_wakes:
  assumes "actor_run ser perf ids a"
  shows "(\<not> has_consumer a \<longrightarrow>
      queue_ids (runningQueue (scheduleStrategy (ScheduleOnResourceUpdate a))) = queue_ids (pendingQueue (scheduleStrategy a)) \<and>
      pend_items (ScheduleOnResourceUpdate a) = []) \<and>
    (\<exists>b. (actor_internal ser perf)\<^sup>*\<^sup>* (ScheduleOnResourceUpdate a) b \<and> run_items b = [] \<and>
      set ids \<subseteq> fst ` set (answers (scheduleStrategy b)) \<union> GetRequestId ` set (pend_items b))"
proof -
  have a: "actor_inv a" "accounted ids a" using actor_run_inv [OF assms] by simp_all
  let ?b = "a\<lparr>idleTimer := False, isNewResourceAvailable := True\<rparr>"
  have ok: "status_ok ?b" using a(1) by (simp add: actor_inv_def status_ok_def)
  have "queue_ids (runningQueue (scheduleStrategy (ScheduleOnResourceUpdate a))) = queue_ids (pendingQueue (scheduleStrategy a)) \<and>
      pend_items (ScheduleOnResourceUpdate a) = []" if "\<not> has_consumer a"
  proof (cases "queueStatus a")
    case PENDING
    then show ?thesis
      using activate_effect(5,7) [OF ok] by (simp add: ScheduleOnResourceUpdate_def HandlePendingRequests_def)
  qed (use a(1) that in \<open>auto simp: actor_inv_def status_ok_def queue_ids_def ScheduleOnResourceUpdate_def HandlePendingRequests_def\<close>)
  moreover obtain c where "(actor_internal ser perf)\<^sup>*\<^sup>* (ScheduleOnResourceUpdate a) c" "accounted ids c" "run_items c = []"
    using internal_consumes update_step [OF a] by blast
  ultimately show ?thesis by (auto simp: accounted_def waiting_ids_def)
qed

text \<open>One request, just accepted.\<close>

definition demo_actor :: "nat sched_actor" where
  "demo_actor = ScheduleDecision (\<lambda>_. ''a'') (ii_req (demo_instance ''r1'' 0 ''20'')) CancelInit
     (ScheduleQueueActor PRE_ALLOCATION (PriorityScheduler True 1 FAIRNESS 0))"

lemma demo_actor_run: "actor_run (\<lambda>_. ''a'') demo_performers [''r1''] demo_actor"
proof -
  have i: "request_id (ii_req (demo_instance ''r1'' 0 ''20'')) = ''r1''"
    by (simp add: request_id_def demo_instance_def)
  have "request_id (ii_req (demo_instance ''r1'' 0 ''20'')) \<notin>
      waiting_ids (ScheduleQueueActor PRE_ALLOCATION (PriorityScheduler True 1 FAIRNESS (0 :: nat)))"
    by (simp add: waiting_ids_def ScheduleQueueActor_def PriorityScheduler_def queue_inv_new)
  from actor_run.single [OF actor_run.start this] show ?thesis
    unfolding i demo_actor_def .
qed


theorem resource_update_wakes_witness:
  "\<exists>b. (actor_internal (\<lambda>_. ''a'') demo_performers)\<^sup>*\<^sup>* (ScheduleOnResourceUpdate demo_actor) b \<and> run_items b = [] \<and>
     ''r1'' \<in> fst ` set (answers (scheduleStrategy b)) \<union> GetRequestId ` set (pend_items b)"
  using resource_update_wakes [OF demo_actor_run] by auto

end
