(* ===== verification/Instance_Types.thy ===== *)
theory Instance_Types
  imports Std_Numbers
begin

text \<open>
  The data of a function instance: its states (\<^verbatim>\<open>src/functionsystem/src/common/types/instance_state.h\<close>), the
  messages \<^verbatim>\<open>InstanceInfo\<close> and \<^verbatim>\<open>RouteInfo\<close> (\<^verbatim>\<open>src/proto/posix/resource.proto\<close>), the keys an instance is
  stored under, and the tests on create options that the state machine uses. A message has the
  fields that the state machine reads or writes; the remaining ones are one opaque field.
\<close>

section \<open>States\<close>

text \<open>\<open>IS_OTHER\<close> is a number that names no state.\<close>

datatype instance_state =
    IS_NEW
  | IS_SCHEDULING
  | IS_CREATING
  | IS_RUNNING
  | IS_FAILED
  | IS_EXITING
  | IS_FATAL
  | IS_SCHEDULE_FAILED
  | IS_EXITED
  | IS_EVICTING
  | IS_EVICTED
  | IS_SUB_HEALTH
  | IS_SUSPEND
  | IS_PAUSED
  | IS_OTHER int

definition all_states :: "instance_state list" where
  "all_states = [IS_NEW, IS_SCHEDULING, IS_CREATING, IS_RUNNING, IS_FAILED, IS_EXITING, IS_FATAL, IS_SCHEDULE_FAILED,
     IS_EXITED, IS_EVICTING, IS_EVICTED, IS_SUB_HEALTH, IS_SUSPEND, IS_PAUSED]"

fun code_of :: "instance_state \<Rightarrow> int" where
  "code_of IS_NEW = 0"
| "code_of IS_SCHEDULING = 1"
| "code_of IS_CREATING = 2"
| "code_of IS_RUNNING = 3"
| "code_of IS_FAILED = 4"
| "code_of IS_EXITING = 5"
| "code_of IS_FATAL = 6"
| "code_of IS_SCHEDULE_FAILED = 7"
| "code_of IS_EXITED = 8"
| "code_of IS_EVICTING = 9"
| "code_of IS_EVICTED = 10"
| "code_of IS_SUB_HEALTH = 11"
| "code_of IS_SUSPEND = 12"
| "code_of IS_PAUSED = 13"
| "code_of (IS_OTHER n) = n"

text \<open>\<^verbatim>\<open>static_cast<InstanceState>\<close>.\<close>

definition state_of :: "int \<Rightarrow> instance_state" where
  "state_of n = (if 0 \<le> n \<and> n < 14 then all_states ! nat n else IS_OTHER n)"

lemma state_of_code_of: "s \<in> set all_states \<Longrightarrow> state_of (code_of s) = s"
  by (auto simp: all_states_def state_of_def)

lemma code_of_state_of: "code_of (state_of n) = n"
proof (cases "0 \<le> n \<and> n < 14")
  case True
  then have "n \<in> set [0..13]" by simp
  then have "list_all (\<lambda>k. n = k \<longrightarrow> code_of (state_of k) = k) [0..13] \<Longrightarrow> ?thesis" by (auto simp: list_all_iff)
  moreover have "list_all (\<lambda>k. n = k \<longrightarrow> code_of (state_of k) = k) [0..13]"
    by (simp add: upto.simps state_of_def all_states_def)
  ultimately show ?thesis by blast
qed (auto simp: state_of_def)

definition NO_UPDATE_ROUTE_STATE :: "instance_state set" where
  "NO_UPDATE_ROUTE_STATE = {IS_CREATING}"

definition NO_UPDATE_ROUTE_STATE_WITH_META_STORE :: "instance_state set" where
  "NO_UPDATE_ROUTE_STATE_WITH_META_STORE = {IS_SCHEDULING, IS_CREATING}"

definition NeedUpdateRouteState :: "instance_state \<Rightarrow> bool \<Rightarrow> bool" where
  "NeedUpdateRouteState state isMetaStoreEnable \<longleftrightarrow>
     (if isMetaStoreEnable then state \<notin> NO_UPDATE_ROUTE_STATE_WITH_META_STORE else state \<notin> NO_UPDATE_ROUTE_STATE)"

definition INSTANCE_MANAGER_OWNER :: string where
  "INSTANCE_MANAGER_OWNER = ''InstanceManagerOwner''"

section \<open>Messages\<close>

record instance_status =
  is_code :: int
  is_exitcode :: int
  is_msg :: string
  is_type :: int
  is_errcode :: int

record snapshot_info =
  sn_checkpointid :: string
  sn_storage :: string
  sn_createtime :: string
  sn_ttlseconds :: int
  sn_ready :: bool
  sn_rest :: string

text \<open>\<open>ii_rest\<close> stands for the fields that no definition here touches, \<open>ii_snapshotinfo\<close> is absent when
  the sub-message is not set.\<close>

record instance_info =
  ii_instanceid :: string
  ii_requestid :: string
  ii_runtimeid :: string
  ii_runtimeaddress :: string
  ii_functionagentid :: string
  ii_functionproxyid :: string
  ii_function :: string
  ii_createoptions :: "(string, string) fmap"
  ii_starttime :: string
  ii_status :: instance_status
  ii_jobid :: string
  ii_parentid :: string
  ii_args :: "string list"
  ii_ischeckpointed :: bool
  ii_version :: int
  ii_tenantid :: string
  ii_issystemfunc :: bool
  ii_groupid :: string
  ii_lowreliability :: bool
  ii_extensions :: "(string, string) fmap"
  ii_unitid :: string
  ii_trafficreporttype :: int
  ii_containerid :: string
  ii_proxygrpcaddress :: string
  ii_snapshotinfo :: "snapshot_info option"
  ii_executortype :: int
  ii_containerip :: string
  ii_failover :: bool
  ii_rest :: string

definition status_default :: instance_status where
  "status_default = \<lparr>is_code = 0, is_exitcode = 0, is_msg = [], is_type = 0, is_errcode = 0\<rparr>"

definition info_default :: instance_info where
  "info_default = \<lparr>ii_instanceid = [], ii_requestid = [], ii_runtimeid = [], ii_runtimeaddress = [], ii_functionagentid = [],
     ii_functionproxyid = [], ii_function = [], ii_createoptions = fmempty, ii_starttime = [], ii_status = status_default,
     ii_jobid = [], ii_parentid = [], ii_args = [], ii_ischeckpointed = False, ii_version = 0, ii_tenantid = [],
     ii_issystemfunc = False, ii_groupid = [], ii_lowreliability = False, ii_extensions = fmempty, ii_unitid = [],
     ii_trafficreporttype = 0, ii_containerid = [], ii_proxygrpcaddress = [], ii_snapshotinfo = None, ii_executortype = 0,
     ii_containerip = [], ii_failover = False, ii_rest = []\<rparr>"

record route_info =
  ri_instanceid :: string
  ri_runtimeaddress :: string
  ri_functionagentid :: string
  ri_function :: string
  ri_functionproxyid :: string
  ri_status :: instance_status
  ri_jobid :: string
  ri_parentid :: string
  ri_requestid :: string
  ri_tenantid :: string
  ri_issystemfunc :: bool
  ri_version :: int
  ri_trafficreporttype :: int
  ri_proxygrpcaddress :: string

definition TransToRouteInfoFromInstanceInfo :: "instance_info \<Rightarrow> route_info" where
  "TransToRouteInfoFromInstanceInfo i =
     \<lparr>ri_instanceid = ii_instanceid i, ri_runtimeaddress = ii_runtimeaddress i, ri_functionagentid = ii_functionagentid i,
      ri_function = ii_function i, ri_functionproxyid = ii_functionproxyid i, ri_status = ii_status i, ri_jobid = ii_jobid i,
      ri_parentid = ii_parentid i, ri_requestid = ii_requestid i, ri_tenantid = ii_tenantid i,
      ri_issystemfunc = ii_issystemfunc i, ri_version = ii_version i, ri_trafficreporttype = ii_trafficreporttype i,
      ri_proxygrpcaddress = ii_proxygrpcaddress i\<rparr>"

text \<open>The traffic report type is not carried back.\<close>

definition TransToInstanceInfoFromRouteInfo :: "route_info \<Rightarrow> instance_info" where
  "TransToInstanceInfoFromRouteInfo r = info_default
     \<lparr>ii_instanceid := ri_instanceid r, ii_runtimeaddress := ri_runtimeaddress r, ii_functionagentid := ri_functionagentid r,
      ii_function := ri_function r, ii_functionproxyid := ri_functionproxyid r, ii_jobid := ri_jobid r,
      ii_parentid := ri_parentid r, ii_requestid := ri_requestid r, ii_tenantid := ri_tenantid r,
      ii_issystemfunc := ri_issystemfunc r, ii_version := ri_version r, ii_status := ri_status r,
      ii_proxygrpcaddress := ri_proxygrpcaddress r\<rparr>"

section \<open>Keys\<close>

text \<open>\<^verbatim>\<open>litebus::strings::Split\<close> with a pattern of one character.\<close>

fun Split :: "char \<Rightarrow> string \<Rightarrow> string list" where
  "Split c [] = [[]]"
| "Split c (x # xs) =
     (if x = c then [] # Split c xs
      else case Split c xs of y # ys \<Rightarrow> (x # y) # ys | [] \<Rightarrow> [[x]])"

definition GenInstanceKey :: "string \<Rightarrow> string \<Rightarrow> string \<Rightarrow> string option" where
  "GenInstanceKey functionKey instanceID requestID =
     (case Split (CHR ''/'') functionKey of
        [tenant, func, version] \<Rightarrow>
          Some (''/sn/instance/business/yrk/tenant'' @ ''/'' @ tenant @ ''/function/'' @ func @ ''/version/'' @ version @
            ''/defaultaz/'' @ requestID @ ''/'' @ instanceID)
      | _ \<Rightarrow> None)"

definition GenInstanceRouteKey :: "string \<Rightarrow> string" where
  "GenInstanceRouteKey instanceID = ''/yr/route/business/yrk'' @ ''/'' @ instanceID"

lemma Split_nonempty [simp]: "Split c xs \<noteq> []"
  by (induction xs) (auto split: list.splits)

text \<open>The record and the route never share a key.\<close>

lemma keys_differ: "GenInstanceKey f i r = Some k \<Longrightarrow> p @ k \<noteq> p @ GenInstanceRouteKey j"
  by (auto simp: GenInstanceKey_def GenInstanceRouteKey_def split: list.splits)

section \<open>Create options\<close>

definition IsAppDriver :: "(string, string) fmap \<Rightarrow> bool" where
  "IsAppDriver opts \<longleftrightarrow> fmlookup opts ''ENTRYPOINT'' \<noteq> None"

definition IsDebugInstance :: "(string, string) fmap \<Rightarrow> bool" where
  "IsDebugInstance opts \<longleftrightarrow> fmlookup opts ''debug_config'' \<noteq> None"

definition IsStaticFunctionInstance :: "instance_info \<Rightarrow> bool" where
  "IsStaticFunctionInstance i \<longleftrightarrow> fmlookup (ii_createoptions i) ''resource.owner'' = Some ''static_function''"

text \<open>\<^verbatim>\<open>std::stoi\<close>: \<open>None\<close> when it throws.\<close>

definition stoi :: "string \<Rightarrow> int option" where
  "stoi s = (case stoll s of Some v \<Rightarrow> if - (2 ^ 31) \<le> v \<and> v < 2 ^ 31 then Some v else None | None \<Rightarrow> None)"

definition GetRuntimeRecoverTimes :: "instance_info \<Rightarrow> int" where
  "GetRuntimeRecoverTimes i =
     (case fmlookup (ii_createoptions i) ''RecoverRetryTimes'' of
        None \<Rightarrow> 0
      | Some v \<Rightarrow> (case stoi v of Some n \<Rightarrow> n | None \<Rightarrow> 0))"

text \<open>The state machine calls it without a cancel tag.\<close>

definition IsRuntimeRecoverEnable :: "instance_info \<Rightarrow> bool" where
  "IsRuntimeRecoverEnable i \<longleftrightarrow> GetRuntimeRecoverTimes i > 0"

definition IsLowReliabilityInstance :: "bool \<Rightarrow> instance_info \<Rightarrow> bool" where
  "IsLowReliabilityInstance forceLow i \<longleftrightarrow> forceLow \<or> fmlookup (ii_createoptions i) ''ReliabilityType'' = Some ''low''"

section \<open>Resumed instances (resume_identity.cpp)\<close>

definition ParsePositiveInt64 :: "string \<Rightarrow> int option" where
  "ParsePositiveInt64 v =
     (if v = [] then None
      else
        case stoll v of
          None \<Rightarrow> None
        | Some number \<Rightarrow>
            let rest = dropWhile is_space v;
                rest = (case rest of c # cs \<Rightarrow> if c = CHR ''-'' \<or> c = CHR ''+'' then cs else rest | [] \<Rightarrow> [])
            in if dropWhile is_digit rest \<noteq> [] \<or> number \<le> 0 then None else Some number)"

definition IsCompleteReadySnapshot :: "snapshot_info \<Rightarrow> bool" where
  "IsCompleteReadySnapshot s \<longleftrightarrow> sn_ready s \<and> sn_checkpointid s \<noteq> [] \<and>
     (sn_storage s = ''obs'' \<or> sn_storage s = ''datasystem'' \<or> sn_storage s = ''local'') \<and>
     sn_ttlseconds s > 0 \<and> ParsePositiveInt64 (sn_createtime s) \<noteq> None"

definition AppendIdentityPart :: "string \<Rightarrow> string \<Rightarrow> string" where
  "AppendIdentityPart identity part = identity @ to_string (int (length part)) @ '':'' @ part"

text \<open>The hexadecimal digest comes from a cryptographic library and is a parameter.\<close>

definition RuntimeID :: "(string \<Rightarrow> string) \<Rightarrow> string \<Rightarrow> string \<Rightarrow> string" where
  "RuntimeID sha256Hex logicalInstanceID targetAttemptID =
     ''yr-resume-'' @ take 40 (sha256Hex (AppendIdentityPart (AppendIdentityPart [] logicalInstanceID) targetAttemptID))"

end
