(* ===== verification/Retry_Helper.thy ===== *)
theory Retry_Helper
  imports FS_Prelude
begin

text \<open>
  Requests that are sent again until they are answered (\<^verbatim>\<open>BackOffRetryHelper\<close> and the macro
  \<^verbatim>\<open>BACK_OFF_RETRY_HELPER\<close> of \<^verbatim>\<open>src/functionsystem/src/common/utils/request_sync_helper.h\<close>): the state of a
  helper with its mailbox and its timers, the operations, and the steps of an actor that owns the
  helper. The waiting times of the timers do not matter here: an armed timer may expire at any
  moment.
\<close>

section \<open>State\<close>

text \<open>A message \<^verbatim>\<open>Retry##member_\<close> of the actor to itself. The address is absent when the pointer is
  null.\<close>

record 'm retry_msg =
  rt_key :: string
  rt_to :: "string option"
  rt_method :: string
  rt_msg :: 'm
  rt_attempt :: int

text \<open>How a promise is settled: \<^verbatim>\<open>SetValue\<close>, or \<^verbatim>\<open>SetFailed\<close> with a code.\<close>

datatype 'r settled_promise = SetValue 'r | SetFailed status_code

text \<open>\<^verbatim>\<open>requestMatch_\<close> holds per key the timer of its entry, if one was armed. \<open>timers\<close> are the armed
  timers with the message each posts, \<open>retries\<close> the posted messages in order; \<open>settled_log\<close> and
  \<open>sent_log\<close> record the promises settled and the messages sent.\<close>

record ('m, 'r) retry_helper =
  requestMatch :: "(string, nat option) fmap"
  attemptLimit :: int
  timers :: "(nat \<times> 'm retry_msg) list"
  next_timer :: nat
  retries :: "'m retry_msg list"
  settled_log :: "(string \<times> 'r settled_promise) list"
  sent_log :: "(string \<times> 'm retry_msg) list"

definition BackOffRetryHelper :: "int \<Rightarrow> ('m, 'r) retry_helper" where
  "BackOffRetryHelper limit = \<lparr>requestMatch = fmempty, attemptLimit = limit, timers = [], next_timer = 0,
     retries = [], settled_log = [], sent_log = []\<rparr>"

section \<open>Operations\<close>

definition Exist :: "string \<Rightarrow> ('m, 'r) retry_helper \<Rightarrow> bool" where
  "Exist key h \<longleftrightarrow> fmlookup (requestMatch h) key \<noteq> None"

definition Begin ::
  "string \<Rightarrow> string option \<Rightarrow> string \<Rightarrow> 'm \<Rightarrow> ('m, 'r) retry_helper \<Rightarrow> ('m, 'r) retry_helper" where
  "Begin key aid method msg h =
     h\<lparr>requestMatch := fmupd key None (requestMatch h),
       retries := retries h @ [\<lparr>rt_key = key, rt_to = aid, rt_method = method, rt_msg = msg, rt_attempt = 1\<rparr>]\<rparr>"

definition cancel_timer :: "nat option \<Rightarrow> ('m, 'r) retry_helper \<Rightarrow> ('m, 'r) retry_helper" where
  "cancel_timer t h = (case t of None \<Rightarrow> h | Some i \<Rightarrow> h\<lparr>timers := filter (\<lambda>x. fst x \<noteq> i) (timers h)\<rparr>)"

definition End :: "string \<Rightarrow> 'r \<Rightarrow> ('m, 'r) retry_helper \<Rightarrow> ('m, 'r) retry_helper" where
  "End key rsp h =
     (case fmlookup (requestMatch h) key of
        None \<Rightarrow> h
      | Some t \<Rightarrow>
          let h = h\<lparr>settled_log := settled_log h @ [(key, SetValue rsp)]\<rparr>;
              h = cancel_timer t h
          in h\<lparr>requestMatch := fmdrop key (requestMatch h)\<rparr>)"

definition AddTimer ::
  "string \<Rightarrow> string option \<Rightarrow> string \<Rightarrow> 'm \<Rightarrow> int \<Rightarrow> ('m, 'r) retry_helper \<Rightarrow> ('m, 'r) retry_helper" where
  "AddTimer key aid method msg attempt h =
     (if fmlookup (requestMatch h) key = None then h
      else h\<lparr>timers := timers h @ [(next_timer h, \<lparr>rt_key = key, rt_to = aid, rt_method = method, rt_msg = msg,
               rt_attempt = attempt\<rparr>)],
             requestMatch := fmupd key (Some (next_timer h)) (requestMatch h),
             next_timer := Suc (next_timer h)\<rparr>)"

definition Failed :: "string \<Rightarrow> ('m, 'r) retry_helper \<Rightarrow> ('m, 'r) retry_helper" where
  "Failed key h =
     (if fmlookup (requestMatch h) key = None then h
      else h\<lparr>settled_log := settled_log h @ [(key, SetFailed REQUEST_TIME_OUT)],
             requestMatch := fmdrop key (requestMatch h)\<rparr>)"

definition ExceedAttemptLimit :: "int \<Rightarrow> ('m, 'r) retry_helper \<Rightarrow> bool" where
  "ExceedAttemptLimit attempt h \<longleftrightarrow> (if attemptLimit h = -1 then False else attempt > attemptLimit h)"

text \<open>The loop visits the keys of an unordered map; the model takes them in ascending order.\<close>

definition EndAll :: "'r \<Rightarrow> ('m, 'r) retry_helper \<Rightarrow> ('m, 'r) retry_helper" where
  "EndAll rsp h = fold (\<lambda>(key, t) h. End key rsp h) (sorted_list_of_fmap (requestMatch h)) h"

definition Retry :: "'m retry_msg \<Rightarrow> ('m, 'r) retry_helper \<Rightarrow> ('m, 'r) retry_helper" where
  "Retry r h =
     (case rt_to r of
        None \<Rightarrow> h
      | Some aid \<Rightarrow>
          if ExceedAttemptLimit (rt_attempt r) h then Failed (rt_key r) h
          else
            let h = AddTimer (rt_key r) (rt_to r) (rt_method r) (rt_msg r) (rt_attempt r + 1) h
            in h\<lparr>sent_log := sent_log h @ [(aid, r)]\<rparr>)"

section \<open>Steps\<close>

text \<open>The owner begins requests under fresh keys (random UUIDs) with an address, answers arrive, timers
  expire and posted messages run.\<close>

text \<open>An expired timer posts its message; from then on cancelling the timer has no effect.\<close>

inductive retry_internal :: "('m, 'r) retry_helper \<Rightarrow> ('m, 'r) retry_helper \<Rightarrow> bool" where
  expire: "timers h = xs @ (i, r) # ys \<Longrightarrow>
     retry_internal h (h\<lparr>timers := xs @ ys, retries := retries h @ [r]\<rparr>)"
| post: "retries h = r # rest \<Longrightarrow> retry_internal h (Retry r (h\<lparr>retries := rest\<rparr>))"

text \<open>The keys begun so far are part of the run.\<close>

inductive retry_run :: "int \<Rightarrow> string list \<Rightarrow> ('m, 'r) retry_helper \<Rightarrow> bool" for limit :: int where
  start: "retry_run limit [] (BackOffRetryHelper limit)"
| begin_: "retry_run limit ks h \<Longrightarrow> key \<notin> set ks \<Longrightarrow> retry_run limit (ks @ [key]) (Begin key (Some aid) method msg h)"
| end_: "retry_run limit ks h \<Longrightarrow> retry_run limit ks (End key rsp h)"
| end_all: "retry_run limit ks h \<Longrightarrow> retry_run limit ks (EndAll rsp h)"
| internal: "retry_run limit ks h \<Longrightarrow> retry_internal h h' \<Longrightarrow> retry_run limit ks h'"

inductive_cases retry_internalE: "retry_internal h h'"

section \<open>Invariant\<close>

text \<open>The messages that are posted or wait for a timer, and the messages sent about a key.\<close>

definition pending :: "('m, 'r) retry_helper \<Rightarrow> 'm retry_msg list" where
  "pending h = retries h @ map snd (timers h)"

definition sent_for :: "string \<Rightarrow> ('m, 'r) retry_helper \<Rightarrow> int list" where
  "sent_for key h = map (rt_attempt \<circ> snd) (filter (\<lambda>x. rt_key (snd x) = key) (sent_log h))"

text \<open>There is at most one message per key, with an attempt above those sent; every open request has
  one; a request is open or settled once.\<close>

definition timers_ok :: "('m, 'r) retry_helper \<Rightarrow> bool" where
  "timers_ok h \<longleftrightarrow> distinct (map fst (timers h)) \<and> (\<forall>x \<in> set (timers h). fst x < next_timer h) \<and>
     (\<forall>key i. fmlookup (requestMatch h) key = Some (Some i) \<longrightarrow>
        i < next_timer h \<and> (\<forall>r. (i, r) \<in> set (timers h) \<longrightarrow> rt_key r = key))"

definition pending_ok :: "int \<Rightarrow> string list \<Rightarrow> ('m, 'r) retry_helper \<Rightarrow> bool" where
  "pending_ok limit ks h \<longleftrightarrow> distinct (map rt_key (pending h)) \<and>
     (\<forall>r \<in> set (pending h). rt_to r \<noteq> None \<and> rt_key r \<in> set ks \<and>
        rt_attempt r = int (length (sent_for (rt_key r) h)) + 1) \<and>
     (\<forall>key. int (length (sent_for key h)) \<le> limit \<and> (key \<notin> set ks \<longrightarrow> sent_for key h = []))"

definition settled_ok :: "string list \<Rightarrow> ('m, 'r) retry_helper \<Rightarrow> bool" where
  "settled_ok ks h \<longleftrightarrow>
     (\<forall>key. fmlookup (requestMatch h) key \<noteq> None \<longrightarrow> key \<in> set ks \<and> key \<in> rt_key ` set (pending h)) \<and>
     distinct (map fst (settled_log h)) \<and>
     fst ` set (settled_log h) = {key \<in> set ks. fmlookup (requestMatch h) key = None}"

definition retry_inv :: "int \<Rightarrow> string list \<Rightarrow> ('m, 'r) retry_helper \<Rightarrow> bool" where
  "retry_inv limit ks h \<longleftrightarrow>
     attemptLimit h = limit \<and> distinct ks \<and> timers_ok h \<and> pending_ok limit ks h \<and> settled_ok ks h"

lemmas retry_parts = retry_inv_def timers_ok_def pending_ok_def settled_ok_def

lemma sent_for_simps [simp]:
  "sent_for k (requestMatch_update f h) = sent_for k h" "sent_for k (timers_update g h) = sent_for k h"
  "sent_for k (retries_update p h) = sent_for k h" "sent_for k (settled_log_update q h) = sent_for k h"
  "sent_for k (next_timer_update u h) = sent_for k h"
  "sent_for k (h\<lparr>sent_log := sent_log h @ [(a, r)]\<rparr>) =
     (if rt_key r = k then sent_for k h @ [rt_attempt r] else sent_for k h)"
  by (simp_all add: sent_for_def)

lemma retry_inv_new: "0 \<le> limit \<Longrightarrow> retry_inv limit [] (BackOffRetryHelper limit)"
  by (simp add: retry_parts BackOffRetryHelper_def pending_def sent_for_def)

lemma retry_inv_Begin:
  assumes "retry_inv limit ks h" "key \<notin> set ks"
  shows "retry_inv limit (ks @ [key]) (Begin key (Some aid) method msg h)"
proof -
  have "key \<notin> rt_key ` set (pending h)" "sent_for key h = []"
    using assms by (auto simp: retry_parts)
  with assms show ?thesis
    by (auto simp: retry_parts Begin_def pending_def)
qed

lemma distinct_filter_map: "distinct (map f xs) \<Longrightarrow> distinct (map f (filter P xs))"
  by (induction xs) auto

text \<open>Settling a request and dropping timers of its own.\<close>

lemma retry_inv_settle:
  assumes "retry_inv limit ks h" "fmlookup (requestMatch h) key = Some t"
    "\<forall>x \<in> set (timers h). \<not> P x \<longrightarrow> rt_key (snd x) = key"
  shows "retry_inv limit ks (h\<lparr>settled_log := settled_log h @ [(key, v)], timers := filter P (timers h),
    requestMatch := fmdrop key (requestMatch h)\<rparr>)"
proof -
  have "key \<in> set ks" "key \<notin> fst ` set (settled_log h)"
    using assms(1,2) by (auto simp: retry_parts)
  moreover have "k \<in> rt_key ` (set (retries h) \<union> snd ` set (filter P (timers h)))"
    if "k \<in> rt_key ` set (pending h)" "k \<noteq> key" for k
    using that assms(3) by (force simp: pending_def)
  moreover have "distinct (map rt_key (retries h @ map snd (filter P (timers h))))"
    using assms(1) by (auto simp: retry_parts pending_def comp_def intro!: distinct_filter_map)
  ultimately show ?thesis
    using assms(1) by (auto simp: retry_parts pending_def distinct_filter_map)
qed

lemma retry_inv_End:
  assumes "retry_inv limit ks h"
  shows "retry_inv limit ks (End key rsp h)"
proof (cases "fmlookup (requestMatch h) key")
  case None
  then show ?thesis using assms by (simp add: End_def)
next
  case (Some t)
  let ?P = "\<lambda>x. case t of None \<Rightarrow> True | Some i \<Rightarrow> fst x \<noteq> i"
  have "End key rsp h = h\<lparr>settled_log := settled_log h @ [(key, SetValue rsp)], timers := filter ?P (timers h),
      requestMatch := fmdrop key (requestMatch h)\<rparr>"
    using Some by (cases h) (auto simp: End_def cancel_timer_def Let_def split: option.splits)
  moreover have "\<forall>x \<in> set (timers h). \<not> ?P x \<longrightarrow> rt_key (snd x) = key"
    using assms Some by (auto simp: retry_parts split: option.splits)
  ultimately show ?thesis using retry_inv_settle [OF assms Some] by simp
qed

lemma retry_inv_EndAll: "retry_inv limit ks h \<Longrightarrow> retry_inv limit ks (EndAll rsp h)"
  unfolding EndAll_def
  by (rule fold_invariant [where Q = "\<lambda>_. True" and P = "retry_inv limit ks"]) (auto intro: retry_inv_End)

lemma retry_inv_expire:
  assumes "retry_inv limit ks h" "timers h = xs @ (i, r) # ys"
  shows "retry_inv limit ks (h\<lparr>timers := xs @ ys, retries := retries h @ [r]\<rparr>)"
  using assms by (auto simp: retry_parts pending_def)

lemma retry_inv_open:
  "retry_inv limit ks h \<Longrightarrow> fmlookup (requestMatch h) key \<noteq> None \<Longrightarrow> key \<in> rt_key ` set (pending h)"
  by (simp add: retry_parts)

lemma retry_inv_pending:
  "retry_inv limit ks h \<Longrightarrow> q \<in> set (pending h) \<Longrightarrow>
     rt_to q \<noteq> None \<and> rt_key q \<in> set ks \<and> rt_attempt q = int (length (sent_for (rt_key q) h)) + 1"
  by (simp add: retry_parts)

lemma retry_inv_give_up:
  assumes "retry_inv limit ks h" "retries h = r # rest" "\<not> rt_attempt r \<le> limit"
  shows "retry_inv limit ks (Failed (rt_key r) (h\<lparr>retries := rest\<rparr>))"
proof -
  let ?k = "rt_key r"
  have r: "?k \<in> set ks" "?k \<notin> rt_key ` set (rest @ map snd (timers h))"
    using assms(1,2) by (auto simp: retry_parts pending_def)
  have other: "k \<in> rt_key ` (set rest \<union> snd ` set (timers h))"
    if "fmlookup (requestMatch h) k = Some t" "k \<noteq> ?k" for k t
    using retry_inv_open [OF assms(1), of k] that assms(2) by (auto simp: pending_def)
  show ?thesis
  proof (cases "fmlookup (requestMatch h) ?k")
    case None
    then have "\<forall>k t. fmlookup (requestMatch h) k = Some t \<longrightarrow> k \<in> rt_key ` (set rest \<union> snd ` set (timers h))"
      using other by (metis option.distinct(1))
    with None assms show ?thesis by (auto simp: Failed_def retry_parts pending_def)
  next
    case (Some t)
    with r other assms show ?thesis by (auto simp: Failed_def retry_parts pending_def)
  qed
qed

lemma retry_inv_again:
  assumes inv: "retry_inv limit ks h" and r: "retries h = r # rest" "rt_attempt r \<le> limit"
    and upd: "retries h' = rest" "attemptLimit h' = attemptLimit h" "settled_log h' = settled_log h"
      "sent_log h' = sent_log h @ [(aid, r)]"
    and closed: "fmlookup (requestMatch h) (rt_key r) = None \<Longrightarrow>
      timers h' = timers h \<and> next_timer h' = next_timer h \<and> requestMatch h' = requestMatch h"
    and opened: "fmlookup (requestMatch h) (rt_key r) \<noteq> None \<Longrightarrow>
      timers h' = timers h @ [(next_timer h, r\<lparr>rt_attempt := rt_attempt r + 1\<rparr>)] \<and> next_timer h' = Suc (next_timer h) \<and>
      requestMatch h' = fmupd (rt_key r) (Some (next_timer h)) (requestMatch h)"
  shows "retry_inv limit ks h'"
proof -
  let ?k = "rt_key r"
  have k: "?k \<in> set ks" "?k \<notin> rt_key ` set rest" "?k \<notin> rt_key ` snd ` set (timers h)" "rt_to r \<noteq> None"
    "rt_attempt r = int (length (sent_for ?k h)) + 1"
    using inv r by (auto simp: retry_parts pending_def)
  have sent: "sent_for k h' = (if k = ?k then sent_for k h @ [rt_attempt r] else sent_for k h)" for k
    using upd by (auto simp: sent_for_def)
  have len: "int (length (sent_for k h')) \<le> limit \<and> (k \<notin> set ks \<longrightarrow> sent_for k h' = [])" for k
    using inv r(2) k(1,5) by (auto simp: retry_parts sent)
  have old: "rt_to q \<noteq> None \<and> rt_key q \<in> set ks \<and> rt_attempt q = int (length (sent_for (rt_key q) h')) + 1"
    if q: "q \<in> set rest \<union> snd ` set (timers h)" for q
  proof -
    have "rt_key q \<noteq> ?k" using q k(2,3) by (metis UnE image_eqI)
    moreover have "q \<in> set (pending h)" using q r(1) by (auto simp: pending_def)
    ultimately show ?thesis using retry_inv_pending [OF inv, of q] by (simp add: sent)
  qed
  have other: "k \<in> rt_key ` (set rest \<union> snd ` set (timers h))"
    if "fmlookup (requestMatch h) k = Some t" "k \<noteq> ?k" for k t
    using retry_inv_open [OF inv, of k] that r(1) by (auto simp: pending_def)
  have dist: "distinct (map rt_key (rest @ map snd (timers h)))"
    using inv r(1) by (auto simp: retry_parts pending_def)
  show ?thesis
  proof (cases "fmlookup (requestMatch h) ?k")
    case None
    then have same: "timers h' = timers h" "next_timer h' = next_timer h" "requestMatch h' = requestMatch h"
      using closed by auto
    have pend: "pending h' = rest @ map snd (timers h)" by (simp add: pending_def same upd)
    have "k \<in> rt_key ` set (pending h')" if "fmlookup (requestMatch h) k \<noteq> None" for k
      using other [of k] that None by (cases "k = ?k") (auto simp: pend)
    then have "settled_ok ks h'" using inv by (simp add: retry_parts same upd)
    moreover have "pending_ok limit ks h'" unfolding pending_ok_def pend using old dist len by auto
    ultimately show ?thesis using inv by (simp add: retry_inv_def timers_ok_def same upd)
  next
    case (Some t)
    then have tm: "timers h' = timers h @ [(next_timer h, r\<lparr>rt_attempt := rt_attempt r + 1\<rparr>)]"
      and nt: "next_timer h' = Suc (next_timer h)"
      and rm: "requestMatch h' = fmupd ?k (Some (next_timer h)) (requestMatch h)" using opened by auto
    have pend: "pending h' = rest @ map snd (timers h) @ [r\<lparr>rt_attempt := rt_attempt r + 1\<rparr>]"
      by (simp add: pending_def tm upd)
    have "k \<in> rt_key ` set (pending h')" if "fmlookup (requestMatch h') k \<noteq> None" for k
      using other [of k] that by (auto simp: pend rm split: if_splits)
    then have "settled_ok ks h'" using inv k(1) Some by (auto simp: retry_parts rm upd split: if_splits)
    moreover have "pending_ok limit ks h'"
      unfolding pending_ok_def pend using old dist len k by (auto simp: sent)
    moreover have "timers_ok h'" using inv by (fastforce simp: retry_inv_def timers_ok_def tm rm nt split: if_splits)
    ultimately show ?thesis using inv by (simp add: retry_inv_def upd)
  qed
qed

lemma retry_inv_internal:
  assumes "retry_internal h h'" "retry_inv limit ks h" "0 \<le> limit"
  shows "retry_inv limit ks h'"
  using assms(1)
proof cases
  case (expire xs i r ys)
  then show ?thesis using retry_inv_expire assms(2) by blast
next
  case (post r rest)
  obtain aid where "rt_to r = Some aid" "attemptLimit h = limit"
    using assms(2) post by (auto simp: retry_parts pending_def)
  then show ?thesis
    using post assms(3) retry_inv_again [OF assms(2) post(2), of h' aid] retry_inv_give_up [OF assms(2) post(2)]
    by (cases "rt_attempt r \<le> limit") (auto simp: Retry_def ExceedAttemptLimit_def AddTimer_def Let_def)
qed

lemma retry_run_inv: "retry_run limit ks h \<Longrightarrow> 0 \<le> limit \<Longrightarrow> retry_inv limit ks h"
  by (induction rule: retry_run.induct)
    (auto intro: retry_inv_new retry_inv_Begin retry_inv_End retry_inv_EndAll retry_inv_internal)

section \<open>Internal work ends\<close>

text \<open>A posted message weighs twice the attempts left, one more while it waits for its timer.\<close>

definition weight :: "int \<Rightarrow> 'm retry_msg \<Rightarrow> nat" where
  "weight limit r = 2 * nat (limit + 2 - rt_attempt r) + 1"

definition retry_work :: "('m, 'r) retry_helper \<Rightarrow> nat" where
  "retry_work h = (\<Sum>r\<leftarrow>retries h. weight (attemptLimit h) r) + (\<Sum>x\<leftarrow>timers h. Suc (weight (attemptLimit h) (snd x)))"

lemma retry_work_less:
  assumes "retry_internal h h'" "attemptLimit h \<noteq> -1"
  shows "retry_work h' < retry_work h \<and> attemptLimit h' = attemptLimit h"
  using assms
  by cases (auto simp: retry_work_def Retry_def ExceedAttemptLimit_def Failed_def AddTimer_def weight_def Let_def
      split: option.splits)

lemma retry_steps_bounded:
  "(retry_internal ^^ m) h h' \<Longrightarrow> attemptLimit h \<noteq> -1 \<Longrightarrow> m + retry_work h' \<le> retry_work h \<and> attemptLimit h' = attemptLimit h"
proof (induction m arbitrary: h')
  case (Suc m)
  then obtain u where "(retry_internal ^^ m) h u" "retry_internal u h'" by auto
  then show ?case using Suc.IH [of u] Suc.prems(2) retry_work_less [of u h'] by auto
qed simp

lemma retry_quiet: "(\<nexists>h'. retry_internal h h') \<Longrightarrow> pending h = []"
proof (rule ccontr)
  assume "\<nexists>h'. retry_internal h h'" "pending h \<noteq> []"
  then show False
    using expire [of h "[]"] post [of h] by (cases "retries h"; cases "timers h") (auto simp: pending_def)
qed

lemma retry_runs:
  assumes "retry_internal\<^sup>*\<^sup>* h h'" "retry_run limit ks h"
  shows "retry_run limit ks h'"
  using assms by (induction rule: rtranclp_induct) (auto intro: retry_run.internal)

lemma retry_quiet_settled:
  assumes "retry_run limit ks h" "0 \<le> limit" "\<nexists>h'. retry_internal h h'"
  shows "fst ` set (settled_log h) = set ks"
  using retry_run_inv [OF assms(1,2)] retry_quiet [OF assms(3)] by (auto simp: retry_parts)

text \<open>
  C34: Requests sent through a helper with an attempt limit are all settled. In every history in which
  requests are begun under fresh keys, answers arrive in any order, timers expire and posted messages
  run: no promise is settled twice and none that was not begun; no request is sent more often than
  the limit allows; the work of the helper, if no request is added, ends within a bound that the
  state gives; and when it has ended every request begun is settled, by an answer or by a time-out.
\<close>

theorem every_request_settled:
  assumes "retry_run limit ks h" "0 \<le> limit"
  shows "distinct (map fst (settled_log h)) \<and> fst ` set (settled_log h) \<subseteq> set ks \<and>
    (\<forall>key. int (length (sent_for key h)) \<le> limit) \<and>
    (\<forall>m h'. (retry_internal ^^ m) h h' \<longrightarrow> m \<le> retry_work h) \<and>
    (\<forall>h'. retry_internal\<^sup>*\<^sup>* h h' \<and> (\<nexists>h''. retry_internal h' h'') \<longrightarrow> fst ` set (settled_log h') = set ks)"
proof -
  have inv: "retry_inv limit ks h" by (rule retry_run_inv [OF assms])
  then have "attemptLimit h \<noteq> -1" using assms(2) by (simp add: retry_parts)
  then have "m \<le> retry_work h" if "(retry_internal ^^ m) h h'" for m h'
    using retry_steps_bounded [OF that] by simp
  moreover have "fst ` set (settled_log h') = set ks" if "retry_internal\<^sup>*\<^sup>* h h'" "\<nexists>h''. retry_internal h' h''" for h'
    using retry_quiet_settled [OF retry_runs [OF that(1) assms(1)] assms(2) that(2)] .
  ultimately show ?thesis using inv by (auto simp: retry_parts)
qed

definition demo_retry :: "(nat, nat) retry_helper" where
  "demo_retry = Begin ''b'' (Some ''svc'') ''Put'' 2 (End ''a'' 7 (Begin ''a'' (Some ''svc'') ''Put'' 1 (BackOffRetryHelper 0)))"

definition demo_end :: "(nat, nat) retry_helper" where
  "demo_end = demo_retry\<lparr>requestMatch := fmempty, retries := [],
     settled_log := [(''a'', SetValue 7), (''b'', SetFailed REQUEST_TIME_OUT)]\<rparr>"

lemmas demo_defs = demo_retry_def demo_end_def Begin_def End_def BackOffRetryHelper_def cancel_timer_def Let_def

lemma demo_work: "retry_internal\<^sup>*\<^sup>* demo_retry demo_end" "\<nexists>h. retry_internal demo_end h"
proof -
  obtain r q where rs: "retries demo_retry = [r, q]" "rt_key r = ''a''" "rt_key q = ''b''" "rt_to r \<noteq> None" "rt_to q \<noteq> None"
    "rt_attempt r = 1" "rt_attempt q = 1" by (simp add: demo_defs)
  let ?h = "Retry r (demo_retry\<lparr>retries := [q]\<rparr>)"
  have h: "?h = demo_retry\<lparr>retries := [q]\<rparr>" using rs by (auto simp: Retry_def ExceedAttemptLimit_def Failed_def demo_defs)
  have "fmdrop ''b'' (fmupd ''b'' None (fmdrop ''a'' (fmupd ''a'' None fmempty))) = (fmempty :: (string, nat option) fmap)"
    by (rule fmap_ext) simp
  then have "Retry q (?h\<lparr>retries := []\<rparr>) = demo_end"
    using rs by (auto simp: h Retry_def ExceedAttemptLimit_def Failed_def demo_defs)
  moreover have "retry_internal demo_retry ?h" "retry_internal ?h (Retry q (?h\<lparr>retries := []\<rparr>))"
    using post [of demo_retry r "[q]"] post [of ?h q "[]"] rs(1) by (simp_all add: h)
  ultimately show "retry_internal\<^sup>*\<^sup>* demo_retry demo_end" by (metis rtranclp.simps)
  show "\<nexists>h. retry_internal demo_end h" by (auto elim: retry_internalE simp: demo_defs)
qed

theorem every_request_settled_witness:
  "map fst (settled_log demo_retry) = [''a''] \<and> retry_internal\<^sup>*\<^sup>* demo_retry demo_end \<and> (\<nexists>h. retry_internal demo_end h) \<and>
   fst ` set (settled_log demo_end) = {''a'', ''b''}"
proof -
  have "retry_run 0 (([] @ [''a'']) @ [''b'']) demo_retry"
    unfolding demo_retry_def by (intro retry_run.intros) simp_all
  from every_request_settled [OF this] demo_work show ?thesis by (auto simp: demo_retry_def Begin_def End_def
      BackOffRetryHelper_def cancel_timer_def Let_def)
qed

end
