(* ===== verification/Kv_Client.thy ===== *)
theory Kv_Client
  imports Retry_Helper Watch_Service
begin

text \<open>
  The key-value client of the meta store (\<^verbatim>\<open>MetaStoreKvClientStrategy\<close> and its base class
  \<^verbatim>\<open>KvClientStrategy\<close>, \<^verbatim>\<open>src/functionsystem/src/meta_store/client/cpp/src/meta_store_client/key_value/\<close>, and the
  transactions of \<^verbatim>\<open>txn_transaction.h\<close>): puts, deletes, reads and transactions, the answers of the
  service, and the answers given while the service is known to be unhealthy. Requests are sent
  through the retry helpers of \<open>Retry_Helper\<close>. A serialised message is represented by the message;
  request ids, random UUIDs in the code, are an argument. The watches of the client are not part
  of this theory.
\<close>

section \<open>Options and answers\<close>

record put_option =
  po_leaseId :: int
  po_prevKv :: bool
  po_asyncBackup :: bool

record delete_option =
  do_prevKv :: bool
  do_prefix :: bool
  do_asyncBackup :: bool

text \<open>The limit of a read is sent and not used by the service.\<close>

record get_option =
  go_prefix :: bool
  go_keysOnly :: bool
  go_countOnly :: bool
  go_sortOrder :: sort_order
  go_sortTarget :: sort_target

definition get_option_default :: get_option where
  "get_option_default = \<lparr>go_prefix = False, go_keysOnly = False, go_countOnly = False, go_sortOrder = NONE,
     go_sortTarget = SORT_KEY\<rparr>"

text \<open>\<^verbatim>\<open>ResponseHeader\<close>: the fields the service sets.\<close>

record resp_header =
  hd_clusterId :: int
  hd_revision :: int

record put_reply =
  pa_status :: status
  pa_header :: resp_header
  pa_prevKv :: key_value

record delete_reply =
  da_status :: status
  da_header :: resp_header
  da_deleted :: int
  da_prevKvs :: "key_value list"

record get_reply =
  ga_status :: status
  ga_header :: resp_header
  ga_count :: int
  ga_kvs :: "key_value list"

definition header_default :: resp_header where
  "header_default = \<lparr>hd_clusterId = 0, hd_revision = 0\<rparr>"

text \<open>\<^verbatim>\<open>TxnOperationResponse\<close>: the operation type is the constructor.\<close>

datatype txn_operation_response =
    OPERATION_PUT resp_header key_value
  | OPERATION_DELETE resp_header int "key_value list"
  | OPERATION_GET resp_header int "key_value list"

record txn_reply =
  tx_status :: status
  tx_header :: resp_header
  tx_success :: bool
  tx_responses :: "txn_operation_response list"

section \<open>Transactions (txn_transaction.h)\<close>

datatype compare_operator = OP_EQUAL | OP_GREATER | OP_LESS | OP_NOT_EQUAL

datatype txn_compare =
    OfVersion string compare_operator int
  | OfCreateVersion string compare_operator int
  | OfModifyVersion string compare_operator int
  | OfValue string compare_operator string
  | OfLease string compare_operator int

fun Build_result :: "compare_operator \<Rightarrow> compare_result" where
  "Build_result OP_EQUAL = EQUAL"
| "Build_result OP_GREATER = GREATER"
| "Build_result OP_LESS = LESS"
| "Build_result OP_NOT_EQUAL = NOT_EQUAL"

definition compare_default :: "string \<Rightarrow> compare_operator \<Rightarrow> compare" where
  "compare_default key opr = \<lparr>cmp_key = key, cmp_result = Build_result opr, cmp_target = CMP_VERSION, cmp_version = 0,
     cmp_create_revision = 0, cmp_mod_revision = 0, cmp_value = [], cmp_lease = 0\<rparr>"

fun Build_compare :: "string \<Rightarrow> txn_compare \<Rightarrow> compare" where
  "Build_compare prefix (OfVersion key opr v) =
     (compare_default (prefix @ key) opr)\<lparr>cmp_target := CMP_VERSION, cmp_version := v\<rparr>"
| "Build_compare prefix (OfCreateVersion key opr v) =
     (compare_default (prefix @ key) opr)\<lparr>cmp_target := CMP_CREATE, cmp_create_revision := v\<rparr>"
| "Build_compare prefix (OfModifyVersion key opr v) =
     (compare_default (prefix @ key) opr)\<lparr>cmp_target := CMP_MOD, cmp_mod_revision := v\<rparr>"
| "Build_compare prefix (OfValue key opr v) =
     (compare_default (prefix @ key) opr)\<lparr>cmp_target := CMP_VALUE, cmp_value := v\<rparr>"
| "Build_compare prefix (OfLease key opr v) =
     (compare_default (prefix @ key) opr)\<lparr>cmp_target := CMP_LEASE, cmp_lease := v\<rparr>"

datatype client_operation =
    PutOperation string string put_option
  | DeleteOperation string delete_option
  | GetOperation string get_option

fun Build_operation :: "string \<Rightarrow> client_operation \<Rightarrow> request_op" where
  "Build_operation prefix (PutOperation key v opt) =
     RequestPut \<lparr>ep_key = prefix @ key, ep_value = v, ep_lease = po_leaseId opt, ep_prev_kv = po_prevKv opt\<rparr>"
| "Build_operation prefix (DeleteOperation key opt) =
     RequestDeleteRange \<lparr>dr_key = prefix @ key,
       dr_range_end = (if do_prefix opt then StringPlusOne (prefix @ key) else []), dr_prev_kv = do_prevKv opt\<rparr>"
| "Build_operation prefix (GetOperation key opt) =
     RequestRange \<lparr>rr_key = prefix @ key,
       rr_range_end = (if go_prefix opt then StringPlusOne (prefix @ key) else []), rr_count_only = go_countOnly opt,
       rr_keys_only = go_keysOnly opt, rr_sort_order = go_sortOrder opt, rr_sort_target = go_sortTarget opt\<rparr>"

fun GetAsyncBackupOption :: "client_operation \<Rightarrow> bool" where
  "GetAsyncBackupOption (PutOperation key v opt) = po_asyncBackup opt"
| "GetAsyncBackupOption (DeleteOperation key opt) = do_asyncBackup opt"
| "GetAsyncBackupOption (GetOperation key opt) = True"

record txn_transaction =
  compares :: "txn_compare list"
  thenOps :: "client_operation list"
  elseOps :: "client_operation list"

definition BuildTxnRequest :: "string \<Rightarrow> txn_transaction \<Rightarrow> txn_request" where
  "BuildTxnRequest prefix t = \<lparr>tr_compare = map (Build_compare prefix) (compares t),
     tr_success = map (Build_operation prefix) (thenOps t), tr_failure = map (Build_operation prefix) (elseOps t)\<rparr>"

section \<open>Conversion of answers\<close>

definition ConvertRangeResponse :: "range_response \<Rightarrow> txn_operation_response" where
  "ConvertRangeResponse r = OPERATION_GET \<lparr>hd_clusterId = rs_cluster_id r, hd_revision = rs_revision r\<rparr> (rs_count r) (rs_kvs r)"

definition ConvertPutResponse :: "etcd_put_response \<Rightarrow> txn_operation_response" where
  "ConvertPutResponse r = OPERATION_PUT \<lparr>hd_clusterId = es_cluster_id r, hd_revision = es_revision r\<rparr>
     (case es_prev_kv r of None \<Rightarrow> kv_default | Some kv \<Rightarrow> kv)"

definition ConvertDeleteRangeResponse :: "delete_range_response \<Rightarrow> txn_operation_response" where
  "ConvertDeleteRangeResponse r = OPERATION_DELETE \<lparr>hd_clusterId = ds_cluster_id r, hd_revision = ds_revision r\<rparr>
     (ds_deleted r) (ds_prev_kvs r)"

fun Convert_response :: "response_op \<Rightarrow> txn_operation_response" where
  "Convert_response (ResponseRange r) = ConvertRangeResponse r"
| "Convert_response (ResponsePut r) = ConvertPutResponse r"
| "Convert_response (ResponseDeleteRange r) = ConvertDeleteRangeResponse r"

text \<open>What \<^verbatim>\<open>CommitTxn\<close> makes of the answer. \<open>None\<close> is an answer without header: the empty message that
  stands for an error of the service.\<close>

definition txn_result :: "txn_response option \<Rightarrow> txn_reply" where
  "txn_result resp =
     (case resp of
        None \<Rightarrow> \<lparr>tx_status = Status FAILED ''etcd txn failed'', tx_header = header_default, tx_success = False, tx_responses = []\<rparr>
      | Some r \<Rightarrow> \<lparr>tx_status = Status_OK, tx_header = \<lparr>hd_clusterId = ts_cluster_id r, hd_revision = ts_revision r\<rparr>,
          tx_success = ts_succeeded r, tx_responses = map Convert_response (ts_responses r)\<rparr>)"

section \<open>Client\<close>

record kv_client =
  etcdTablePrefix :: string
  healthyStatus :: status
  kvServiceAid :: string
  putHelper :: "(put_request, put_reply) retry_helper"
  deleterHelper :: "(delete_range_request meta_request, delete_reply) retry_helper"
  getHelper :: "(range_request meta_request, get_reply) retry_helper"
  txnHelper :: "(txn_request meta_request, txn_response option) retry_helper"

definition MetaStoreKvClientStrategy :: "string \<Rightarrow> int \<Rightarrow> string \<Rightarrow> kv_client" where
  "MetaStoreKvClientStrategy address operationRetryTimes prefix =
     \<lparr>etcdTablePrefix = prefix, healthyStatus = Status_OK, kvServiceAid = address,
      putHelper = BackOffRetryHelper operationRetryTimes, deleterHelper = BackOffRetryHelper operationRetryTimes,
      getHelper = BackOffRetryHelper operationRetryTimes, txnHelper = BackOffRetryHelper operationRetryTimes\<rparr>"

definition GetKeyWithPrefix :: "kv_client \<Rightarrow> string \<Rightarrow> string" where
  "GetKeyWithPrefix c key = (if etcdTablePrefix c = [] then key else etcdTablePrefix c @ key)"

text \<open>An operation is answered at once, or waits for the answer to the request of the given id.\<close>

datatype 'r client_future = Answered 'r | Waiting string

text \<open>The test at the start of every operation. A service that cannot back up counts as healthy here.\<close>

definition fallbreak :: "status \<Rightarrow> bool" where
  "fallbreak st \<longleftrightarrow> IsError st \<and> StatusCode st \<noteq> META_STORE_BACK_UP_ERR"

definition fallbreak_status :: "string \<Rightarrow> kv_client \<Rightarrow> status" where
  "fallbreak_status opr c =
     Status (StatusCode (healthyStatus c)) (''[fallbreak] failed to call '' @ opr @ '': '' @ RawMessage (healthyStatus c))"

text \<open>Answers without a service: \<^verbatim>\<open>deleted\<close> and \<^verbatim>\<open>count\<close> have no initial value in the code and are not
  read by callers that test the status; the model gives zero.\<close>

definition put_failed :: "status \<Rightarrow> put_reply" where
  "put_failed st = \<lparr>pa_status = st, pa_header = header_default, pa_prevKv = kv_default\<rparr>"

definition delete_failed :: "status \<Rightarrow> delete_reply" where
  "delete_failed st = \<lparr>da_status = st, da_header = header_default, da_deleted = 0, da_prevKvs = []\<rparr>"

definition get_failed :: "status \<Rightarrow> get_reply" where
  "get_failed st = \<lparr>ga_status = st, ga_header = header_default, ga_count = 0, ga_kvs = []\<rparr>"

definition txn_failed :: "status \<Rightarrow> txn_reply" where
  "txn_failed st = \<lparr>tx_status = st, tx_header = header_default, tx_success = False, tx_responses = []\<rparr>"

definition Client_Put ::
  "string \<Rightarrow> string \<Rightarrow> string \<Rightarrow> put_option \<Rightarrow> kv_client \<Rightarrow> put_reply client_future \<times> kv_client" where
  "Client_Put uuid key v opt c =
     (if fallbreak (healthyStatus c) then (Answered (put_failed (fallbreak_status ''Put'' c)), c)
      else
        let request = \<lparr>pr_requestid = uuid, pr_key = GetKeyWithPrefix c key, pr_value = v, pr_lease = po_leaseId opt,
              pr_prevkv = po_prevKv opt, pr_asyncbackup = po_asyncBackup opt\<rparr>
        in (Waiting uuid, c\<lparr>putHelper := Begin uuid (Some (kvServiceAid c)) ''Put'' request (putHelper c)\<rparr>))"

definition Client_OnPut :: "put_response \<Rightarrow> kv_client \<Rightarrow> kv_client" where
  "Client_OnPut resp c =
     c\<lparr>putHelper := End (ps_requestid resp)
         \<lparr>pa_status = Status (ps_status resp) (ps_errormsg resp), pa_header = header_default\<lparr>hd_revision := ps_revision resp\<rparr>,
          pa_prevKv = (case ps_prevkv resp of None \<Rightarrow> kv_default | Some kv \<Rightarrow> kv)\<rparr> (putHelper c)\<rparr>"

definition Client_Delete ::
  "string \<Rightarrow> string \<Rightarrow> delete_option \<Rightarrow> kv_client \<Rightarrow> delete_reply client_future \<times> kv_client" where
  "Client_Delete uuid key opt c =
     (if fallbreak (healthyStatus c) then (Answered (delete_failed (fallbreak_status ''Delete'' c)), c)
      else
        let realKey = GetKeyWithPrefix c key;
            request = \<lparr>dr_key = realKey, dr_range_end = (if do_prefix opt then StringPlusOne realKey else []),
              dr_prev_kv = do_prevKv opt\<rparr>;
            message = \<lparr>rq_requestid = uuid, rq_payload = Some request, rq_asyncbackup = do_asyncBackup opt\<rparr>
        in (Waiting uuid, c\<lparr>deleterHelper := Begin uuid (Some (kvServiceAid c)) ''Delete'' message (deleterHelper c)\<rparr>))"

definition Client_OnDelete :: "delete_range_response meta_response \<Rightarrow> kv_client \<Rightarrow> kv_client" where
  "Client_OnDelete res c =
     (let response = ms_payload res
      in c\<lparr>deleterHelper := End (ms_responseid res)
             \<lparr>da_status = Status (ms_status res) (ms_errormsg res),
              da_header = \<lparr>hd_clusterId = ds_cluster_id response, hd_revision = ds_revision response\<rparr>,
              da_deleted = ds_deleted response, da_prevKvs = ds_prev_kvs response\<rparr> (deleterHelper c)\<rparr>)"

definition BuildRangeRequest :: "kv_client \<Rightarrow> string \<Rightarrow> get_option \<Rightarrow> range_request" where
  "BuildRangeRequest c key opt =
     (let realKey = GetKeyWithPrefix c key
      in \<lparr>rr_key = realKey, rr_range_end = (if go_prefix opt then StringPlusOne realKey else []),
          rr_count_only = go_countOnly opt, rr_keys_only = go_keysOnly opt, rr_sort_order = go_sortOrder opt,
          rr_sort_target = go_sortTarget opt\<rparr>)"

definition Client_Get ::
  "string \<Rightarrow> string \<Rightarrow> get_option \<Rightarrow> kv_client \<Rightarrow> get_reply client_future \<times> kv_client" where
  "Client_Get uuid key opt c =
     (if fallbreak (healthyStatus c) then (Answered (get_failed (fallbreak_status ''Get'' c)), c)
      else
        let message = \<lparr>rq_requestid = uuid, rq_payload = Some (BuildRangeRequest c key opt), rq_asyncbackup = False\<rparr>
        in (Waiting uuid, c\<lparr>getHelper := Begin uuid (Some (kvServiceAid c)) ''Get'' message (getHelper c)\<rparr>))"

definition get_result :: "range_response meta_response \<Rightarrow> get_reply" where
  "get_result res =
     (let response = ms_payload res
      in \<lparr>ga_status = Status (ms_status res) (ms_errormsg res),
          ga_header = \<lparr>hd_clusterId = rs_cluster_id response, hd_revision = rs_revision response\<rparr>,
          ga_count = rs_count response, ga_kvs = rs_kvs response\<rparr>)"

definition Client_OnGet :: "range_response meta_response \<Rightarrow> kv_client \<Rightarrow> kv_client" where
  "Client_OnGet res c = c\<lparr>getHelper := End (ms_responseid res) (get_result res) (getHelper c)\<rparr>"

text \<open>The future of a transaction that waits is the answer of the helper, converted by \<open>txn_result\<close>.\<close>

definition CommitTxn ::
  "string \<Rightarrow> txn_request \<Rightarrow> bool \<Rightarrow> kv_client \<Rightarrow> txn_reply client_future \<times> kv_client" where
  "CommitTxn uuid request asyncBackup c =
     (if fallbreak (healthyStatus c) then (Answered (txn_failed (fallbreak_status ''CommitTxn'' c)), c)
      else
        let message = \<lparr>rq_requestid = uuid, rq_payload = Some request, rq_asyncbackup = asyncBackup\<rparr>
        in (Waiting uuid, c\<lparr>txnHelper := Begin uuid (Some (kvServiceAid c)) ''Txn'' message (txnHelper c)\<rparr>))"

definition CommitWithReq ::
  "string \<Rightarrow> txn_request \<Rightarrow> bool \<Rightarrow> kv_client \<Rightarrow> txn_response option client_future \<times> kv_client" where
  "CommitWithReq uuid request asyncBackup c =
     (if fallbreak (healthyStatus c) then (Answered None, c)
      else
        let message = \<lparr>rq_requestid = uuid, rq_payload = Some request, rq_asyncbackup = asyncBackup\<rparr>
        in (Waiting uuid, c\<lparr>txnHelper := Begin uuid (Some (kvServiceAid c)) ''Txn'' message (txnHelper c)\<rparr>))"

definition Commit :: "string \<Rightarrow> txn_transaction \<Rightarrow> kv_client \<Rightarrow> txn_reply client_future \<times> kv_client" where
  "Commit uuid t c =
     CommitTxn uuid (BuildTxnRequest (etcdTablePrefix c) t)
       (list_all GetAsyncBackupOption (thenOps t) \<and> list_all GetAsyncBackupOption (elseOps t)) c"

text \<open>The code compares the number of the status with zero, the number of success.\<close>

definition txn_answer :: "txn_response meta_response \<Rightarrow> txn_response option" where
  "txn_answer m = (if ms_status m \<noteq> SUCCESS then None else Some (ms_payload m))"

definition Client_OnTxn :: "txn_response meta_response \<Rightarrow> kv_client \<Rightarrow> kv_client" where
  "Client_OnTxn m c = c\<lparr>txnHelper := End (ms_responseid m) (txn_answer m) (txnHelper c)\<rparr>"

definition FallBreakResponse :: "kv_client \<Rightarrow> kv_client" where
  "FallBreakResponse c =
     c\<lparr>putHelper := EndAll (put_failed (fallbreak_status ''Put'' c)) (putHelper c),
       deleterHelper := EndAll (delete_failed (fallbreak_status ''Delete'' c)) (deleterHelper c),
       getHelper := EndAll (get_failed (fallbreak_status ''Get'' c)) (getHelper c),
       txnHelper := EndAll None (txnHelper c)\<rparr>"

definition KvClientStrategy_OnHealthyStatus :: "status \<Rightarrow> kv_client \<Rightarrow> kv_client" where
  "KvClientStrategy_OnHealthyStatus st c =
     (if StatusCode (healthyStatus c) = StatusCode st then c else c\<lparr>healthyStatus := st\<rparr>)"

text \<open>The synchronisation of the watches after a recovery is left out.\<close>

definition Client_OnHealthyStatus :: "status \<Rightarrow> kv_client \<Rightarrow> kv_client" where
  "Client_OnHealthyStatus st c =
     (let c = KvClientStrategy_OnHealthyStatus st c
      in if fallbreak (healthyStatus c) then FallBreakResponse c else c)"

section \<open>Runs of the client\<close>

text \<open>The requests sent so far, by kind. Request ids are fresh.\<close>

record client_requests =
  cr_puts :: "string list"
  cr_deletes :: "string list"
  cr_gets :: "string list"
  cr_txns :: "string list"

definition began :: "'r client_future \<Rightarrow> string list \<Rightarrow> string list" where
  "began f ks = (case f of Answered _ \<Rightarrow> ks | Waiting uuid \<Rightarrow> ks @ [uuid])"

inductive client_run :: "int \<Rightarrow> client_requests \<Rightarrow> kv_client \<Rightarrow> bool" for limit :: int where
  c_start: "client_run limit \<lparr>cr_puts = [], cr_deletes = [], cr_gets = [], cr_txns = []\<rparr>
     (MetaStoreKvClientStrategy address limit prefix)"
| c_put: "client_run limit q c \<Longrightarrow> uuid \<notin> set (cr_puts q) \<Longrightarrow> Client_Put uuid key v popt c = (pf, c') \<Longrightarrow>
     client_run limit (q\<lparr>cr_puts := began pf (cr_puts q)\<rparr>) c'"
| c_delete: "client_run limit q c \<Longrightarrow> uuid \<notin> set (cr_deletes q) \<Longrightarrow> Client_Delete uuid key dopt c = (df, c') \<Longrightarrow>
     client_run limit (q\<lparr>cr_deletes := began df (cr_deletes q)\<rparr>) c'"
| c_get: "client_run limit q c \<Longrightarrow> uuid \<notin> set (cr_gets q) \<Longrightarrow> Client_Get uuid key gopt c = (gf, c') \<Longrightarrow>
     client_run limit (q\<lparr>cr_gets := began gf (cr_gets q)\<rparr>) c'"
| c_commit: "client_run limit q c \<Longrightarrow> uuid \<notin> set (cr_txns q) \<Longrightarrow> Commit uuid t c = (tf, c') \<Longrightarrow>
     client_run limit (q\<lparr>cr_txns := began tf (cr_txns q)\<rparr>) c'"
| c_commit_req: "client_run limit q c \<Longrightarrow> uuid \<notin> set (cr_txns q) \<Longrightarrow> CommitWithReq uuid req async c = (rf, c') \<Longrightarrow>
     client_run limit (q\<lparr>cr_txns := began rf (cr_txns q)\<rparr>) c'"
| c_onput: "client_run limit q c \<Longrightarrow> client_run limit q (Client_OnPut pm c)"
| c_ondelete: "client_run limit q c \<Longrightarrow> client_run limit q (Client_OnDelete dm c)"
| c_onget: "client_run limit q c \<Longrightarrow> client_run limit q (Client_OnGet gm c)"
| c_ontxn: "client_run limit q c \<Longrightarrow> client_run limit q (Client_OnTxn tm c)"
| c_health: "client_run limit q c \<Longrightarrow> client_run limit q (Client_OnHealthyStatus st c)"
| c_put_work: "client_run limit q c \<Longrightarrow> retry_internal (putHelper c) ph \<Longrightarrow> client_run limit q (c\<lparr>putHelper := ph\<rparr>)"
| c_delete_work: "client_run limit q c \<Longrightarrow> retry_internal (deleterHelper c) dh \<Longrightarrow> client_run limit q (c\<lparr>deleterHelper := dh\<rparr>)"
| c_get_work: "client_run limit q c \<Longrightarrow> retry_internal (getHelper c) gh \<Longrightarrow> client_run limit q (c\<lparr>getHelper := gh\<rparr>)"
| c_txn_work: "client_run limit q c \<Longrightarrow> retry_internal (txnHelper c) th \<Longrightarrow> client_run limit q (c\<lparr>txnHelper := th\<rparr>)"

text \<open>Each helper sees a run of its own.\<close>

definition helpers_run :: "int \<Rightarrow> client_requests \<Rightarrow> kv_client \<Rightarrow> bool" where
  "helpers_run limit q c \<longleftrightarrow>
     retry_run limit (cr_puts q) (putHelper c) \<and> retry_run limit (cr_deletes q) (deleterHelper c) \<and>
     retry_run limit (cr_gets q) (getHelper c) \<and> retry_run limit (cr_txns q) (txnHelper c)"

lemmas client_ops = Client_Put_def Client_Delete_def Client_Get_def Commit_def CommitTxn_def CommitWithReq_def
  Client_OnPut_def Client_OnDelete_def Client_OnGet_def Client_OnTxn_def Client_OnHealthyStatus_def
  KvClientStrategy_OnHealthyStatus_def FallBreakResponse_def MetaStoreKvClientStrategy_def

lemma client_run_helpers: "client_run limit q c \<Longrightarrow> helpers_run limit q c"
  by (induction rule: client_run.induct)
    (auto simp: helpers_run_def client_ops began_def Let_def split: if_splits intro: retry_run.intros)

lemma client_runs_settled:
  assumes "client_run limit q c" "0 \<le> limit"
  shows "retry_inv limit (cr_puts q) (putHelper c)" "retry_inv limit (cr_deletes q) (deleterHelper c)"
    "retry_inv limit (cr_gets q) (getHelper c)" "retry_inv limit (cr_txns q) (txnHelper c)"
  using client_run_helpers [OF assms(1)] assms(2) by (auto simp: helpers_run_def intro: retry_run_inv)

lemma End_match [simp]: "fmlookup (requestMatch (End key rsp h)) k = (if k = key then None else fmlookup (requestMatch h) k)"
  by (simp add: End_def cancel_timer_def Let_def split: option.splits)

lemma EndAll_match: "requestMatch (EndAll rsp h) = fmempty"
proof -
  have ends: "fmlookup (requestMatch (fold (\<lambda>(key, t) h. End key rsp h) xs h)) k =
      (if k \<in> fst ` set xs then None else fmlookup (requestMatch h) k)" for xs k
    by (induction xs arbitrary: h) auto
  show ?thesis
  proof (rule fmap_ext)
    fix k
    have "fmlookup (requestMatch h) k = None" if "k \<notin> fst ` set (sorted_list_of_fmap (requestMatch h))"
      using that by (metis fst_conv image_eqI mem_sorted_list_of_fmap not_None_eq)
    then show "fmlookup (requestMatch (EndAll rsp h)) k = fmlookup fmempty k" by (simp add: EndAll_def ends)
  qed
qed

text \<open>Every request of the list is settled, exactly once.\<close>

definition all_settled :: "string list \<Rightarrow> ('m, 'r) retry_helper \<Rightarrow> bool" where
  "all_settled ks h \<longleftrightarrow> distinct (map fst (settled_log h)) \<and> set (map fst (settled_log h)) = set ks"

lemma EndAll_settled: "retry_inv limit ks h \<Longrightarrow> all_settled ks (EndAll rsp h)"
  using retry_inv_EndAll [of limit ks h rsp] by (simp add: retry_parts EndAll_match all_settled_def)

lemma quiet_settled: "retry_inv limit ks h \<Longrightarrow> (\<nexists>h'. retry_internal h h') \<Longrightarrow> all_settled ks h"
  using retry_quiet [of h] by (auto simp: retry_parts all_settled_def)

text \<open>
  C35: No request of the client is left without an answer. Take any history of operations under fresh
  ids, answers, health reports, expiring timers and running messages. When the service is reported
  unhealthy, by an error other than a failed backup, every request sent before is settled, each
  exactly once, and every later operation is answered at once with the code reported, nothing being
  sent.
\<close>

theorem unhealthy_client_answers_all:
  assumes "client_run limit q c" "0 \<le> limit" "fallbreak st" "c' = Client_OnHealthyStatus st c"
  shows "all_settled (cr_puts q) (putHelper c') \<and> all_settled (cr_deletes q) (deleterHelper c') \<and>
    all_settled (cr_gets q) (getHelper c') \<and> all_settled (cr_txns q) (txnHelper c') \<and>
    (\<exists>r. Client_Put uuid key v popt c' = (Answered r, c') \<and> StatusCode (pa_status r) = StatusCode st) \<and>
    (\<exists>r. Client_Delete uuid key dopt c' = (Answered r, c') \<and> StatusCode (da_status r) = StatusCode st) \<and>
    (\<exists>r. Client_Get uuid key gopt c' = (Answered r, c') \<and> StatusCode (ga_status r) = StatusCode st) \<and>
    (\<exists>r. Commit uuid t c' = (Answered r, c') \<and> StatusCode (tx_status r) = StatusCode st)"
proof -
  let ?c = "KvClientStrategy_OnHealthyStatus st c"
  have code: "StatusCode (healthyStatus ?c) = StatusCode st"
    by (simp add: KvClientStrategy_OnHealthyStatus_def)
  then have "fallbreak (healthyStatus ?c)" using assms(3) by (simp add: fallbreak_def IsError_def IsOk_def)
  then have c': "c' = FallBreakResponse ?c" using assms(4) by (simp add: Client_OnHealthyStatus_def)
  have same: "healthyStatus c' = healthyStatus ?c" by (simp add: c' FallBreakResponse_def)
  have "all_settled (cr_puts q) (putHelper c')" "all_settled (cr_deletes q) (deleterHelper c')"
    "all_settled (cr_gets q) (getHelper c')" "all_settled (cr_txns q) (txnHelper c')"
    using client_runs_settled [OF assms(1,2)]
    by (auto simp: c' FallBreakResponse_def KvClientStrategy_OnHealthyStatus_def intro: EndAll_settled)
  moreover have "fallbreak (healthyStatus c')" using same \<open>fallbreak (healthyStatus ?c)\<close> by simp
  ultimately show ?thesis
    using same code by (simp add: Client_Put_def Client_Delete_def Client_Get_def Commit_def CommitTxn_def
        put_failed_def delete_failed_def get_failed_def txn_failed_def fallbreak_status_def)
qed

definition demo_client :: kv_client where
  "demo_client = snd (Commit ''u2'' \<lparr>compares = [], thenOps = [], elseOps = []\<rparr>
     (snd (Client_Get ''u1'' ''k'' get_option_default (MetaStoreKvClientStrategy ''svc'' 5 ''/p''))))"

theorem unhealthy_client_answers_all_witness:
  "all_settled [''u1''] (getHelper (Client_OnHealthyStatus (Status FAILED ''down'') demo_client)) \<and>
   all_settled [''u2''] (txnHelper (Client_OnHealthyStatus (Status FAILED ''down'') demo_client)) \<and>
   (\<exists>r. Client_Get ''u3'' ''k'' get_option_default (Client_OnHealthyStatus (Status FAILED ''down'') demo_client) =
      (Answered r, Client_OnHealthyStatus (Status FAILED ''down'') demo_client) \<and> StatusCode (ga_status r) = FAILED)"
proof -
  let ?c = "MetaStoreKvClientStrategy ''svc'' 5 ''/p''"
  let ?d = "snd (Client_Get ''u1'' ''k'' get_option_default ?c)"
  have get: "Client_Get ''u1'' ''k'' get_option_default ?c = (Waiting ''u1'', ?d)"
    and com: "Commit ''u2'' \<lparr>compares = [], thenOps = [], elseOps = []\<rparr> ?d = (Waiting ''u2'', demo_client)"
    by (simp_all add: demo_client_def client_ops fallbreak_def IsError_def Let_def)
  have run: "client_run 5 \<lparr>cr_puts = [], cr_deletes = [], cr_gets = [''u1''], cr_txns = [''u2'']\<rparr> demo_client"
    using c_commit [OF c_get [OF c_start _ get] _ com] by (simp add: began_def)
  show ?thesis
    using unhealthy_client_answers_all [OF run _ _ refl, where st = "Status FAILED ''down''" and uuid = "''u3''"
        and key = "''k''" and gopt = get_option_default]
    by (simp add: fallbreak_def IsError_def IsOk_def)
qed

end
