(* ===== verification/Instance_Operator.thy ===== *)
theory Instance_Operator
  imports Kv_Client Kv_Correct
begin

text \<open>
  The instance operator (\<^verbatim>\<open>src/functionsystem/src/common/meta_store_adapter/instance_operator.cpp\<close>): it
  writes the record and the route of an instance to the meta store in one transaction that compares
  the version of the record. The transactions go through the client of \<open>Kv_Client\<close> to the model of
  the key-value service. The keys the code keeps for log lines are left out.
\<close>

section \<open>Answers\<close>

record store_info =
  si_key :: string
  si_value :: string

record operate_result =
  or_status :: status
  or_value :: string
  or_preKeyVersion :: int
  or_currentModRevision :: int

text \<open>An operation gives a result, ends the process (\<^verbatim>\<open>YR_EXIT\<close>, on one operating system, when the
  store does not answer in time), or waits for the store.\<close>

datatype outcome = Result operate_result | Exited | Unanswered

record operate_info =
  oi_values :: "string list"
  oi_keySize :: nat
  oi_version :: int
  oi_isCentOS :: bool
  oi_response :: txn_reply

definition result :: "status_code \<Rightarrow> string \<Rightarrow> operate_result" where
  "result code msg = \<lparr>or_status = Status code msg, or_value = [], or_preKeyVersion = 0, or_currentModRevision = 0\<rparr>"

text \<open>The codes from 300 to 349 are those of the operator.\<close>

definition TransactionFailedForEtcd :: "status_code \<Rightarrow> bool" where
  "TransactionFailedForEtcd errCode \<longleftrightarrow>
     (case errCode of
        OTHER_CODE n \<Rightarrow> \<not> (300 \<le> n \<and> n < 350)
      | _ \<Rightarrow> errCode \<notin> {INSTANCE_TRANSACTION_WRONG_VERSION, INSTANCE_TRANSACTION_GET_INFO_FAILED,
          INSTANCE_TRANSACTION_WRONG_RESPONSE_SIZE, INSTANCE_TRANSACTION_DELETE_FAILED,
          INSTANCE_TRANSACTION_WRONG_PARAMETER})"

definition wrong_type :: operate_result where
  "wrong_type = result INSTANCE_TRANSACTION_GET_INFO_FAILED ''operation type is wrong''"

definition kv_empty :: operate_result where
  "kv_empty = result INSTANCE_TRANSACTION_GET_INFO_FAILED ''get response KV is empty''"

definition wrong_size :: operate_result where
  "wrong_size = result INSTANCE_TRANSACTION_WRONG_RESPONSE_SIZE ''the size of responses transaction return is incorrect''"

definition wrong_version :: "key_value \<Rightarrow> operate_result" where
  "wrong_version kv = \<lparr>or_status = Status INSTANCE_TRANSACTION_WRONG_VERSION ''version is incorrect'',
     or_value = kv_value kv, or_preKeyVersion = 0, or_currentModRevision = kv_mod_revision kv\<rparr>"

definition done_ok :: "int \<Rightarrow> int \<Rightarrow> operate_result" where
  "done_ok version revision = \<lparr>or_status = Status_OK, or_value = [], or_preKeyVersion = version, or_currentModRevision = revision\<rparr>"

text \<open>The first component says whether the search over the keys ends here.\<close>

definition CheckGetResponse :: "txn_operation_response \<Rightarrow> string \<Rightarrow> bool \<times> operate_result" where
  "CheckGetResponse resp v =
     (case resp of
        OPERATION_GET header _ kvs \<Rightarrow>
          (case kvs of
             [] \<Rightarrow> (False, kv_empty)
           | kv # _ \<Rightarrow> if v = kv_value kv then (True, done_ok 0 (hd_revision header)) else (True, wrong_version kv))
      | _ \<Rightarrow> (True, wrong_type))"

text \<open>The loop over responses and values, with the last mismatch and whether a key is missing.\<close>

fun resolve_conflict ::
  "(txn_operation_response \<times> string) list \<Rightarrow> operate_result option \<Rightarrow> bool \<Rightarrow> int \<Rightarrow> operate_result" where
  "resolve_conflict [] mismatch missing revision =
     (case mismatch of Some r \<Rightarrow> r | None \<Rightarrow> if missing then kv_empty else done_ok 0 revision)"
| "resolve_conflict ((resp, v) # rest) mismatch missing revision =
     (case resp of
        OPERATION_GET _ _ kvs \<Rightarrow>
          (case kvs of
             [] \<Rightarrow> resolve_conflict rest mismatch True revision
           | kv # _ \<Rightarrow>
               if v \<noteq> kv_value kv then resolve_conflict rest (Some (wrong_version kv)) missing revision
               else resolve_conflict rest mismatch missing revision)
      | _ \<Rightarrow> wrong_type)"

definition ResolveCreateConflict :: "operate_info \<Rightarrow> operate_result" where
  "ResolveCreateConflict info =
     resolve_conflict (zip (take (oi_keySize info) (tx_responses (oi_response info))) (oi_values info)) None False
       (hd_revision (tx_header (oi_response info)))"

text \<open>The common start of the four answers: an error of the store.\<close>

definition store_failed :: "operate_info \<Rightarrow> outcome" where
  "store_failed info =
     (if oi_isCentOS info \<and> StatusCode (tx_status (oi_response info)) = GRPC_DEADLINE_EXCEEDED then Exited
      else Result \<lparr>or_status = tx_status (oi_response info), or_value = [], or_preKeyVersion = 0, or_currentModRevision = 0\<rparr>)"

definition OnCreate :: "operate_info \<Rightarrow> outcome" where
  "OnCreate info =
     (let resp = oi_response info
      in if IsError (tx_status resp) then store_failed info
         else if length (tx_responses resp) \<noteq> oi_keySize info \<or> oi_keySize info \<noteq> length (oi_values info) then Result wrong_size
         else if tx_success resp then Result (done_ok 0 (hd_revision (tx_header resp)))
         else Result (ResolveCreateConflict info))"

fun first_decided :: "(txn_operation_response \<times> string) list \<Rightarrow> operate_result \<Rightarrow> operate_result" where
  "first_decided [] r = r"
| "first_decided ((resp, v) # rest) _ =
     (let (found, r) = CheckGetResponse resp v in if found then r else first_decided rest r)"

text \<open>\<^verbatim>\<open>OperateResult result;\<close> before the loop is a default value: no error and zeros.\<close>

definition OnModify :: "operate_info \<Rightarrow> outcome" where
  "OnModify info =
     (let resp = oi_response info
      in if IsError (tx_status resp) then store_failed info
         else if length (tx_responses resp) \<noteq> oi_keySize info \<or> oi_keySize info \<noteq> length (oi_values info) then Result wrong_size
         else if tx_success resp then Result (done_ok (oi_version info) (hd_revision (tx_header resp)))
         else Result (first_decided (zip (tx_responses resp) (oi_values info)) (done_ok 0 0)))"

text \<open>The code reads the first response without a test that there is one; the model gives the
  answer for a wrong type there.\<close>

definition Op_OnDelete :: "operate_info \<Rightarrow> outcome" where
  "Op_OnDelete info =
     (let resp = oi_response info
      in if IsError (tx_status resp) then store_failed info
         else if tx_success resp
         then
           if length (tx_responses resp) \<noteq> oi_keySize info then Result wrong_size
           else
             (case tx_responses resp of
                OPERATION_DELETE _ deleted _ # _ \<Rightarrow>
                  if deleted = 0
                  then Result (result INSTANCE_TRANSACTION_DELETE_FAILED ''failed to delete KV'')
                  else Result (done_ok 0 (hd_revision (tx_header resp)))
              | _ \<Rightarrow> Result wrong_type)
         else
           (case tx_responses resp of
              OPERATION_GET _ _ kvs # _ \<Rightarrow>
                (case kvs of [] \<Rightarrow> Result kv_empty | kv # _ \<Rightarrow> Result (wrong_version kv))
            | _ \<Rightarrow> Result wrong_type))"

text \<open>The text of the error goes into the value here.\<close>

definition OnForceDelete :: "operate_info \<Rightarrow> outcome" where
  "OnForceDelete info =
     (let resp = oi_response info
      in if IsError (tx_status resp) then store_failed info
         else if length (tx_responses resp) \<noteq> oi_keySize info
         then Result \<lparr>or_status = Status INSTANCE_TRANSACTION_WRONG_RESPONSE_SIZE [],
                or_value = ''the size of responses transaction return is incorrect'', or_preKeyVersion = 0,
                or_currentModRevision = 0\<rparr>
         else Result (done_ok 0 (hd_revision (tx_header resp))))"

section \<open>Transactions\<close>

definition put_of :: "bool \<Rightarrow> store_info \<Rightarrow> client_operation" where
  "put_of low i = PutOperation (si_key i) (si_value i) \<lparr>po_leaseId = 0, po_prevKv = False, po_asyncBackup = low\<rparr>"

definition get_of :: "store_info \<Rightarrow> client_operation" where
  "get_of i = GetOperation (si_key i) get_option_default"

definition delete_of :: "bool \<Rightarrow> store_info \<Rightarrow> client_operation" where
  "delete_of low i = DeleteOperation (si_key i) \<lparr>do_prevKv = False, do_prefix = False, do_asyncBackup = low\<rparr>"

text \<open>The keys of an operation: the record, then the others that are present.\<close>

definition keys_of :: "store_info \<Rightarrow> store_info option list \<Rightarrow> store_info list" where
  "keys_of i others = i # List.map_filter (\<lambda>x. x) others"

definition create_txn :: "bool \<Rightarrow> store_info list \<Rightarrow> txn_transaction" where
  "create_txn low ks = \<lparr>compares = map (\<lambda>i. OfVersion (si_key i) OP_EQUAL 0) ks, thenOps = map (put_of low) ks,
     elseOps = map get_of ks\<rparr>"

definition modify_txn :: "bool \<Rightarrow> int \<Rightarrow> store_info list \<Rightarrow> txn_transaction" where
  "modify_txn low version ks = \<lparr>compares = [OfVersion (si_key (hd ks)) OP_EQUAL version], thenOps = map (put_of low) ks,
     elseOps = map get_of ks\<rparr>"

definition delete_txn :: "bool \<Rightarrow> int \<Rightarrow> store_info list \<Rightarrow> txn_transaction" where
  "delete_txn low version ks = \<lparr>compares = [OfVersion (si_key (hd ks)) OP_EQUAL version], thenOps = map (delete_of low) ks,
     elseOps = [get_of (hd ks)]\<rparr>"

definition force_delete_txn :: "bool \<Rightarrow> store_info list \<Rightarrow> txn_transaction" where
  "force_delete_txn low ks = \<lparr>compares = [OfValue (si_key (hd ks)) OP_NOT_EQUAL []], thenOps = map (delete_of low) ks,
     elseOps = map (delete_of low) ks\<rparr>"

text \<open>One transaction: the client answers it itself or posts a request, the service executes it, and
  the last message the service sends, if it answers the transaction, is what the client gets.\<close>

definition commit ::
  "(key_value \<Rightarrow> key_value) \<Rightarrow> kv_client \<Rightarrow> txn_transaction \<Rightarrow> kv_state \<Rightarrow> txn_reply option \<times> kv_state" where
  "commit moved c t s =
     (case Commit ''txn'' t c of
        (Answered r, _) \<Rightarrow> (Some r, s)
      | (Waiting _, c') \<Rightarrow>
          let request = rt_msg (last (retries (txnHelper c')));
              (_, s') = AsyncTxn_Master moved ''client'' request s
          in case rev (drop (length (outbox s)) (outbox s')) of
               SendOnTxn _ m # _ \<Rightarrow> (Some (txn_result (txn_answer m)), s')
             | _ \<Rightarrow> (None, s'))"

definition answer :: "(operate_info \<Rightarrow> outcome) \<Rightarrow> string list \<Rightarrow> nat \<Rightarrow> int \<Rightarrow> bool \<Rightarrow> txn_reply option \<Rightarrow> outcome" where
  "answer f values keySize version centos reply =
     (case reply of
        None \<Rightarrow> Unanswered
      | Some r \<Rightarrow> f \<lparr>oi_values = values, oi_keySize = keySize, oi_version = version, oi_isCentOS = centos, oi_response = r\<rparr>)"

definition no_instance :: outcome where
  "no_instance = Result \<lparr>or_status = Status INSTANCE_TRANSACTION_WRONG_PARAMETER [], or_value = ''instance info must be exist'',
     or_preKeyVersion = 0, or_currentModRevision = 0\<rparr>"

text \<open>The client, the operating system and the store are the surroundings of an operation.\<close>

record surroundings =
  su_moved :: "key_value \<Rightarrow> key_value"
  su_client :: kv_client
  su_isCentOS :: bool

definition Op_Create ::
  "surroundings \<Rightarrow> store_info option \<Rightarrow> store_info option \<Rightarrow> bool \<Rightarrow> kv_state \<Rightarrow> outcome \<times> kv_state" where
  "Op_Create e instanceInfo routeInfo low s =
     (case instanceInfo of
        None \<Rightarrow> (no_instance, s)
      | Some i \<Rightarrow>
          let ks = keys_of i [routeInfo];
              (reply, s) = commit (su_moved e) (su_client e) (create_txn low ks) s
          in (answer OnCreate (map si_value ks) (length ks) 0 (su_isCentOS e) reply, s))"

definition Op_Modify ::
  "surroundings \<Rightarrow> store_info option \<Rightarrow> store_info option \<Rightarrow> int \<Rightarrow> bool \<Rightarrow> kv_state \<Rightarrow> outcome \<times> kv_state" where
  "Op_Modify e instanceInfo routeInfo version low s =
     (case instanceInfo of
        None \<Rightarrow> (no_instance, s)
      | Some i \<Rightarrow>
          let ks = keys_of i [routeInfo];
              (reply, s) = commit (su_moved e) (su_client e) (modify_txn low version ks) s
          in (answer OnModify (map si_value ks) (length ks) version (su_isCentOS e) reply, s))"

definition Op_Delete ::
  "surroundings \<Rightarrow> store_info option \<Rightarrow> store_info option \<Rightarrow> store_info option \<Rightarrow> int \<Rightarrow> bool \<Rightarrow> kv_state \<Rightarrow>
     outcome \<times> kv_state" where
  "Op_Delete e instanceInfo routeInfo debugInfo version low s =
     (case instanceInfo of
        None \<Rightarrow> (no_instance, s)
      | Some i \<Rightarrow>
          let ks = keys_of i [routeInfo, debugInfo];
              (reply, s) = commit (su_moved e) (su_client e) (delete_txn low version ks) s
          in (answer Op_OnDelete [[]] (length ks) version (su_isCentOS e) reply, s))"

definition Op_ForceDelete ::
  "surroundings \<Rightarrow> store_info option \<Rightarrow> store_info option \<Rightarrow> store_info option \<Rightarrow> bool \<Rightarrow> kv_state \<Rightarrow>
     outcome \<times> kv_state" where
  "Op_ForceDelete e instanceInfo routeInfo debugInfo low s =
     (case instanceInfo of
        None \<Rightarrow> (no_instance, s)
      | Some i \<Rightarrow>
          let ks = keys_of i [routeInfo, debugInfo];
              (reply, s) = commit (su_moved e) (su_client e) (force_delete_txn low ks) s
          in (answer OnForceDelete [[]] (length ks) 0 (su_isCentOS e) reply, s))"

text \<open>The answer to the read of an instance.\<close>

definition OnGetInstance :: "get_reply \<Rightarrow> operate_result" where
  "OnGetInstance response =
     (if IsError (ga_status response) then result FAILED []
      else if ga_count response = 0 then result FAILED []
      else \<lparr>or_status = Status_OK, or_value = kv_value (ga_kvs response ! 0), or_preKeyVersion = 0,
             or_currentModRevision = kv_mod_revision (ga_kvs response ! 0)\<rparr>)"

definition Op_GetInstance :: "surroundings \<Rightarrow> string \<Rightarrow> kv_state \<Rightarrow> operate_result" where
  "Op_GetInstance e key s =
     (case Client_Get ''get'' key get_option_default (su_client e) of
        (Answered r, _) \<Rightarrow> OnGetInstance r
      | (Waiting _, c') \<Rightarrow>
          OnGetInstance (get_result \<lparr>ms_responseid = ''get'', ms_status = SUCCESS, ms_errormsg = [],
            ms_payload = Range (the (rq_payload (rt_msg (last (retries (getHelper c')))))) s\<rparr>))"

end
