(* ===== verification/Instance_State.thy ===== *)
theory Instance_State
  imports Instance_Types Instance_Operator
begin

text \<open>
  The state machine of an instance (\<^verbatim>\<open>instance_state_machine.cpp\<close>, \<^verbatim>\<open>instance_context.cpp\<close>, both under
  \<^verbatim>\<open>src/functionsystem/src/function_proxy/common/state_machine/\<close>). A transition has two parts, because the write to
  the meta store is asynchronous: \<open>TransitionTo\<close> tests the change and gives a finished result or a save
  to be done, and \<open>OnPersisted\<close> takes the result of the save, on whatever the machine is by then.
  \<open>run_transition\<close> composes them with the instance operator and the key-value service.

  A shared pointer to a schedule request is the request itself: the model is that of a caller that
  passes a request of its own, not the one the machine holds. Handlers, the observer and the callbacks
  are logs of what they are called with. Log lines, billing marks and null requests inside a context
  (the code raises a signal there) are left out.
\<close>

section \<open>State\<close>

text \<open>Outside the machine: two process-wide switches, and protobuf's conversions and the digest of the
  cryptographic library, which are parameters.\<close>

record machine_env =
  directRouting :: bool
  forceLowReliability :: bool
  sha256Hex :: "string \<Rightarrow> string"
  info_to_json :: "instance_info \<Rightarrow> string option"
  info_from_json :: "string \<Rightarrow> instance_info option"
  route_to_json :: "route_info \<Rightarrow> string option"
  route_from_json :: "string \<Rightarrow> route_info option"

record sched_request =
  sq_requestid :: string
  sq_instance :: instance_info

record instance_context =
  scheduleRequest :: sched_request
  cx_modRevision :: int

record trans_context =
  newState :: instance_state
  tc_version :: int
  tc_msg :: string
  tc_persistence :: bool
  tc_errCode :: int
  tc_exitCode :: int
  tc_type :: int
  scheduleReq :: "sched_request option"
  allowRunningRuntimeRefresh :: bool
  allowNetworkPolicyRefresh :: bool
  tc_force :: bool

record transition_result =
  preState :: "instance_state option"
  savedInfo :: instance_info
  previousInfo :: instance_info
  tr_version :: int
  tr_status :: status
  tr_currentModRevision :: int

text \<open>The promise of a running save is absent after it was fulfilled; the constructor leaves a fulfilled one.\<close>

record instance_machine =
  owner :: string
  machine_id :: string
  isLocalAbnormal :: bool
  lastSaveFailedState :: "int \<times> int"
  context_opt :: "instance_context option"
  stateChangeCallbacks :: "(string, instance_state list) fmap"
  savePromise :: "bool option"
  exitTimes :: int
  isMetaStoreEnable :: bool
  isWatching :: bool
  has_exitHandler :: bool
  has_observer :: bool
  has_controlPlane :: bool
  exit_calls :: "instance_info list"
  published :: "(instance_info \<times> int) list"
  fired :: "(string \<times> instance_info) list"
  watched :: "(string \<times> int) list"
  cancelled :: "string list"
  exit_failed :: "transition_result list"
  deletions :: "(string \<times> int) list"

definition MAX_EXIT_TIMES :: int where "MAX_EXIT_TIMES = 3"

definition INVALID_LAST_SAVE_FAILED_STATE :: int where "INVALID_LAST_SAVE_FAILED_STATE = -1"

text \<open>The machine a constructor makes; handlers and observers are process-wide.\<close>

definition InstanceStateMachine ::
  "string \<Rightarrow> instance_context option \<Rightarrow> bool \<Rightarrow> bool \<Rightarrow> bool \<Rightarrow> bool \<Rightarrow> instance_machine" where
  "InstanceStateMachine nodeID context metaStore exitHandler observer controlPlane =
     \<lparr>owner = nodeID,
      machine_id = (case context of Some cx \<Rightarrow> ii_instanceid (sq_instance (scheduleRequest cx)) | None \<Rightarrow> []),
      isLocalAbnormal = False,
      lastSaveFailedState = (INVALID_LAST_SAVE_FAILED_STATE, INVALID_LAST_SAVE_FAILED_STATE),
      context_opt = context, stateChangeCallbacks = fmempty, savePromise = Some True, exitTimes = 0,
      isMetaStoreEnable = metaStore, isWatching = False, has_exitHandler = exitHandler, has_observer = observer,
      has_controlPlane = controlPlane, exit_calls = [], published = [], fired = [], watched = [], cancelled = [], exit_failed = [], deletions = []\<rparr>"

section \<open>The context\<close>

definition cx_info :: "instance_context \<Rightarrow> instance_info" where
  "cx_info cx = sq_instance (scheduleRequest cx)"

definition cx_state :: "instance_context \<Rightarrow> instance_state" where
  "cx_state cx = state_of (is_code (ii_status (cx_info cx)))"

definition UpdateInfo :: "instance_info \<Rightarrow> instance_context \<Rightarrow> instance_context" where
  "UpdateInfo i cx = cx\<lparr>scheduleRequest := (scheduleRequest cx)\<lparr>sq_instance := i\<rparr>\<rparr>"

definition with_status :: "instance_state \<Rightarrow> int \<Rightarrow> int \<Rightarrow> string \<Rightarrow> int \<Rightarrow> instance_info \<Rightarrow> instance_info" where
  "with_status st errCode exitCode msg typ i =
     i\<lparr>ii_status := \<lparr>is_code = code_of st, is_exitcode = exitCode, is_msg = msg, is_type = typ, is_errcode = errCode\<rparr>\<rparr>"

definition SetInstanceState ::
  "instance_state \<Rightarrow> int \<Rightarrow> int \<Rightarrow> string \<Rightarrow> int \<Rightarrow> instance_context \<Rightarrow> instance_context" where
  "SetInstanceState st errCode exitCode msg typ cx = UpdateInfo (with_status st errCode exitCode msg typ (cx_info cx)) cx"

definition SetVersion :: "int \<Rightarrow> instance_context \<Rightarrow> instance_context" where
  "SetVersion version cx =
     (if version \<noteq> 0 \<and> version \<le> ii_version (cx_info cx) then cx
      else UpdateInfo ((cx_info cx)\<lparr>ii_version := version\<rparr>) cx)"

definition SetModRevision :: "int \<Rightarrow> instance_context \<Rightarrow> instance_context" where
  "SetModRevision revision cx = (if revision > cx_modRevision cx then cx\<lparr>cx_modRevision := revision\<rparr> else cx)"

section \<open>Permitted changes\<close>

fun STATE_TRANSITION_MAP :: "instance_state \<Rightarrow> instance_state list option" where
  "STATE_TRANSITION_MAP IS_NEW = Some [IS_SCHEDULING]"
| "STATE_TRANSITION_MAP IS_SCHEDULING =
     Some [IS_SCHEDULING, IS_CREATING, IS_FAILED, IS_FATAL, IS_EXITING, IS_SCHEDULE_FAILED]"
| "STATE_TRANSITION_MAP IS_CREATING = Some [IS_RUNNING, IS_FAILED, IS_EXITING, IS_FATAL]"
| "STATE_TRANSITION_MAP IS_RUNNING =
     Some [IS_FAILED, IS_EXITING, IS_FATAL, IS_EVICTING, IS_SUB_HEALTH, IS_SUSPEND, IS_PAUSED]"
| "STATE_TRANSITION_MAP IS_SUB_HEALTH = Some [IS_FAILED, IS_EXITING, IS_FATAL, IS_EVICTING, IS_RUNNING]"
| "STATE_TRANSITION_MAP IS_FAILED = Some [IS_SCHEDULING, IS_EXITING, IS_FATAL]"
| "STATE_TRANSITION_MAP IS_FATAL = Some [IS_EXITING]"
| "STATE_TRANSITION_MAP IS_EXITING = Some [IS_FATAL]"
| "STATE_TRANSITION_MAP IS_EVICTING = Some [IS_EVICTED, IS_FATAL]"
| "STATE_TRANSITION_MAP IS_SCHEDULE_FAILED = Some [IS_SCHEDULING, IS_EXITING]"
| "STATE_TRANSITION_MAP IS_EVICTED = Some [IS_EXITING, IS_FATAL]"
| "STATE_TRANSITION_MAP IS_SUSPEND = Some [IS_CREATING, IS_SCHEDULING, IS_RUNNING, IS_FATAL, IS_EXITING]"
| "STATE_TRANSITION_MAP IS_PAUSED = Some [IS_RUNNING, IS_EXITING, IS_FATAL]"
| "STATE_TRANSITION_MAP _ = None"

definition FORCE_FATAL_ALLOWED_SOURCES :: "instance_state list" where
  "FORCE_FATAL_ALLOWED_SOURCES = [IS_NEW, IS_SCHEDULING, IS_CREATING]"

definition IsResumeSnapshotCleanup :: "machine_env \<Rightarrow> trans_context \<Rightarrow> instance_info \<Rightarrow> bool" where
  "IsResumeSnapshotCleanup env context current =
     (case (scheduleReq context, ii_snapshotinfo current) of
        (Some req, Some snapshot) \<Rightarrow>
          let candidate = sq_instance req
          in newState context = IS_RUNNING \<and> is_code (ii_status current) = code_of IS_RUNNING \<and>
             tc_version context = ii_version current \<and> IsCompleteReadySnapshot snapshot \<and>
             ii_snapshotinfo candidate = None \<and>
             ii_instanceid candidate = ii_instanceid current \<and>
             ii_requestid candidate = ii_requestid current \<and>
             ii_tenantid candidate = ii_tenantid current \<and>
             ii_version candidate = ii_version current \<and>
             ii_functionproxyid candidate = ii_functionproxyid current \<and>
             ii_runtimeid candidate = ii_runtimeid current \<and>
             ii_runtimeid candidate = RuntimeID (sha256Hex env) (ii_instanceid current) (sq_requestid req) \<and>
             ii_runtimeaddress candidate = ii_runtimeaddress current \<and>
             ii_functionagentid candidate = ii_functionagentid current \<and>
             ii_containerid candidate = ii_containerid current \<and>
             ii_containerip candidate = ii_containerip current \<and>
             ii_unitid candidate = ii_unitid current \<and>
             ii_executortype candidate = ii_executortype current \<and>
             ii_starttime candidate = ii_starttime current \<and>
             ii_proxygrpcaddress candidate = ii_proxygrpcaddress current
      | _ \<Rightarrow> False)"

definition IsRunningFailoverRefresh :: "trans_context \<Rightarrow> instance_info \<Rightarrow> bool" where
  "IsRunningFailoverRefresh context current =
     (case scheduleReq context of
        None \<Rightarrow> False
      | Some req \<Rightarrow>
          let currentState = state_of (is_code (ii_status current)); candidate = sq_instance req
          in newState context = IS_RUNNING \<and> (currentState = IS_RUNNING \<or> currentState = IS_EVICTED) \<and>
             tc_version context = ii_version current \<and> (ii_failover current \<or> allowRunningRuntimeRefresh context) \<and>
             ii_failover candidate = ii_failover current \<and>
             is_code (ii_status candidate) = code_of IS_RUNNING \<and>
             ii_instanceid candidate = ii_instanceid current \<and>
             ii_requestid candidate = ii_requestid current \<and>
             ii_tenantid candidate = ii_tenantid current \<and>
             ii_functionproxyid candidate = ii_functionproxyid current \<and>
             ii_functionagentid candidate = ii_functionagentid current \<and>
             ii_version candidate = ii_version current \<and>
             ii_runtimeid candidate \<noteq> [] \<and> ii_runtimeid candidate \<noteq> ii_runtimeid current)"

definition without_policy :: "instance_info \<Rightarrow> instance_info" where
  "without_policy i = i\<lparr>ii_createoptions := fmdrop ''network_policy'' (ii_createoptions i)\<rparr>"

definition IsNetworkPolicyRefresh :: "trans_context \<Rightarrow> instance_info \<Rightarrow> bool" where
  "IsNetworkPolicyRefresh context current =
     (case scheduleReq context of
        None \<Rightarrow> False
      | Some req \<Rightarrow>
          allowNetworkPolicyRefresh context \<and> newState context = state_of (is_code (ii_status current)) \<and>
          tc_version context = ii_version current \<and> without_policy current = without_policy (sq_instance req))"

section \<open>Where a state is kept\<close>

datatype persistence_type = PERSISTENT_NOT | PERSISTENT_INSTANCE | PERSISTENT_ROUTE | PERSISTENT_ALL

definition info_state :: "instance_info \<Rightarrow> instance_state" where
  "info_state i = state_of (is_code (ii_status i))"

definition low_of :: "machine_env \<Rightarrow> instance_info \<Rightarrow> bool" where
  "low_of env i \<longleftrightarrow> IsLowReliabilityInstance (forceLowReliability env) i"

definition GetPersistenceType :: "machine_env \<Rightarrow> instance_info \<Rightarrow> bool \<Rightarrow> persistence_type" where
  "GetPersistenceType env i metaStore =
     (let state = info_state i; early = (state = IS_SCHEDULING \<or> state = IS_CREATING);
          needPersistentRoute = NeedUpdateRouteState state metaStore
      in if directRouting env \<and> early then PERSISTENT_NOT
         else if low_of env i
         then
           if forceLowReliability env \<and> early then PERSISTENT_NOT
           else if needPersistentRoute then PERSISTENT_ALL else PERSISTENT_NOT
         else if needPersistentRoute \<or> \<not> metaStore then PERSISTENT_ALL else PERSISTENT_INSTANCE)"

definition IsInitialLowReliabilityRunningPersistence ::
  "machine_env \<Rightarrow> instance_info \<Rightarrow> instance_state \<Rightarrow> int \<Rightarrow> bool" where
  "IsInitialLowReliabilityRunningPersistence env i oldState version \<longleftrightarrow>
     \<not> directRouting env \<and> low_of env i \<and> oldState = IS_CREATING \<and> is_code (ii_status i) = code_of IS_RUNNING \<and>
     version = 0 \<and> ii_groupid i = [] \<and> \<not> IsAppDriver (ii_createoptions i) \<and> \<not> IsStaticFunctionInstance i \<and>
     ii_snapshotinfo i = None \<and> \<not> ii_ischeckpointed i \<and> \<not> IsRuntimeRecoverEnable i"

definition IsFirstPersistence :: "machine_env \<Rightarrow> instance_info \<Rightarrow> instance_state \<Rightarrow> int \<Rightarrow> bool" where
  "IsFirstPersistence env i oldState version \<longleftrightarrow>
     (if directRouting env then version = 0
      else oldState = IS_NEW \<or> oldState = IS_SCHEDULING \<and> ii_groupid i \<noteq> [] \<and> version = 0 \<or>
           IsInitialLowReliabilityRunningPersistence env i oldState version)"

definition TransToStoredKeys ::
  "instance_info \<Rightarrow> persistence_type \<Rightarrow> (store_info option \<times> store_info option) option" where
  "TransToStoredKeys i persistence =
     (let route = (if persistence = PERSISTENT_ROUTE \<or> persistence = PERSISTENT_ALL
                   then Some \<lparr>si_key = GenInstanceRouteKey (ii_instanceid i), si_value = []\<rparr> else None)
      in if persistence = PERSISTENT_INSTANCE \<or> persistence = PERSISTENT_ALL
         then
           case GenInstanceKey (ii_function i) (ii_instanceid i) (ii_requestid i) of
             None \<Rightarrow> None
           | Some path \<Rightarrow> Some (Some \<lparr>si_key = path, si_value = []\<rparr>, route)
         else Some (None, route))"

definition TransInstanceInfo :: "machine_env \<Rightarrow> instance_info \<Rightarrow> store_info option" where
  "TransInstanceInfo env i =
     (case GenInstanceKey (ii_function i) (ii_instanceid i) (ii_requestid i) of
        None \<Rightarrow> None
      | Some path \<Rightarrow> map_option (\<lambda>json. \<lparr>si_key = path, si_value = json\<rparr>) (info_to_json env i))"

definition TransRouteInfo :: "machine_env \<Rightarrow> instance_info \<Rightarrow> store_info option" where
  "TransRouteInfo env i =
     map_option (\<lambda>json. \<lparr>si_key = GenInstanceRouteKey (ii_instanceid i), si_value = json\<rparr>)
       (route_to_json env (TransToRouteInfoFromInstanceInfo i))"

text \<open>\<open>None\<close> is the error; inside, the record and the route that are to be written.\<close>

definition TransToStoredData ::
  "machine_env \<Rightarrow> instance_info \<Rightarrow> persistence_type \<Rightarrow> (store_info option \<times> store_info option) option" where
  "TransToStoredData env i persistence =
     (let with_instance = (persistence = PERSISTENT_INSTANCE \<or> persistence = PERSISTENT_ALL);
          with_route = (persistence = PERSISTENT_ROUTE \<or> persistence = PERSISTENT_ALL);
          record = TransInstanceInfo env i; route = TransRouteInfo env i
      in if with_instance \<and> record = None \<or> with_route \<and> route = None then None
         else Some (if with_instance then record else None, if with_route then route else None))"

section \<open>Callbacks, observers, exit\<close>

definition ExitInstance :: "instance_machine \<Rightarrow> instance_machine" where
  "ExitInstance m =
     (case context_opt m of
        Some cx \<Rightarrow> if has_exitHandler m then m\<lparr>exit_calls := exit_calls m @ [cx_info cx]\<rparr> else m
      | None \<Rightarrow> m)"

definition PublishToLocalObserver :: "instance_info \<Rightarrow> int \<Rightarrow> instance_machine \<Rightarrow> instance_machine" where
  "PublishToLocalObserver i revision m =
     (if has_observer m then m\<lparr>published := published m @ [(i, revision)]\<rparr> else m)"

definition watch_once :: "string \<Rightarrow> int \<Rightarrow> instance_machine \<Rightarrow> instance_machine" where
  "watch_once i revision m =
     (if has_controlPlane m \<and> \<not> isWatching m then m\<lparr>watched := watched m @ [(i, revision)], isWatching := True\<rparr> else m)"

definition SetLastSaveFailedState :: "int \<Rightarrow> int \<Rightarrow> instance_machine \<Rightarrow> instance_machine" where
  "SetLastSaveFailedState st errorCode m = m\<lparr>lastSaveFailedState := (st, errorCode)\<rparr>"

text \<open>The identifier for an empty event key is random in the code and a parameter here. \<^verbatim>\<open>emplace\<close> does not replace.\<close>

definition AddStateChangeCallback :: "string \<Rightarrow> instance_state list \<Rightarrow> string \<Rightarrow> instance_machine \<Rightarrow> instance_machine" where
  "AddStateChangeCallback uuid statesConcerned eventKey m =
     (case context_opt m of
        None \<Rightarrow> m
      | Some cx \<Rightarrow>
          if cx_state cx \<in> set statesConcerned then m\<lparr>fired := fired m @ [(eventKey, cx_info cx)]\<rparr>
          else
            let key = (if eventKey = [] then uuid else eventKey)
            in if fmlookup (stateChangeCallbacks m) key \<noteq> None then m
               else m\<lparr>stateChangeCallbacks := fmupd key statesConcerned (stateChangeCallbacks m)\<rparr>)"

definition DeleteStateChangeCallback :: "string \<Rightarrow> instance_machine \<Rightarrow> instance_machine" where
  "DeleteStateChangeCallback eventKey m =
     (if eventKey = [] then m else m\<lparr>stateChangeCallbacks := fmdrop eventKey (stateChangeCallbacks m)\<rparr>)"

definition HasStateChangeCallback :: "string \<Rightarrow> instance_machine \<Rightarrow> bool" where
  "HasStateChangeCallback eventKey m \<longleftrightarrow> eventKey \<noteq> [] \<and> fmlookup (stateChangeCallbacks m) eventKey \<noteq> None"

text \<open>The order of the hash table is the order of the keys here.\<close>

definition ExecuteStateChangeCallback :: "instance_state \<Rightarrow> instance_machine \<Rightarrow> instance_machine" where
  "ExecuteStateChangeCallback st m =
     (case context_opt m of
        None \<Rightarrow> m
      | Some cx \<Rightarrow>
          let hit = filter (\<lambda>(k, sts). st \<in> set sts) (sorted_list_of_fmap (stateChangeCallbacks m))
          in m\<lparr>fired := fired m @ map (\<lambda>(k, _). (k, cx_info cx)) hit,
               stateChangeCallbacks := fmfilter (\<lambda>k. k \<notin> fst ` set hit) (stateChangeCallbacks m)\<rparr>)"

definition UpdateInstanceInfo :: "instance_info \<Rightarrow> instance_machine \<Rightarrow> instance_machine" where
  "UpdateInstanceInfo i m =
     (case context_opt m of
        None \<Rightarrow> m
      | Some cx \<Rightarrow> ExecuteStateChangeCallback (info_state i) (m\<lparr>context_opt := Some (UpdateInfo i cx)\<rparr>))"

definition NewSavingPomise :: "instance_machine \<Rightarrow> instance_machine" where
  "NewSavingPomise m = m\<lparr>savePromise := Some False\<rparr>"

definition TagSaved :: "instance_machine \<Rightarrow> instance_machine" where
  "TagSaved m = m\<lparr>savePromise := None\<rparr>"

definition IsSaving :: "instance_machine \<Rightarrow> bool" where
  "IsSaving m \<longleftrightarrow> savePromise m = Some False"

section \<open>Single fields\<close>

text \<open>The setters of the machine leave a machine without a context as it is.\<close>

definition on_context :: "(instance_context \<Rightarrow> instance_context) \<Rightarrow> instance_machine \<Rightarrow> instance_machine" where
  "on_context f m = m\<lparr>context_opt := map_option f (context_opt m)\<rparr>"

definition on_info :: "(instance_info \<Rightarrow> instance_info) \<Rightarrow> instance_machine \<Rightarrow> instance_machine" where
  "on_info f = on_context (\<lambda>cx. UpdateInfo (f (cx_info cx)) cx)"

definition UpdateOwner :: "string \<Rightarrow> instance_machine \<Rightarrow> instance_machine" where
  "UpdateOwner o' = on_info (\<lambda>i. i\<lparr>ii_functionproxyid := o'\<rparr>)"

definition ReleaseOwner :: "instance_machine \<Rightarrow> instance_machine" where
  "ReleaseOwner = UpdateOwner []"

definition SetRuntimeID :: "string \<Rightarrow> instance_machine \<Rightarrow> instance_machine" where
  "SetRuntimeID runtimeID = on_info (\<lambda>i. i\<lparr>ii_runtimeid := runtimeID\<rparr>)"

definition SetStartTime :: "string \<Rightarrow> instance_machine \<Rightarrow> instance_machine" where
  "SetStartTime timeInfo = on_info (\<lambda>i. i\<lparr>ii_starttime := timeInfo\<rparr>)"

definition SetRuntimeAddress :: "string \<Rightarrow> instance_machine \<Rightarrow> instance_machine" where
  "SetRuntimeAddress address = on_info (\<lambda>i. i\<lparr>ii_runtimeaddress := address\<rparr>)"

definition SetCheckpointed :: "bool \<Rightarrow> instance_machine \<Rightarrow> instance_machine" where
  "SetCheckpointed flag = on_info (\<lambda>i. i\<lparr>ii_ischeckpointed := flag\<rparr>)"

definition TagStop :: "instance_machine \<Rightarrow> instance_machine" where
  "TagStop = on_info (\<lambda>i. i\<lparr>ii_extensions := fmupd ''stop'' ''true'' (ii_extensions i)\<rparr>)"

definition IsStopped :: "instance_context \<Rightarrow> bool" where
  "IsStopped cx \<longleftrightarrow> fmlookup (ii_extensions (cx_info cx)) ''stop'' \<noteq> None"

definition Machine_SetVersion :: "int \<Rightarrow> instance_machine \<Rightarrow> instance_machine" where
  "Machine_SetVersion version = on_context (SetVersion version)"

definition Machine_SetModRevision :: "int \<Rightarrow> instance_machine \<Rightarrow> instance_machine" where
  "Machine_SetModRevision revision = on_context (SetModRevision revision)"

definition SetLocalAbnormal :: "instance_machine \<Rightarrow> instance_machine" where
  "SetLocalAbnormal m = m\<lparr>isLocalAbnormal := True\<rparr>"

definition ResetLastSaveFailedState :: "instance_machine \<Rightarrow> instance_machine" where
  "ResetLastSaveFailedState m =
     m\<lparr>lastSaveFailedState := (INVALID_LAST_SAVE_FAILED_STATE, INVALID_LAST_SAVE_FAILED_STATE)\<rparr>"

definition PublishDeleteToLocalObserver :: "string \<Rightarrow> instance_machine \<Rightarrow> instance_machine" where
  "PublishDeleteToLocalObserver instanceID m =
     (case context_opt m of
        Some cx \<Rightarrow> if has_observer m then m\<lparr>deletions := deletions m @ [(instanceID, cx_modRevision cx)]\<rparr> else m
      | None \<Rightarrow> m)"

section \<open>Transitions\<close>

definition refused :: "status_code \<Rightarrow> transition_result" where
  "refused code = \<lparr>preState = None, savedInfo = info_default, previousInfo = info_default, tr_version = 0,
     tr_status = Status code [], tr_currentModRevision = 0\<rparr>"

definition accepted :: "instance_state \<Rightarrow> instance_info \<Rightarrow> int \<Rightarrow> int \<Rightarrow> transition_result" where
  "accepted oldState prev version revision = \<lparr>preState = Some oldState, savedInfo = info_default, previousInfo = prev,
     tr_version = version, tr_status = Status_OK, tr_currentModRevision = revision\<rparr>"

definition not_saved :: "instance_info \<Rightarrow> instance_info \<Rightarrow> status \<Rightarrow> transition_result" where
  "not_saved saved prev st = \<lparr>preState = None, savedInfo = saved, previousInfo = prev, tr_version = 0, tr_status = st,
     tr_currentModRevision = 0\<rparr>"

definition VerifyTransitionState ::
  "trans_context \<Rightarrow> instance_state \<Rightarrow> instance_machine \<Rightarrow> transition_result \<times> instance_machine" where
  "VerifyTransitionState context oldState m =
     (case STATE_TRANSITION_MAP oldState of
        None \<Rightarrow> (refused ERR_STATE_MACHINE_ERROR, m)
      | Some nextStateList \<Rightarrow>
          if oldState = IS_EXITING then (refused ERR_STATE_MACHINE_ERROR, ExitInstance m)
          else if newState context \<notin> set nextStateList \<and> \<not> (tc_force context \<and> newState context = IS_FATAL)
          then (refused ERR_STATE_MACHINE_ERROR, m)
          else if newState context \<notin> set nextStateList \<and> oldState \<notin> set FORCE_FATAL_ALLOWED_SOURCES
          then ((refused SUCCESS)\<lparr>tr_status := Status_OK\<rparr>, m)
          else if isLocalAbnormal m then (refused ERR_LOCAL_SCHEDULER_ABNORMAL, m)
          else (accepted oldState info_default 0 0, m))"

text \<open>What a paused instance gives up.\<close>

definition paused_info :: "instance_info \<Rightarrow> instance_info" where
  "paused_info i = i\<lparr>ii_functionproxyid := INSTANCE_MANAGER_OWNER, ii_runtimeid := [], ii_runtimeaddress := [],
     ii_functionagentid := [], ii_containerid := [], ii_containerip := [], ii_unitid := [], ii_proxygrpcaddress := [],
     ii_extensions := fmdrop ''portForward'' (ii_extensions i)\<rparr>"

text \<open>The test for the first persistence gets the message that is filled only afterwards, as in the code. The
  result is the context with its request changed, the machine's context, and the new and previous
  messages.\<close>

definition PrepareTransitionInfo ::
  "machine_env \<Rightarrow> string \<Rightarrow> trans_context \<Rightarrow> instance_context \<Rightarrow>
     trans_context \<times> instance_context \<times> instance_info \<times> instance_info" where
  "PrepareTransitionInfo env stamp context cx =
     (let current = cx_info cx;
          errCode = (if tc_errCode context = 0 then is_errcode (ii_status current) else tc_errCode context);
          set_status = with_status (newState context) errCode (tc_exitCode context) (tc_msg context) (tc_type context);
          paused = newState context = IS_PAUSED
      in case scheduleReq context of
           Some req \<Rightarrow>
             let i = set_status (sq_instance req);
                 i = (if IsFirstPersistence env info_default (cx_state cx) (tc_version context)
                      then i\<lparr>ii_extensions := fmupd ''createTimestamp'' stamp (ii_extensions i)\<rparr> else i);
                 i = (if paused then paused_info i else i)
             in (context\<lparr>scheduleReq := Some (req\<lparr>sq_instance := i\<rparr>)\<rparr>, cx, i, current)
         | None \<Rightarrow>
             let cx = SetInstanceState (newState context) errCode (tc_exitCode context) (tc_msg context) (tc_type context) cx;
                 cx = (if paused then UpdateInfo (paused_info (cx_info cx)) cx else cx)
             in (context, cx, cx_info cx, current))"

text \<open>Versions count the writes to the store; the increment of \<^verbatim>\<open>int64_t\<close> is not taken to wrap.\<close>

definition UpdateInstanceVersion ::
  "trans_context \<Rightarrow> instance_context \<Rightarrow> trans_context \<times> instance_context \<times> instance_info" where
  "UpdateInstanceVersion context cx =
     (let version = tc_version context + 1
      in case scheduleReq context of
           Some req \<Rightarrow>
             let i = (sq_instance req)\<lparr>ii_version := version\<rparr>
             in (context\<lparr>scheduleReq := Some (req\<lparr>sq_instance := i\<rparr>)\<rparr>, cx, i)
         | None \<Rightarrow> let cx = SetVersion version cx in (context, cx, cx_info cx))"

record save_job =
  sj_new :: instance_info
  sj_prev :: instance_info
  sj_oldState :: instance_state
  sj_context :: trans_context
  sj_refresh :: bool

datatype trans_outcome = Finished transition_result | Saving save_job

text \<open>The part of a transition after the tests.\<close>

definition change_state ::
  "machine_env \<Rightarrow> string \<Rightarrow> trans_context \<Rightarrow> bool \<Rightarrow> instance_context \<Rightarrow> instance_machine \<Rightarrow> trans_outcome \<times> instance_machine" where
  "change_state env stamp context refresh cx m =
     (let oldState = cx_state cx;
          (context, cx, i, prev) = PrepareTransitionInfo env stamp context cx
      in if \<not> tc_persistence context \<or> GetPersistenceType env i (isMetaStoreEnable m) = PERSISTENT_NOT
         then
           let cx = (case scheduleReq context of Some req \<Rightarrow> cx\<lparr>scheduleRequest := req\<rparr> | None \<Rightarrow> cx);
               m = m\<lparr>context_opt := Some cx\<rparr>;
               m = (if ii_lowreliability i \<and> newState context = IS_CREATING then PublishToLocalObserver i 0 m else m)
           in (Finished (accepted oldState prev (tc_version context) 0), m)
         else
           let (context, cx, i) = UpdateInstanceVersion context cx;
               i = (if low_of env i \<or> newState context = IS_FATAL then i\<lparr>ii_args := []\<rparr> else i);
               i = i\<lparr>ii_extensions := fmupd ''updateTimestamp'' stamp (ii_extensions i)\<rparr>
           in (Saving \<lparr>sj_new = i, sj_prev = prev, sj_oldState = oldState, sj_context = context, sj_refresh = refresh\<rparr>,
               NewSavingPomise (m\<lparr>context_opt := Some cx\<rparr>)))"

definition TransitionTo ::
  "machine_env \<Rightarrow> string \<Rightarrow> trans_context \<Rightarrow> instance_machine \<Rightarrow> trans_outcome \<times> instance_machine" where
  "TransitionTo env stamp context m =
     (case context_opt m of
        None \<Rightarrow> (Finished (refused ERR_STATE_MACHINE_ERROR), m)
      | Some cx \<Rightarrow>
          let oldState = cx_state cx;
              resumeSnapshotCleanup = IsResumeSnapshotCleanup env context (cx_info cx);
              runningFailoverRefresh = IsRunningFailoverRefresh context (cx_info cx);
              networkPolicyRefresh = IsNetworkPolicyRefresh context (cx_info cx);
              special = (resumeSnapshotCleanup \<or> runningFailoverRefresh \<or> networkPolicyRefresh)
          in if allowNetworkPolicyRefresh context \<and> \<not> networkPolicyRefresh
             then (Finished ((refused ERR_STATE_MACHINE_ERROR)\<lparr>tr_version := ii_version (cx_info cx)\<rparr>), m)
             else if newState context = oldState \<and> oldState \<noteq> IS_EXITING \<and> \<not> special
             then (Finished (accepted oldState info_default (ii_version (cx_info cx)) 0), m)
             else if special then change_state env stamp context runningFailoverRefresh cx m
             else
               let (verifyResult, m) = VerifyTransitionState context oldState m
               in if preState verifyResult = None then (Finished verifyResult, m)
                  else change_state env stamp context runningFailoverRefresh cx m)"

section \<open>Saving\<close>

text \<open>What the save asks of the instance operator; \<open>InvalidInfo\<close> when the message cannot be converted.\<close>

datatype save_request =
    InvalidInfo
  | AskCreate "store_info option" "store_info option" bool bool
  | AskModify "store_info option" "store_info option" int bool

definition SaveInstanceInfoToMetaStore :: "machine_env \<Rightarrow> save_job \<Rightarrow> bool \<Rightarrow> save_request" where
  "SaveInstanceInfoToMetaStore env job metaStore =
     (let i = sj_new job; version = tc_version (sj_context job); low = low_of env i
      in case TransToStoredData env i (GetPersistenceType env i metaStore) of
           None \<Rightarrow> InvalidInfo
         | Some (record, route) \<Rightarrow>
             if IsFirstPersistence env i (sj_oldState job) version
             then AskCreate record route low (IsInitialLowReliabilityRunningPersistence env i (sj_oldState job) version)
             else AskModify record route version low)"

text \<open>The message in a refusal, empty when it cannot be read.\<close>

definition saved_of :: "machine_env \<Rightarrow> operate_result \<Rightarrow> instance_info" where
  "saved_of env res = (case info_from_json env (or_value res) of Some i \<Rightarrow> i | None \<Rightarrow> info_default)"

text \<open>The continuation of a creation. Without a result the conflict is to be resolved by a read of the route.\<close>

definition OnCreated ::
  "machine_env \<Rightarrow> bool \<Rightarrow> save_job \<Rightarrow> operate_result \<Rightarrow> instance_machine \<Rightarrow> transition_result option \<times> instance_machine" where
  "OnCreated env resolveRouteConflict job res m =
     (if IsOk (or_status res)
      then
        let m = (if tc_persistence (sj_context job) \<and> sj_oldState job \<noteq> newState (sj_context job)
                 then PublishToLocalObserver (sj_new job) (or_currentModRevision res) m else m);
            m = watch_once (ii_instanceid (sj_new job)) (or_currentModRevision res) m
        in (Some (accepted (sj_oldState job) (sj_prev job) (or_preKeyVersion res + 1) (or_currentModRevision res)), m)
      else if resolveRouteConflict \<and> StatusCode (or_status res) = INSTANCE_TRANSACTION_WRONG_VERSION then (None, m)
      else (Some (not_saved (saved_of env res) (sj_prev job) (or_status res)), m))"

definition ResolveInitialLowReliabilityCreateConflict ::
  "machine_env \<Rightarrow> save_job \<Rightarrow> status \<Rightarrow> operate_result \<Rightarrow> transition_result" where
  "ResolveInitialLowReliabilityCreateConflict env job createStatus route =
     (let i = sj_new job; conflictResult = not_saved info_default (sj_prev job) createStatus
      in if IsError (or_status route) then conflictResult
         else
           case route_from_json env (or_value route) of
             None \<Rightarrow> conflictResult
           | Some r \<Rightarrow>
               if ri_instanceid r \<noteq> ii_instanceid i \<or> ri_function r \<noteq> ii_function i \<or> ri_tenantid r \<noteq> ii_tenantid i \<or>
                 ri_issystemfunc r \<noteq> ii_issystemfunc i \<or> is_code (ri_status r) \<noteq> code_of IS_RUNNING \<or>
                 ri_requestid r = [] \<or> ri_functionproxyid r = []
               then conflictResult
               else conflictResult\<lparr>savedInfo := TransToInstanceInfoFromRouteInfo r,
                      tr_currentModRevision := or_currentModRevision route\<rparr>)"

definition OnModified ::
  "machine_env \<Rightarrow> save_job \<Rightarrow> operate_result \<Rightarrow> instance_machine \<Rightarrow> transition_result \<times> instance_machine" where
  "OnModified env job res m =
     (let context = sj_context job; i = sj_new job; revision = or_currentModRevision res
      in if IsOk (or_status res)
         then
           let m = (if tc_persistence context \<and>
                      (sj_oldState job \<noteq> newState context \<or> sj_refresh job \<or> allowNetworkPolicyRefresh context)
                    then PublishToLocalObserver i revision m else m);
               m = watch_once (ii_instanceid i) revision m
           in (accepted (sj_oldState job) (sj_prev job) (tc_version context + 1) revision, m)
         else
           let m = (if fst (lastSaveFailedState m) \<noteq> code_of IS_EXITED
                    then SetLastSaveFailedState (is_code (ii_status i)) (is_errcode (ii_status i)) m else m)
           in (not_saved (saved_of env res) (sj_prev job) (or_status res), m))"

text \<open>The continuation in \<^verbatim>\<open>PersistenceInstanceInfo\<close>.\<close>

definition OnPersisted :: "save_job \<Rightarrow> transition_result \<Rightarrow> instance_machine \<Rightarrow> instance_machine" where
  "OnPersisted job r m =
     (if \<not> IsOk (tr_status r) then TagSaved m
      else
        case (scheduleReq (sj_context job), context_opt m) of
          (Some req, Some cx) \<Rightarrow>
            TagSaved (m\<lparr>context_opt := Some (SetModRevision (tr_currentModRevision r) (cx\<lparr>scheduleRequest := req\<rparr>))\<rparr>)
        | _ \<Rightarrow> TagSaved m)"

text \<open>The save, with the operator and the store. Without a result the answer is outstanding or the process ended.\<close>

definition save_through ::
  "surroundings \<Rightarrow> machine_env \<Rightarrow> save_job \<Rightarrow> instance_machine \<Rightarrow> kv_state \<Rightarrow>
     transition_result option \<times> instance_machine \<times> kv_state" where
  "save_through e env job m s =
     (case SaveInstanceInfoToMetaStore env job (isMetaStoreEnable m) of
        InvalidInfo \<Rightarrow> (Some (not_saved info_default (sj_prev job) (Status ERR_INSTANCE_INFO_INVALID [])), m, s)
      | AskCreate record route low resolve \<Rightarrow>
          (case Op_Create e record route low s of
             (Result res, s) \<Rightarrow>
               (case OnCreated env resolve job res m of
                  (Some r, m) \<Rightarrow> (Some r, m, s)
                | (None, m) \<Rightarrow>
                    (Some (ResolveInitialLowReliabilityCreateConflict env job (or_status res)
                       (Op_GetInstance e (GenInstanceRouteKey (ii_instanceid (sj_new job))) s)), m, s))
           | (_, s) \<Rightarrow> (None, m, s))
      | AskModify record route version low \<Rightarrow>
          (case Op_Modify e record route version low s of
             (Result res, s) \<Rightarrow> (let (r, m) = OnModified env job res m in (Some r, m, s))
           | (_, s) \<Rightarrow> (None, m, s)))"

definition run_transition ::
  "surroundings \<Rightarrow> machine_env \<Rightarrow> string \<Rightarrow> trans_context \<Rightarrow> instance_machine \<Rightarrow> kv_state \<Rightarrow>
     transition_result option \<times> instance_machine \<times> kv_state" where
  "run_transition e env stamp context m s =
     (case TransitionTo env stamp context m of
        (Finished r, m) \<Rightarrow> (Some r, m, s)
      | (Saving job, m) \<Rightarrow>
          (case save_through e env job m s of
             (Some r, m, s) \<Rightarrow> (Some r, OnPersisted job r m, s)
           | (None, m, s) \<Rightarrow> (None, m, s)))"

section \<open>Deletion and exit\<close>

definition debug_info :: "instance_info \<Rightarrow> store_info option" where
  "debug_info i =
     (if IsDebugInstance (ii_createoptions i) then Some \<lparr>si_key = ''/yr/debug/'' @ ii_instanceid i, si_value = []\<rparr> else None)"

text \<open>The common end of the two deletions. The key in the message is left out.\<close>

definition deletion_failed :: "operate_result \<Rightarrow> instance_machine \<Rightarrow> status \<times> instance_machine" where
  "deletion_failed res m =
     (Status BP_META_STORAGE_DELETE_ERROR ''failed to delete key: '',
      if TransactionFailedForEtcd (StatusCode (or_status res))
      then SetLastSaveFailedState (code_of IS_EXITED) INVALID_LAST_SAVE_FAILED_STATE m else m)"

definition DelInstance ::
  "surroundings \<Rightarrow> machine_env \<Rightarrow> string \<Rightarrow> instance_machine \<Rightarrow> kv_state \<Rightarrow> status option \<times> instance_machine \<times> kv_state" where
  "DelInstance e env instanceID m s =
     (case context_opt m of
        None \<Rightarrow> (Some (Status FAILED ''failed to delete instance, not found context.''), m, s)
      | Some cx \<Rightarrow>
          let i = cx_info cx; m = ExecuteStateChangeCallback IS_EXITED m
          in if ii_functionproxyid i \<noteq> owner m then (Some (Status FAILED []), m, s)
             else
               case TransToStoredKeys i (GetPersistenceType env i (isMetaStoreEnable m)) of
                 None \<Rightarrow> (Some (Status FAILED []), m, s)
               | Some (record, route) \<Rightarrow>
                   (case Op_Delete e record route (debug_info i) (ii_version i) (low_of env i) s of
                      (Result res, s) \<Rightarrow>
                        if IsOk (or_status res)
                        then (Some Status_OK,
                              if has_controlPlane m then m\<lparr>cancelled := cancelled m @ [instanceID]\<rparr> else m, s)
                        else (let (st, m) = deletion_failed res m in (Some st, m, s))
                    | (_, s) \<Rightarrow> (None, m, s)))"

definition ForceDelInstance ::
  "surroundings \<Rightarrow> machine_env \<Rightarrow> instance_context \<Rightarrow> instance_machine \<Rightarrow> kv_state \<Rightarrow>
     status option \<times> instance_machine \<times> kv_state" where
  "ForceDelInstance e env cx m s =
     (let i = cx_info cx
      in case TransToStoredKeys i PERSISTENT_ALL of
           None \<Rightarrow> (Some (Status FAILED []), m, s)
         | Some (record, route) \<Rightarrow>
             (case Op_ForceDelete e record route (debug_info i) (low_of env i) s of
                (Result res, s) \<Rightarrow>
                  if IsOk (or_status res) then (Some Status_OK, m, s)
                  else (let (st, m) = deletion_failed res m in (Some st, m, s))
              | (_, s) \<Rightarrow> (None, m, s)))"

text \<open>The answer of a read of the instance; an error is the code of the failed future.\<close>

definition SyncInstanceFromMetaStore ::
  "surroundings \<Rightarrow> machine_env \<Rightarrow> instance_context \<Rightarrow> kv_state \<Rightarrow> status_code + instance_info" where
  "SyncInstanceFromMetaStore e env cx s =
     (let i = cx_info cx
      in case GenInstanceKey (ii_function i) (ii_instanceid i) (ii_requestid i) of
           None \<Rightarrow> Inl PARAMETER_ERROR
         | Some key \<Rightarrow>
             let res = Op_GetInstance e key s
             in if IsError (or_status res) then Inl ERR_ETCD_OPERATION_ERROR
                else case info_from_json env (or_value res) of None \<Rightarrow> Inl ERR_ETCD_OPERATION_ERROR | Some i \<Rightarrow> Inr i)"

text \<open>The continuation of the exit. The first component is the status returned, the second the value of
  the promise of the caller; a synchronous caller waits for the exit handler to complete.\<close>

definition OnExiting ::
  "bool \<Rightarrow> int \<Rightarrow> instance_info \<Rightarrow> transition_result \<Rightarrow> instance_machine \<Rightarrow> status_code \<times> status_code option \<times> instance_machine" where
  "OnExiting isSynchronized attempts i r m =
     (if tr_version r = 0 \<and> attempts \<le> MAX_EXIT_TIMES
      then (ERR_ETCD_OPERATION_ERROR, Some ERR_ETCD_OPERATION_ERROR, m\<lparr>exit_failed := exit_failed m @ [r]\<rparr>)
      else if has_exitHandler m
      then (SUCCESS, if isSynchronized then None else Some SUCCESS, m\<lparr>exit_calls := exit_calls m @ [i]\<rparr>)
      else (ERR_STATE_MACHINE_ERROR, Some ERR_STATE_MACHINE_ERROR, m))"

definition exiting_context :: "instance_context \<Rightarrow> instance_info \<Rightarrow> trans_context" where
  "exiting_context killed i = \<lparr>newState = IS_EXITING, tc_version = ii_version i, tc_msg = ''exiting'', tc_persistence = True,
     tc_errCode = 0, tc_exitCode = 0, tc_type = 0, scheduleReq = Some (scheduleRequest killed),
     allowRunningRuntimeRefresh = False, allowNetworkPolicyRefresh = False, tc_force = False\<rparr>"

definition TryExitInstance ::
  "surroundings \<Rightarrow> machine_env \<Rightarrow> string \<Rightarrow> instance_context \<Rightarrow> bool \<Rightarrow> instance_machine \<Rightarrow> kv_state \<Rightarrow>
     (status_code \<times> status_code option) option \<times> instance_machine \<times> kv_state" where
  "TryExitInstance e env stamp killed isSynchronized m s =
     (case context_opt m of
        None \<Rightarrow> (Some (ERR_INSTANCE_NOT_FOUND, None), m, s)
      | Some cx \<Rightarrow>
          if cx_state killed \<noteq> cx_state cx then (Some (ERR_INSTANCE_INFO_INVALID, Some ERR_INSTANCE_INFO_INVALID), m, s)
          else if cx_state cx = IS_EXITING
          then (Some (ERR_INSTANCE_INFO_INVALID, Some (if isSynchronized then FAILED else SUCCESS)), ExitInstance m, s)
          else
            let m = m\<lparr>exitTimes := exitTimes m + 1\<rparr>; attempts = exitTimes m;
                context = exiting_context killed (cx_info cx);
                i = (case context_opt (snd (TransitionTo env stamp context m)) of Some cx \<Rightarrow> cx_info cx | None \<Rightarrow> info_default)
            in case run_transition e env stamp context m s of
                 (Some r, m, s) \<Rightarrow> (let (st, pr, m) = OnExiting isSynchronized attempts i r m in (Some (st, pr), m, s))
               | (None, m, s) \<Rightarrow> (None, m, s))"

end
