(* ===== verification/Instance_Life.thy ===== *)
theory Instance_Life
  imports Instance_State
begin

text \<open>
  The life of an instance: which states the machine of \<open>Instance_State\<close> can be in and which changes it makes,
  when transitions, the answers of the store and the other operations of the machine come in any order.
\<close>

section \<open>States of the machine\<close>

definition live :: "instance_state \<Rightarrow> bool" where
  "live st \<longleftrightarrow> STATE_TRANSITION_MAP st \<noteq> None"

text \<open>The changes a transition may make. The entry of the table for \<open>IS_EXITING\<close> is never used, because
  an exiting instance is sent to the exit handler before the table is read.\<close>

definition permitted :: "instance_state \<Rightarrow> instance_state \<Rightarrow> bool" where
  "permitted old new \<longleftrightarrow> new = old \<or>
     old \<noteq> IS_EXITING \<and> (case STATE_TRANSITION_MAP old of Some ns \<Rightarrow> new \<in> set ns | None \<Rightarrow> False) \<or>
     new = IS_FATAL \<and> old = IS_NEW \<or>
     new = IS_RUNNING \<and> old = IS_EVICTED"

lemma permitted_refl [simp]: "permitted st st"
  by (simp add: permitted_def)

lemma permitted_live: "permitted old new \<Longrightarrow> live old \<Longrightarrow> live new"
  by (cases old) (auto simp: permitted_def live_def)

lemma live_proper: "live st \<Longrightarrow> state_of (code_of st) = st"
  by (rule state_of_code_of) (cases st; simp add: live_def all_states_def)

lemma cx_sels [simp]:
  "cx_info (UpdateInfo i cx) = i" "cx_info (cx\<lparr>scheduleRequest := req\<rparr>) = sq_instance req"
  "cx_info (cx\<lparr>cx_modRevision := n\<rparr>) = cx_info cx"
  by (simp_all add: cx_info_def UpdateInfo_def)

lemma status_sels [simp]:
  "ii_status (with_status st e x msg t i) = \<lparr>is_code = code_of st, is_exitcode = x, is_msg = msg, is_type = t, is_errcode = e\<rparr>"
  "ii_status (paused_info i) = ii_status i"
  by (simp_all add: with_status_def paused_info_def)

lemma SetVersion_status [simp]: "ii_status (cx_info (SetVersion v cx)) = ii_status (cx_info cx)"
  by (simp add: SetVersion_def)

lemma SetModRevision_info [simp]: "cx_info (SetModRevision n cx) = cx_info cx"
  by (simp add: SetModRevision_def)

lemma machine_sels [simp]:
  "context_opt (PublishToLocalObserver i n m) = context_opt m" "context_opt (NewSavingPomise m) = context_opt m"
  "context_opt (TagSaved m) = context_opt m" "context_opt (ExitInstance m) = context_opt m"
  "context_opt (watch_once j n m) = context_opt m" "context_opt (SetLastSaveFailedState a b m) = context_opt m"
  by (simp_all add: PublishToLocalObserver_def NewSavingPomise_def TagSaved_def ExitInstance_def watch_once_def
      SetLastSaveFailedState_def split: option.splits)

section \<open>Effect of a transition on the state\<close>

text \<open>A save that is under way carries a request in the new state.\<close>

definition job_in :: "instance_state \<Rightarrow> save_job \<Rightarrow> bool" where
  "job_in st job \<longleftrightarrow> (\<forall>req. scheduleReq (sj_context job) = Some req \<longrightarrow> info_state (sq_instance req) = st)"

lemma prepared_state:
  assumes "PrepareTransitionInfo env stamp context cx = (context', cx', i, prev)" "state_of (code_of (newState context)) = newState context"
  shows "info_state i = newState context" "newState context' = newState context" "prev = cx_info cx"
    "scheduleReq context = Some req \<Longrightarrow> cx' = cx \<and> (\<exists>req'. scheduleReq context' = Some req' \<and> sq_instance req' = i)"
    "scheduleReq context = None \<Longrightarrow> scheduleReq context' = None \<and> i = cx_info cx'"
  using assms by (auto simp: PrepareTransitionInfo_def Let_def info_state_def SetInstanceState_def split: option.splits)

lemma change_state_effect:
  assumes "change_state env stamp context b cx m = (out, m')" "state_of (code_of (newState context)) = newState context"
  shows "\<exists>cx'. context_opt m' = Some cx' \<and> (cx' = cx \<or> cx_state cx' = newState context)"
    and "out = Saving job \<Longrightarrow> job_in (newState context) job"
proof -
  obtain context1 cx1 i prev where p: "PrepareTransitionInfo env stamp context cx = (context1, cx1, i, prev)"
    by (metis prod_cases4)
  note st = prepared_state [OF p assms(2)]
  have "cx_state cx1 = newState context" if "scheduleReq context = None"
    using st(1) st(5) [OF that] by (simp add: cx_state_def info_state_def)
  moreover have "cx_state (SetVersion v cx1) = cx_state cx1" for v by (simp add: cx_state_def)
  ultimately show "\<exists>cx'. context_opt m' = Some cx' \<and> (cx' = cx \<or> cx_state cx' = newState context)"
    using assms(1) p st(1,4,5)
    by (cases "scheduleReq context")
      (auto simp: change_state_def UpdateInstanceVersion_def Let_def cx_state_def info_state_def split: if_splits)
  show "job_in (newState context) job" if "out = Saving job"
    using that assms(1) p st(1,4,5)
    by (cases "scheduleReq context")
      (auto simp: change_state_def UpdateInstanceVersion_def Let_def job_in_def info_state_def split: if_splits)
qed

lemma verify_accepts:
  assumes "VerifyTransitionState context old m = (r, m')"
  shows "context_opt m' = context_opt m" "preState r \<noteq> None \<Longrightarrow> permitted old (newState context) \<and> live (newState context) \<and> old \<noteq> IS_EXITING"
proof -
  show "context_opt m' = context_opt m"
    using assms by (auto simp: VerifyTransitionState_def split: option.splits if_splits)
  assume r: "preState r \<noteq> None"
  then have "live old" "old \<noteq> IS_EXITING" "permitted old (newState context)"
    using assms by (auto simp: VerifyTransitionState_def permitted_def live_def refused_def FORCE_FATAL_ALLOWED_SOURCES_def
        split: option.splits if_splits)
  then show "permitted old (newState context) \<and> live (newState context) \<and> old \<noteq> IS_EXITING" using permitted_live by blast
qed

text \<open>The three refreshes do not go through the table.\<close>

lemma refresh_permitted:
  assumes "IsResumeSnapshotCleanup env context (cx_info cx) \<or> IsRunningFailoverRefresh context (cx_info cx) \<or>
    IsNetworkPolicyRefresh context (cx_info cx)"
  shows "permitted (cx_state cx) (newState context)" "state_of (code_of (newState context)) = newState context"
proof -
  have run: "state_of (code_of IS_RUNNING) = IS_RUNNING" by (rule live_proper) (simp add: live_def)
  have "newState context = cx_state cx \<or> newState context = IS_RUNNING \<and> cx_state cx = IS_EVICTED"
    using assms run unfolding IsResumeSnapshotCleanup_def IsRunningFailoverRefresh_def IsNetworkPolicyRefresh_def cx_state_def Let_def
    by (fastforce split: option.splits prod.splits)
  moreover have "state_of (code_of (cx_state cx)) = cx_state cx" by (simp add: cx_state_def code_of_state_of)
  ultimately show "permitted (cx_state cx) (newState context)" "state_of (code_of (newState context)) = newState context"
    using run by (auto simp: permitted_def)
qed

definition moves :: "instance_machine \<Rightarrow> instance_machine \<Rightarrow> bool" where
  "moves m m' \<longleftrightarrow> (case context_opt m of
      None \<Rightarrow> context_opt m' = None
    | Some cx \<Rightarrow> \<exists>cx'. context_opt m' = Some cx' \<and> permitted (cx_state cx) (cx_state cx'))"

lemma moves_same: "context_opt m' = context_opt m \<Longrightarrow> moves m m'"
  by (auto simp: moves_def permitted_def split: option.splits)

lemma change_state_moves:
  assumes "change_state env stamp context b cx n = (out, m')" "context_opt m = Some cx"
    "permitted (cx_state cx) (newState context)" "state_of (code_of (newState context)) = newState context"
  shows "moves m m'"
  using change_state_effect(1) [OF assms(1,4)] assms(2,3) by (auto simp: moves_def)

lemma TransitionTo_moves:
  assumes "TransitionTo env stamp context m = (out, m')"
  shows "moves m m' \<and> (\<forall>job. out = Saving job \<longrightarrow> (\<exists>cx st. context_opt m = Some cx \<and> permitted (cx_state cx) st \<and> job_in st job))"
proof (cases "context_opt m")
  case None
  then show ?thesis using assms by (auto simp: TransitionTo_def moves_def)
next
  case (Some cx)
  let ?special = "IsResumeSnapshotCleanup env context (cx_info cx) \<or> IsRunningFailoverRefresh context (cx_info cx) \<or>
    IsNetworkPolicyRefresh context (cx_info cx)"
  obtain r n where v: "VerifyTransitionState context (cx_state cx) m = (r, n)" by fastforce
  consider "context_opt m' = context_opt m" "\<nexists>job. out = Saving job"
    | b n where "change_state env stamp context b cx n = (out, m')" "?special \<or> preState r \<noteq> None"
    using assms Some v verify_accepts(1) [OF v] by (auto simp: TransitionTo_def Let_def split: if_splits)
  then show ?thesis
  proof cases
    case 1
    then show ?thesis using moves_same by blast
  next
    case 2
    then have "permitted (cx_state cx) (newState context) \<and> state_of (code_of (newState context)) = newState context"
      using refresh_permitted verify_accepts(2) [OF v] live_proper by blast
    then show ?thesis using change_state_moves [OF 2(1) Some] change_state_effect(2) [OF 2(1)] Some by blast
  qed
qed

section \<open>All lives\<close>

text \<open>The setters of single fields of the instance.\<close>

datatype setter =
    Owner string | Released | Runtime string | StartTime string | Address string | Checkpointed bool
  | Stop | Version int | Revision int

fun set_field :: "setter \<Rightarrow> instance_machine \<Rightarrow> instance_machine" where
  "set_field (Owner x) = UpdateOwner x"
| "set_field Released = ReleaseOwner"
| "set_field (Runtime x) = SetRuntimeID x"
| "set_field (StartTime x) = SetStartTime x"
| "set_field (Address x) = SetRuntimeAddress x"
| "set_field (Checkpointed b) = SetCheckpointed b"
| "set_field Stop = TagStop"
| "set_field (Version n) = Machine_SetVersion n"
| "set_field (Revision n) = Machine_SetModRevision n"

lemma set_field_state: "map_option cx_state (context_opt (set_field x m)) = map_option cx_state (context_opt m)"
  by (cases x; cases "context_opt m")
    (simp_all add: UpdateOwner_def ReleaseOwner_def SetRuntimeID_def SetStartTime_def SetRuntimeAddress_def SetCheckpointed_def
      TagStop_def Machine_SetVersion_def Machine_SetModRevision_def on_info_def on_context_def cx_state_def)

text \<open>The machine and the saves under way. Transitions may start while saves are under way, saves are
  answered in any order and with any answer, and the environment may change its switches. An update
  from outside brings a message in a state of the table.\<close>

inductive life :: "instance_machine \<Rightarrow> instance_machine \<Rightarrow> save_job list \<Rightarrow> bool" for m0 :: instance_machine where
  life_start: "life m0 m0 []"
| life_finished: "life m0 m jobs \<Longrightarrow> TransitionTo env stamp context m = (Finished r, m') \<Longrightarrow> life m0 m' jobs"
| life_saving: "life m0 m jobs \<Longrightarrow> TransitionTo env stamp context m = (Saving job, m') \<Longrightarrow> life m0 m' (job # jobs)"
| life_invalid: "life m0 m jobs \<Longrightarrow> job \<in> set jobs \<Longrightarrow>
    life m0 (OnPersisted job (not_saved info_default (sj_prev job) (Status ERR_INSTANCE_INFO_INVALID [])) m) (remove1 job jobs)"
| life_created: "life m0 m jobs \<Longrightarrow> job \<in> set jobs \<Longrightarrow> OnCreated env b job res m = (Some r, m') \<Longrightarrow>
    life m0 (OnPersisted job r m') (remove1 job jobs)"
| life_conflict: "life m0 m jobs \<Longrightarrow> job \<in> set jobs \<Longrightarrow>
    life m0 (OnPersisted job (ResolveInitialLowReliabilityCreateConflict env job st route) m) (remove1 job jobs)"
| life_modified: "life m0 m jobs \<Longrightarrow> job \<in> set jobs \<Longrightarrow> OnModified env job res m = (r, m') \<Longrightarrow>
    life m0 (OnPersisted job r m') (remove1 job jobs)"
| life_callback: "life m0 m jobs \<Longrightarrow> life m0 (AddStateChangeCallback uuid sts key m) jobs"
| life_uncallback: "life m0 m jobs \<Longrightarrow> life m0 (DeleteStateChangeCallback key m) jobs"
| life_update: "life m0 m jobs \<Longrightarrow> live (info_state i) \<Longrightarrow> life m0 (UpdateInstanceInfo i m) jobs"
| life_setter: "life m0 m jobs \<Longrightarrow> life m0 (set_field x m) jobs"
| life_deletion: "life m0 m jobs \<Longrightarrow> life m0 (PublishDeleteToLocalObserver key m) jobs"
| life_forget: "life m0 m jobs \<Longrightarrow> life m0 (ResetLastSaveFailedState m) jobs"
| life_abnormal: "life m0 m jobs \<Longrightarrow> life m0 (SetLocalAbnormal m) jobs"
| life_attempt: "life m0 m jobs \<Longrightarrow> life m0 (m\<lparr>exitTimes := exitTimes m + 1\<rparr>) jobs"
| life_exiting: "life m0 m jobs \<Longrightarrow> OnExiting sync attempts i r m = (st, pr, m') \<Longrightarrow> life m0 m' jobs"

definition typed :: "instance_machine \<Rightarrow> bool" where
  "typed m \<longleftrightarrow> (\<forall>cx. context_opt m = Some cx \<longrightarrow> live (cx_state cx))"

definition jobs_typed :: "save_job list \<Rightarrow> bool" where
  "jobs_typed jobs \<longleftrightarrow> (\<forall>job \<in> set jobs. \<exists>st. live st \<and> job_in st job)"

lemma typed_same: "context_opt m' = context_opt m \<Longrightarrow> typed m \<Longrightarrow> typed m'"
  by (simp add: typed_def)

lemma typed_moves: "moves m m' \<Longrightarrow> typed m \<Longrightarrow> typed m'"
  using permitted_live by (auto simp: typed_def moves_def split: option.splits)

lemma typed_persisted:
  assumes "typed m" "jobs_typed jobs" "job \<in> set jobs"
  shows "typed (OnPersisted job r m)"
proof -
  obtain st where "live st" "job_in st job" using assms(2,3) by (auto simp: jobs_typed_def)
  then show ?thesis
    using assms(1) by (auto simp: OnPersisted_def typed_def job_in_def cx_state_def info_state_def split: option.splits)
qed

lemma jobs_typed_remove: "jobs_typed jobs \<Longrightarrow> jobs_typed (remove1 job jobs)"
  by (auto simp: jobs_typed_def dest: notin_set_remove1)

lemma answers_keep_context:
  "OnCreated env b job res m = (x, m') \<Longrightarrow> context_opt m' = context_opt m"
  "OnModified env job res m = (y, m') \<Longrightarrow> context_opt m' = context_opt m"
  "OnExiting sync attempts i r m = (st, pr, m') \<Longrightarrow> context_opt m' = context_opt m"
  "context_opt (AddStateChangeCallback uuid sts key m) = context_opt m"
  "context_opt (DeleteStateChangeCallback key m) = context_opt m"
  "context_opt (ExecuteStateChangeCallback st' m) = context_opt m"
  by (auto simp: OnCreated_def OnModified_def OnExiting_def AddStateChangeCallback_def DeleteStateChangeCallback_def
      ExecuteStateChangeCallback_def Let_def split: if_splits option.splits)

lemma jobs_typed_simps [simp]:
  "jobs_typed []" "jobs_typed (job # jobs) \<longleftrightarrow> (\<exists>st. live st \<and> job_in st job) \<and> jobs_typed jobs"
  by (simp_all add: jobs_typed_def)

lemma typed_saving:
  assumes "TransitionTo env stamp context m = (Saving job, m')" "typed m"
  shows "typed m'" "\<exists>st. live st \<and> job_in st job"
proof -
  obtain cx st where s: "moves m m'" "context_opt m = Some cx" "permitted (cx_state cx) st" "job_in st job"
    using TransitionTo_moves [OF assms(1)] by blast
  show "typed m'" by (rule typed_moves [OF s(1) assms(2)])
  have "live (cx_state cx)" using s(2) assms(2) by (simp add: typed_def)
  then show "\<exists>st. live st \<and> job_in st job" using permitted_live [OF s(3)] s(4) by blast
qed

lemma typed_set_field: "typed m \<Longrightarrow> typed (set_field x m)"
  using set_field_state [of x m] by (cases "context_opt m") (auto simp: typed_def)

lemma typed_update: "typed m \<Longrightarrow> live (info_state i) \<Longrightarrow> typed (UpdateInstanceInfo i m)"
  by (auto simp: UpdateInstanceInfo_def typed_def answers_keep_context cx_state_def info_state_def split: option.splits)

lemma life_typed:
  assumes "life m0 m jobs" "typed m0"
  shows "typed m \<and> jobs_typed jobs"
  using assms(1)
proof (induction rule: life.induct)
  case life_start
  show ?case using assms(2) by simp
next
  case (life_finished m jobs env stamp tc r m')
  then show ?case using TransitionTo_moves typed_moves by blast
next
  case (life_saving m jobs env stamp tc job m')
  then show ?case using typed_saving by simp
next
  case (life_invalid m jobs job)
  then show ?case using typed_persisted jobs_typed_remove by blast
next
  case (life_created m jobs job env b res r m')
  then have "typed m'" using typed_same [OF answers_keep_context(1)] by blast
  then show ?case using life_created typed_persisted jobs_typed_remove by blast
next
  case (life_conflict m jobs job env st route)
  then show ?case using typed_persisted jobs_typed_remove by blast
next
  case (life_modified m jobs job env res r m')
  then have "typed m'" using typed_same [OF answers_keep_context(2)] by blast
  then show ?case using life_modified typed_persisted jobs_typed_remove by blast
next
  case (life_exiting m jobs sync attempts i r st pr m')
  then show ?case using typed_same [OF answers_keep_context(3)] by blast
next
  case (life_update m jobs i)
  then show ?case using typed_update by blast
next
  case (life_setter m jobs x)
  then show ?case using typed_set_field by blast
qed (auto simp: typed_def answers_keep_context SetLocalAbnormal_def ResetLastSaveFailedState_def PublishDeleteToLocalObserver_def
    split: option.splits)


section \<open>An example\<close>

definition demo_env :: machine_env where
  "demo_env = \<lparr>directRouting = True, forceLowReliability = False, sha256Hex = id, info_to_json = (\<lambda>i. Some (ii_instanceid i)),
     info_from_json = (\<lambda>s. None), route_to_json = (\<lambda>r. Some (ri_instanceid r)), route_from_json = (\<lambda>s. None)\<rparr>"

definition demo_info :: instance_info where
  "demo_info = info_default\<lparr>ii_instanceid := ''i'', ii_requestid := ''r'', ii_function := ''t/f/v''\<rparr>"

definition demo_machine :: instance_machine where
  "demo_machine = InstanceStateMachine ''node''
     (Some \<lparr>scheduleRequest = \<lparr>sq_requestid = ''r'', sq_instance = demo_info\<rparr>, cx_modRevision = 0\<rparr>) True True True False"

definition to_state :: "instance_state \<Rightarrow> int \<Rightarrow> sched_request option \<Rightarrow> trans_context" where
  "to_state st version req = \<lparr>newState = st, tc_version = version, tc_msg = [], tc_persistence = True, tc_errCode = 0, tc_exitCode = 0,
     tc_type = 0, scheduleReq = req, allowRunningRuntimeRefresh = False, allowNetworkPolicyRefresh = False, tc_force = False\<rparr>"

lemmas transition_defs = TransitionTo_def VerifyTransitionState_def change_state_def PrepareTransitionInfo_def
  UpdateInstanceVersion_def IsResumeSnapshotCleanup_def IsRunningFailoverRefresh_def IsNetworkPolicyRefresh_def
  GetPersistenceType_def NeedUpdateRouteState_def IsFirstPersistence_def SetInstanceState_def

lemmas demo_defs = demo_env_def demo_info_def demo_machine_def to_state_def InstanceStateMachine_def info_default_def
  status_default_def cx_state_def cx_info_def UpdateInfo_def with_status_def info_state_def low_of_def IsLowReliabilityInstance_def
  state_of_def all_states_def

lemma demo_life:
  "\<exists>m cx. life demo_machine m [] \<and> context_opt m = Some cx \<and> cx_state cx = IS_SCHEDULING"
proof -
  let ?t = "TransitionTo demo_env ''0'' (to_state IS_SCHEDULING 0 None) demo_machine"
  have t: "\<exists>r cx. fst ?t = Finished r \<and> context_opt (snd ?t) = Some cx \<and> cx_state cx = IS_SCHEDULING"
    by (simp add: transition_defs demo_defs Let_def accepted_def)
  then obtain r where "?t = (Finished r, snd ?t)" by (metis prod.collapse)
  then have "life demo_machine (snd ?t) []" by (rule life_finished [OF life_start])
  then show ?thesis using t by blast
qed


section \<open>The forced end of an instance that is being evicted\<close>

text \<open>A comment excludes an instance that is being evicted from the forced change to \<open>FATAL\<close>, but the
  table lists that change, so it is made, with force and without.\<close>

theorem force_fatal_evicting:
  "VerifyTransitionState (context\<lparr>newState := IS_FATAL, tc_force := b\<rparr>) IS_EVICTING (m\<lparr>isLocalAbnormal := False\<rparr>) =
     (accepted IS_EVICTING info_default 0 0, m\<lparr>isLocalAbnormal := False\<rparr>)"
  by (simp add: VerifyTransitionState_def)

text \<open>The test for the first persistence looks at a message that is still empty when the time of creation
  is stamped. Outside direct routing the first write of a member of a group, from \<open>SCHEDULING\<close>, is a
  creation without a new stamp.\<close>

theorem first_write_not_stamped:
  assumes "\<not> directRouting env" "cx_state cx = IS_SCHEDULING" "ii_groupid (sq_instance req) \<noteq> []"
    "scheduleReq tc = Some req" "tc_version tc = 0" "newState tc = IS_CREATING"
    "PrepareTransitionInfo env stamp tc cx = (tc', cx', i, prev)"
  shows "IsFirstPersistence env i (cx_state cx) (tc_version tc) \<and> ii_extensions i = ii_extensions (sq_instance req)"
  using assms by (auto simp: PrepareTransitionInfo_def IsFirstPersistence_def IsInitialLowReliabilityRunningPersistence_def Let_def
      info_default_def status_default_def with_status_def)

end
