(* ===== verification/Instance_Store.thy ===== *)
theory Instance_Store
  imports Instance_Operator Kv_Reads
begin

text \<open>
  Correctness of the instance operator on the meta store: what its transactions do to the records, what
  they answer, and what happens when a transaction is sent twice because its first answer was lost.
\<close>

section \<open>One transaction\<close>

lemma fold_mono_nat:
  fixes g :: "'s \<Rightarrow> nat"
  assumes "\<And>x s. g s \<le> g (f x s)"
  shows "g s \<le> g (fold f xs s)"
  by (induction xs arbitrary: s) (auto intro: order_trans assms)

abbreviation sent :: "kv_state \<Rightarrow> nat" where
  "sent s \<equiv> length (outbox s)"

lemma sent_TryPutCache: "sent s \<le> sent (snd (snd (TryPutCache req s)))"
  by (simp add: TryPutCache_def Let_def)

lemma sent_TxnCommon: "sent (snd (snd acc)) \<le> sent (snd (snd (TxnCommon moved opr acc)))"
proof -
  obtain puts dels resps s where "acc = ((puts, dels), resps, s)" by (metis surj_pair)
  then show ?thesis
    by (cases opr) (auto simp: TryPut_def Let_def split_beta intro: order_trans [OF sent_TryPutCache])
qed

lemma sent_TryTxn: "sent s \<le> sent (snd (snd (TryTxn moved req s)))"
  using fold_mono_nat [of "\<lambda>acc. sent (snd (snd acc))" "TxnCommon moved" "(([], []), [], s)"] sent_TxnCommon
  by (simp add: TryTxn_branch txn_branch_def)

lemma sent_OnTryTxn: "sent s \<le> sent (snd (OnTryTxn txn Status_OK s))"
proof -
  have p: "sent s \<le> sent (snd (OnTryPutCache k Status_OK s))" for k s
    by (simp add: OnTryPutCache_def IsError_def split: option.splits)
  have d: "sent s \<le> sent (snd (OnTryDeleteRange ds Status_OK s))" for ds s
    by (simp add: OnTryDeleteRange_def IsError_def)
  show ?thesis
    unfolding OnTryTxn_def Let_def
    by (auto intro: order_trans [OF fold_mono_nat [of sent, OF p] fold_mono_nat [of sent, OF d]])
qed

text \<open>The surroundings and the store let a transaction through at once: the client is not told that the
  service is unhealthy, no write is in progress, and no backup has to be awaited.\<close>

definition open_for :: "surroundings \<Rightarrow> bool \<Rightarrow> kv_state \<Rightarrow> bool" where
  "open_for e low s \<longleftrightarrow> \<not> fallbreak (healthyStatus (su_client e)) \<and> kv_inv s \<and> ongoing s = fmempty \<and>
     (\<not> backupActor_ok s \<or> low)"

definition request :: "surroundings \<Rightarrow> txn_transaction \<Rightarrow> txn_request" where
  "request e t = BuildTxnRequest (etcdTablePrefix (su_client e)) t"

lemma OnTryTxn_backup: "backupActor_ok (snd (OnTryTxn txn Status_OK s)) = backupActor_ok s"
proof -
  have p: "backupActor_ok (snd (OnTryPutCache k Status_OK s)) = backupActor_ok s" for k s
    by (simp add: OnTryPutCache_def IsError_def split: option.splits)
  have d: "backupActor_ok (snd (OnTryDeleteRange ds Status_OK s)) = backupActor_ok s" for ds s
    by (simp add: OnTryDeleteRange_def IsError_def)
  have ps: "backupActor_ok (fold (\<lambda>x s. snd (OnTryPutCache (kv_key (fst x)) Status_OK s)) xs s) = backupActor_ok s"
    for xs s by (induction xs arbitrary: s) (simp_all add: p)
  have ds: "backupActor_ok (fold (\<lambda>x s. snd (OnTryDeleteRange x Status_OK s)) xs s) = backupActor_ok s"
    for xs s by (induction xs arbitrary: s) (simp_all add: d)
  show ?thesis by (simp add: OnTryTxn_def IsError_def Let_def ps ds)
qed

lemma TryTxn_answer:
  "fst (snd (TryTxn moved req s)) =
     \<lparr>ts_cluster_id = META_STORE_CLUSTER_ID, ts_revision = modRevision s,
      ts_succeeded = list_all (spec_holds (abs_store s)) (tr_compare req),
      ts_responses = fst (snd (txn_branch moved (branch req s) s))\<rparr>"
  by (simp add: TryTxn_def TxnThen_def TxnElse_def spec_branch_def TxnIf_spec Let_def split_beta)

lemma AsyncTxn_answer:
  assumes "kv_inv s" "rq_payload req = Some x" "independent (branch x s)" "ongoing s = fmempty"
    "\<not> backupActor_ok s \<or> rq_asyncbackup req"
  obtains u where "snd (AsyncTxn_Master moved cl req s) = emit (SendOnTxn cl \<lparr>ms_responseid = rq_requestid req,
      ms_status = SUCCESS, ms_errormsg = [], ms_payload = fst (snd (TryTxn moved x s))\<rparr>) u"
    "sent s \<le> sent u" "backupActor_ok u = backupActor_ok s"
proof -
  note rel = TryTxn_rel [OF assms(1,3) refl refl, where moved = moved]
  let ?t = "snd (snd (TryTxn moved x s))" and ?txn = "fst (TryTxn moved x s)"
  let ?v = "InsertTxnOngoing ?txn ?t"
  let ?w = "if backupActor_ok ?v then emit (BackupWriteTxn ?txn (rq_asyncbackup req)) ?v else ?v"
  let ?u = "snd (OnTryTxn ?txn Status_OK ?w)"
  have valid: "CheckTxnOngoingValid ?txn ?t" using rel(2) assms(4) by (simp add: CheckTxnOngoingValid_free)
  have "snd (AsyncTxn_Master moved cl req s) = emit (SendOnTxn cl \<lparr>ms_responseid = rq_requestid req,
      ms_status = SUCCESS, ms_errormsg = [], ms_payload = fst (snd (TryTxn moved x s))\<rparr>) ?u"
    using assms(2,5) valid rel(3)
    by (auto simp: AsyncTxn_Master_def OnAsyncTxn_def IsError_def Let_def split_beta)
  moreover have "sent s \<le> sent ?w" using sent_TryTxn [of s moved x] by simp
  then have "sent s \<le> sent ?u" using sent_OnTryTxn order_trans by blast
  moreover have "backupActor_ok ?u = backupActor_ok s" using rel(3) by (simp add: OnTryTxn_backup)
  ultimately show thesis using that by blast
qed

lemma commit_open:
  assumes "open_for e low s" "independent (branch (request e t) s)"
    "low \<Longrightarrow> list_all GetAsyncBackupOption (thenOps t) \<and> list_all GetAsyncBackupOption (elseOps t)"
  shows "fst (commit (su_moved e) (su_client e) t s) =
      Some \<lparr>tx_status = Status_OK, tx_header = \<lparr>hd_clusterId = META_STORE_CLUSTER_ID, hd_revision = modRevision s\<rparr>,
        tx_success = list_all (spec_holds (abs_store s)) (tr_compare (request e t)),
        tx_responses = map Convert_response (fst (snd (txn_branch (su_moved e) (branch (request e t) s) s)))\<rparr>"
    and "abs_store (snd (commit (su_moved e) (su_client e) t s)) = fold spec_op (branch (request e t) s) (abs_store s)"
    and "open_for e low (snd (commit (su_moved e) (su_client e) t s))"
proof -
  let ?m = "\<lparr>rq_requestid = ''txn'', rq_payload = Some (request e t), rq_asyncbackup =
    list_all GetAsyncBackupOption (thenOps t) \<and> list_all GetAsyncBackupOption (elseOps t)\<rparr>"
  let ?s' = "snd (AsyncTxn_Master (su_moved e) ''client'' ?m s)"
  have s: "kv_inv s" "ongoing s = fmempty" "\<not> backupActor_ok s \<or> rq_asyncbackup ?m"
    and healthy: "\<not> fallbreak (healthyStatus (su_client e))"
    using assms(1,3) by (auto simp: open_for_def)
  obtain u where u: "?s' = emit (SendOnTxn ''client'' \<lparr>ms_responseid = ''txn'', ms_status = SUCCESS, ms_errormsg = [],
      ms_payload = fst (snd (TryTxn (su_moved e) (request e t) s))\<rparr>) u" "sent s \<le> sent u" "backupActor_ok u = backupActor_ok s"
    using AsyncTxn_answer [OF s(1) _ assms(2) s(2,3), where moved = "su_moved e" and cl = "''client''"] by auto
  have c: "commit (su_moved e) (su_client e) t s =
      (Some (txn_result (Some (fst (snd (TryTxn (su_moved e) (request e t) s))))), ?s')"
    using healthy u(1,2)
    by (simp add: commit_def Commit_def CommitTxn_def Begin_def request_def split_beta txn_answer_def Let_def)
  then show "fst (commit (su_moved e) (su_client e) t s) =
      Some \<lparr>tx_status = Status_OK, tx_header = \<lparr>hd_clusterId = META_STORE_CLUSTER_ID, hd_revision = modRevision s\<rparr>,
        tx_success = list_all (spec_holds (abs_store s)) (tr_compare (request e t)),
        tx_responses = map Convert_response (fst (snd (txn_branch (su_moved e) (branch (request e t) s) s)))\<rparr>"
    by (simp add: txn_result_def TryTxn_answer)
  have d: "abs_store ?s' = fold spec_op (branch (request e t) s) (abs_store s)" "ongoing ?s' = fmempty"
    using AsyncTxn_direct [OF s(1) _ assms(2) s(2,3), where moved = "su_moved e"] by simp_all
  show "abs_store (snd (commit (su_moved e) (su_client e) t s)) = fold spec_op (branch (request e t) s) (abs_store s)"
    using c d(1) by simp
  show "open_for e low (snd (commit (su_moved e) (su_client e) t s))"
    using c d(2) u(1,3) assms(1) kv_inv_AsyncTxn [OF s(1), of "su_moved e" "''client''" ?m] by (simp add: open_for_def)
qed

section \<open>Branches of the operator's transactions\<close>

text \<open>The key a store entry is written under, and what the store holds there.\<close>

definition at :: "surroundings \<Rightarrow> store_info \<Rightarrow> string" where
  "at e i = etcdTablePrefix (su_client e) @ si_key i"

definition version_of :: "kv_store \<Rightarrow> string \<Rightarrow> int" where
  "version_of st k = (case st_map st k of None \<Rightarrow> 0 | Some kv \<Rightarrow> kv_version kv)"

definition keys_ok :: "surroundings \<Rightarrow> store_info list \<Rightarrow> bool" where
  "keys_ok e ks \<longleftrightarrow> ks \<noteq> [] \<and> distinct (map (at e) ks) \<and> [] \<notin> set (map (at e) ks)"

definition put_all_of :: "surroundings \<Rightarrow> store_info list \<Rightarrow> kv_store \<Rightarrow> kv_store" where
  "put_all_of e ks st = fold (\<lambda>i. spec_put (at e i) (si_value i) 0) ks st"

definition puts_of :: "surroundings \<Rightarrow> bool \<Rightarrow> store_info list \<Rightarrow> request_op list" where
  "puts_of e low ks = map (\<lambda>i. Build_operation (etcdTablePrefix (su_client e)) (put_of low i)) ks"

definition gets_of :: "surroundings \<Rightarrow> store_info list \<Rightarrow> request_op list" where
  "gets_of e ks = map (\<lambda>i. Build_operation (etcdTablePrefix (su_client e)) (get_of i)) ks"

lemma map_filter_put: "List.map_filter put_key (puts_of e low ks) = map (at e) ks"
  by (induction ks) (simp_all add: puts_of_def put_of_def at_def List.map_filter_simps)

lemma map_filter_get: "List.map_filter put_key (gets_of e ks) = []"
  by (induction ks) (simp_all add: gets_of_def get_of_def List.map_filter_simps)

lemma independent_puts: "keys_ok e ks \<Longrightarrow> independent (puts_of e low ks)"
  unfolding independent_def map_filter_put by (auto simp: keys_ok_def puts_of_def put_of_def)

lemma independent_gets: "independent (gets_of e ks)"
  unfolding independent_def map_filter_get by simp

lemma fold_puts: "fold spec_op (puts_of e low ks) st = put_all_of e ks st"
  unfolding put_all_of_def by (induction ks arbitrary: st) (simp_all add: puts_of_def put_of_def at_def)

lemma fold_gets: "fold spec_op (gets_of e ks) st = st"
  by (induction ks) (simp_all add: gets_of_def get_of_def)

definition single :: "surroundings \<Rightarrow> store_info \<Rightarrow> range_request" where
  "single e i = \<lparr>rr_key = at e i, rr_range_end = [], rr_count_only = False, rr_keys_only = False,
     rr_sort_order = NONE, rr_sort_target = SORT_KEY\<rparr>"

lemma branch_gets:
  "fst (snd (txn_branch moved (gets_of e ks) s)) = map (\<lambda>i. ResponseRange (Range (single e i) s)) ks"
proof -
  have "fold (TxnCommon moved) (gets_of e ks) (txn, resps, s) =
      (txn, resps @ map (\<lambda>i. ResponseRange (Range (single e i) s)) ks, s)" for txn resps
    by (induction ks arbitrary: resps) (simp_all add: gets_of_def get_of_def get_option_default_def single_def at_def)
  then show ?thesis by (simp add: txn_branch_def)
qed

lemma branch_puts_length: "length (fst (snd (txn_branch moved (puts_of e low ks) s))) = length ks"
proof -
  have "length (fst (snd (fold (TxnCommon moved) (puts_of e low ks) acc))) = length (fst (snd acc)) + length ks" for acc
  proof (induction ks arbitrary: acc)
    case (Cons i ks)
    obtain puts dels resps t where "acc = ((puts, dels), resps, t)" by (metis surj_pair)
    then show ?case using Cons by (simp add: puts_of_def put_of_def split_beta)
  qed (simp add: puts_of_def)
  then show ?thesis by (simp add: txn_branch_def)
qed

text \<open>The answer of a failed transaction to the read of a key.\<close>

definition read_of :: "surroundings \<Rightarrow> kv_state \<Rightarrow> store_info \<Rightarrow> txn_operation_response" where
  "read_of e s i = Convert_response (ResponseRange (Range (single e i) s))"

lemma read_of_cases:
  "read_of e s i = (case fmlookup (cache s) (at e i) of
     None \<Rightarrow> OPERATION_GET \<lparr>hd_clusterId = META_STORE_CLUSTER_ID, hd_revision = modRevision s\<rparr> 0 []
   | Some kv \<Rightarrow> OPERATION_GET \<lparr>hd_clusterId = META_STORE_CLUSTER_ID, hd_revision = modRevision s\<rparr> 1 [range_kv False (at e i) kv])"
  by (simp add: read_of_def ConvertRangeResponse_def Range_def single_def Let_def split: option.splits)

lemma holds_version:
  "spec_holds st (Build_compare (etcdTablePrefix (su_client e)) (OfVersion (si_key i) OP_EQUAL v)) \<longleftrightarrow>
     version_of st (at e i) = v"
  by (simp add: spec_holds_def compare_default_def version_of_def at_def Let_def)

text \<open>What a transaction of puts that falls back to reads does, whatever it compares.\<close>

lemma commit_puts_or_gets:
  assumes "open_for e low s" "keys_ok e ks"
    and t: "thenOps t = map (put_of low) ks" "elseOps t = map get_of ks"
    and holds: "list_all (spec_holds (abs_store s)) (tr_compare (request e t)) \<longleftrightarrow> ok"
  obtains resps s' where
    "commit (su_moved e) (su_client e) t s = (Some \<lparr>tx_status = Status_OK,
       tx_header = \<lparr>hd_clusterId = META_STORE_CLUSTER_ID, hd_revision = modRevision s\<rparr>, tx_success = ok, tx_responses = resps\<rparr>, s')"
    "abs_store s' = (if ok then put_all_of e ks (abs_store s) else abs_store s)"
    "open_for e low s'" "length resps = length ks" "\<not> ok \<Longrightarrow> resps = map (read_of e s) ks"
proof -
  have br: "branch (request e t) s = (if ok then puts_of e low ks else gets_of e ks)"
    using holds t by (simp add: spec_branch_def request_def BuildTxnRequest_def puts_of_def gets_of_def comp_def)
  have ind: "independent (branch (request e t) s)"
    unfolding br using independent_puts [OF assms(2)] independent_gets by simp
  have "low \<Longrightarrow> list_all GetAsyncBackupOption (thenOps t) \<and> list_all GetAsyncBackupOption (elseOps t)"
    by (simp add: t list_all_iff put_of_def get_of_def)
  note c = commit_open [OF assms(1) ind this]
  let ?r = "map Convert_response (fst (snd (txn_branch (su_moved e) (branch (request e t) s) s)))"
  show thesis
  proof (rule that [of ?r "snd (commit (su_moved e) (su_client e) t s)"])
    show "length ?r = length ks" by (simp add: br branch_puts_length branch_gets)
    show "?r = map (read_of e s) ks" if "\<not> ok" using that by (simp add: br branch_gets read_of_def)
  qed (use c holds in \<open>auto simp: br fold_puts fold_gets intro: prod_eqI\<close>)
qed

section \<open>Creation\<close>

text \<open>No key of the instance is taken; every key holds the value to be created.\<close>

definition all_free :: "surroundings \<Rightarrow> store_info list \<Rightarrow> kv_store \<Rightarrow> bool" where
  "all_free e ks st \<longleftrightarrow> (\<forall>k \<in> set ks. st_map st (at e k) = None)"

definition all_same :: "surroundings \<Rightarrow> store_info list \<Rightarrow> kv_store \<Rightarrow> bool" where
  "all_same e ks st \<longleftrightarrow> (\<forall>k \<in> set ks. \<exists>kv. st_map st (at e k) = Some kv \<and> kv_value kv = si_value k)"

definition answers_ok :: "outcome \<Rightarrow> bool" where
  "answers_ok r \<longleftrightarrow> (\<exists>res. r = Result res \<and> IsOk (or_status res))"

lemma result_sels [simp]:
  "IsOk (or_status (done_ok v n))" "\<not> IsOk (or_status kv_empty)" "\<not> IsOk (or_status (wrong_version kv))"
  "\<not> IsOk (or_status wrong_type)" "or_preKeyVersion (done_ok v n) = v" "or_currentModRevision (done_ok v n) = n"
  by (simp_all add: done_ok_def kv_empty_def wrong_version_def wrong_type_def result_def IsOk_def Status_OK_def)

lemma resolve_conflict_ok:
  assumes "\<And>r. mm = Some r \<Longrightarrow> \<not> IsOk (or_status r)"
  shows "IsOk (or_status (resolve_conflict (zip (map (read_of e s) ks) (map si_value ks)) mm missing n)) \<longleftrightarrow>
    mm = None \<and> \<not> missing \<and> all_same e ks (abs_store s)"
  using assms
proof (induction ks arbitrary: mm missing)
  case Nil
  then show ?case by (cases mm) (auto simp: all_same_def)
next
  case (Cons k ks)
  show ?case
    using Cons.prems Cons.IH [of mm True] Cons.IH [of mm missing]
      Cons.IH [of "Some (wrong_version (range_kv False (at e k) kv))" missing for kv]
    by (cases "fmlookup (cache s) (at e k)") (auto simp: read_of_cases [of e s k] all_same_def)
qed

lemma put_all_lookup:
  "distinct (map (at e) ks) \<Longrightarrow>
     (k \<notin> set (map (at e) ks) \<longrightarrow> st_map (put_all_of e ks st) k = st_map st k) \<and>
     (\<forall>i \<in> set ks. \<exists>kv. st_map (put_all_of e ks st) (at e i) = Some kv \<and> kv_value kv = si_value i \<and>
        kv_version kv = version_of st (at e i) + 1)"
proof (induction ks arbitrary: st k)
  case (Cons i ks)
  let ?st = "spec_put (at e i) (si_value i) 0 st"
  have st: "st_map ?st k = (if k = at e i then Some (next_kv (at e i) (si_value i) 0 st) else st_map st k)" for k
    by (simp add: spec_put_def)
  have eq: "put_all_of e (i # ks) st = put_all_of e ks ?st" by (simp add: put_all_of_def)
  have other: "k \<notin> set (map (at e) ks) \<Longrightarrow> st_map (put_all_of e ks ?st) k = st_map ?st k" for k
    using Cons.IH Cons.prems by simp
  have "\<exists>kv. st_map (put_all_of e ks ?st) (at e i) = Some kv \<and> kv_value kv = si_value i \<and> kv_version kv = version_of st (at e i) + 1"
    using other [of "at e i"] Cons.prems by (simp add: st next_kv_def version_of_def split: option.splits)
  moreover have "\<exists>kv. st_map (put_all_of e ks ?st) (at e j) = Some kv \<and> kv_value kv = si_value j \<and> kv_version kv = version_of st (at e j) + 1"
    if "j \<in> set ks" for j
  proof -
    have "at e j \<noteq> at e i" using that Cons.prems by (auto simp: image_iff)
    then have "version_of ?st (at e j) = version_of st (at e j)" by (simp add: version_of_def st)
    then show ?thesis using Cons.IH [of "[]" ?st] Cons.prems that by auto
  qed
  ultimately show ?case using other by (auto simp: eq st)
qed (simp add: put_all_of_def)

lemma put_all_same: "keys_ok e ks \<Longrightarrow> all_same e ks (put_all_of e ks st)"
  using put_all_lookup [of e ks "[]" st] by (auto simp: keys_ok_def all_same_def)

lemma version_zero: "kv_inv s \<Longrightarrow> version_of (abs_store s) k = 0 \<longleftrightarrow> fmlookup (cache s) k = None"
proof (cases "fmlookup (cache s) k")
  case (Some kv)
  assume "kv_inv s"
  then have "kv_ok (modRevision s) k kv" using Some by (rule kv_inv_cache)
  then show ?thesis using Some by (simp add: version_of_def kv_ok_def)
qed (simp add: version_of_def)

lemma create_effect:
  assumes "open_for e low s" "keys_ok e ks" "ks = keys_of i [ro]"
  obtains r s' where "Op_Create e (Some i) ro low s = (r, s')" "open_for e low s'"
    "all_free e ks (abs_store s) \<Longrightarrow> r = Result (done_ok 0 (modRevision s)) \<and> abs_store s' = put_all_of e ks (abs_store s)"
    "\<not> all_free e ks (abs_store s) \<Longrightarrow> abs_store s' = abs_store s \<and> (answers_ok r \<longleftrightarrow> all_same e ks (abs_store s))"
    "r \<noteq> Exited" "r \<noteq> Unanswered"
proof -
  have holds: "list_all (spec_holds (abs_store s)) (tr_compare (request e (create_txn low ks))) \<longleftrightarrow> all_free e ks (abs_store s)"
    using version_zero assms(1) holds_version
    by (simp add: list_all_iff request_def BuildTxnRequest_def create_txn_def all_free_def open_for_def del: Build_compare.simps)
  obtain resps s' where c: "commit (su_moved e) (su_client e) (create_txn low ks) s = (Some \<lparr>tx_status = Status_OK,
       tx_header = \<lparr>hd_clusterId = META_STORE_CLUSTER_ID, hd_revision = modRevision s\<rparr>, tx_success = all_free e ks (abs_store s),
       tx_responses = resps\<rparr>, s')"
    "abs_store s' = (if all_free e ks (abs_store s) then put_all_of e ks (abs_store s) else abs_store s)"
    "open_for e low s'" "length resps = length ks" "\<not> all_free e ks (abs_store s) \<Longrightarrow> resps = map (read_of e s) ks"
    using commit_puts_or_gets [OF assms(1,2) _ _ holds] by (auto simp: create_txn_def)
  have op: "Op_Create e (Some i) ro low s = (Result (if all_free e ks (abs_store s) then done_ok 0 (modRevision s)
      else resolve_conflict (zip resps (map si_value ks)) None False (modRevision s)), s')"
    using c(1,4) assms(3)
    by (simp add: Op_Create_def answer_def OnCreate_def ResolveCreateConflict_def IsError_def Let_def)
  show thesis
    by (rule that [OF op c(3)]) (use c resolve_conflict_ok [of None e s ks False "modRevision s"] in \<open>auto simp: answers_ok_def\<close>)
qed

text \<open>
  C36: Creating an instance is all or nothing and can be repeated. On a store that accepts writes, with
  the record and the route under two different keys: if neither key is taken both are written and
  the answer is success; otherwise nothing is written, and the answer is success exactly when every
  key already holds the value to be created. So when a creation succeeded and is sent again, because
  its answer was lost, it succeeds again and changes nothing.
\<close>

theorem create_all_or_nothing:
  assumes "open_for e low s" "keys_ok e (keys_of i [ro])"
    "Op_Create e (Some i) ro low s = (r, s')" "Op_Create e (Some i) ro low s' = (r2, s2)"
  shows "(if all_free e (keys_of i [ro]) (abs_store s)
      then answers_ok r \<and> abs_store s' = put_all_of e (keys_of i [ro]) (abs_store s)
      else abs_store s' = abs_store s \<and> (answers_ok r \<longleftrightarrow> all_same e (keys_of i [ro]) (abs_store s))) \<and>
    (answers_ok r \<longrightarrow> answers_ok r2 \<and> abs_store s2 = abs_store s')"
proof -
  let ?ks = "keys_of i [ro]"
  obtain open': "open_for e low s'"
    and free: "all_free e ?ks (abs_store s) \<Longrightarrow> r = Result (done_ok 0 (modRevision s)) \<and> abs_store s' = put_all_of e ?ks (abs_store s)"
    and taken: "\<not> all_free e ?ks (abs_store s) \<Longrightarrow> abs_store s' = abs_store s \<and> (answers_ok r \<longleftrightarrow> all_same e ?ks (abs_store s))"
    using create_effect [OF assms(1,2) refl] assms(3) by auto
  have again: "\<not> all_free e ?ks (abs_store s') \<Longrightarrow> abs_store s2 = abs_store s' \<and> (answers_ok r2 \<longleftrightarrow> all_same e ?ks (abs_store s'))"
    using create_effect [OF open' assms(2) refl] assms(4) by auto
  have ok: "answers_ok r" if "all_free e ?ks (abs_store s)" using free [OF that] by (simp add: answers_ok_def)
  have "all_same e ?ks (abs_store s')" if "answers_ok r"
    using that free taken put_all_same [OF assms(2)] by (cases "all_free e ?ks (abs_store s)") auto
  moreover have "\<not> all_free e ?ks st" if "all_same e ?ks st" for st
    using that by (auto simp: all_same_def all_free_def keys_of_def)
  ultimately show ?thesis using free taken again ok by auto
qed

definition demo_surroundings :: surroundings where
  "demo_surroundings = \<lparr>su_moved = id, su_client = MetaStoreKvClientStrategy ''svc'' 5 ''/y'', su_isCentOS = False\<rparr>"

definition demo_record :: "string \<Rightarrow> store_info" where
  "demo_record v = \<lparr>si_key = ''/inst'', si_value = v\<rparr>"

definition demo_route :: "string \<Rightarrow> store_info" where
  "demo_route v = \<lparr>si_key = ''/route'', si_value = v\<rparr>"

lemma demo_open: "open_for demo_surroundings False (demo_master False)"
  by (simp add: open_for_def demo_surroundings_def MetaStoreKvClientStrategy_def fallbreak_def IsError_def)

lemma demo_keys: "keys_ok demo_surroundings (keys_of (demo_record v) [Some (demo_route w)])"
  by (simp add: keys_ok_def keys_of_def demo_surroundings_def MetaStoreKvClientStrategy_def demo_record_def
      demo_route_def at_def List.map_filter_simps)

theorem create_all_or_nothing_witness:
  "\<exists>r s' r2 s2. Op_Create demo_surroundings (Some (demo_record ''a'')) (Some (demo_route ''b'')) False (demo_master False) = (r, s') \<and>
     answers_ok r \<and> abs_store s' = put_all_of demo_surroundings [demo_record ''a'', demo_route ''b''] (abs_store (demo_master False)) \<and>
     Op_Create demo_surroundings (Some (demo_record ''a'')) (Some (demo_route ''b'')) False s' = (r2, s2) \<and>
     answers_ok r2 \<and> abs_store s2 = abs_store s'"
proof -
  obtain r s' where c: "Op_Create demo_surroundings (Some (demo_record ''a'')) (Some (demo_route ''b'')) False (demo_master False) = (r, s')"
    by fastforce
  obtain r2 s2 where d: "Op_Create demo_surroundings (Some (demo_record ''a'')) (Some (demo_route ''b'')) False s' = (r2, s2)"
    by fastforce
  have "all_free demo_surroundings (keys_of (demo_record ''a'') [Some (demo_route ''b'')]) (abs_store (demo_master False))"
    by (simp add: all_free_def)
  then show ?thesis
    using create_all_or_nothing [OF demo_open demo_keys c d] c d by (simp add: keys_of_def List.map_filter_simps)
qed

section \<open>Modification\<close>

lemma modify_effect:
  assumes "open_for e low s" "keys_ok e (keys_of i [ro])" "Op_Modify e (Some i) ro v low s = (a, s')"
  shows "open_for e low s'"
    and "version_of (abs_store s) (at e i) = v \<Longrightarrow>
       a = Result (done_ok v (modRevision s)) \<and> abs_store s' = put_all_of e (keys_of i [ro]) (abs_store s)"
    and "version_of (abs_store s) (at e i) \<noteq> v \<Longrightarrow> abs_store s' = abs_store s \<and>
       a = Result (first_decided (zip (map (read_of e s) (keys_of i [ro])) (map si_value (keys_of i [ro]))) (done_ok 0 0))"
proof -
  let ?ks = "keys_of i [ro]" and ?ok = "version_of (abs_store s) (at e i) = v"
  have holds: "list_all (spec_holds (abs_store s)) (tr_compare (request e (modify_txn low v ?ks))) \<longleftrightarrow> ?ok"
    using holds_version by (simp add: request_def BuildTxnRequest_def modify_txn_def keys_of_def del: Build_compare.simps)
  obtain resps t where c: "commit (su_moved e) (su_client e) (modify_txn low v ?ks) s = (Some \<lparr>tx_status = Status_OK,
       tx_header = \<lparr>hd_clusterId = META_STORE_CLUSTER_ID, hd_revision = modRevision s\<rparr>, tx_success = ?ok, tx_responses = resps\<rparr>, t)"
    "abs_store t = (if ?ok then put_all_of e ?ks (abs_store s) else abs_store s)"
    "open_for e low t" "length resps = length ?ks" "\<not> ?ok \<Longrightarrow> resps = map (read_of e s) ?ks"
    using commit_puts_or_gets [OF assms(1,2) _ _ holds] by (auto simp: modify_txn_def)
  have op: "Op_Modify e (Some i) ro v low s = (Result (if ?ok then done_ok v (modRevision s)
      else first_decided (zip resps (map si_value ?ks)) (done_ok 0 0)), t)"
    using c(1,4) by (simp add: Op_Modify_def answer_def OnModify_def IsError_def Let_def)
  show "open_for e low s'" using op c(3) assms(3) by simp
  show "a = Result (done_ok v (modRevision s)) \<and> abs_store s' = put_all_of e ?ks (abs_store s)" if ?ok
    using that op c(2) assms(3) by simp
  show "abs_store s' = abs_store s \<and> a = Result (first_decided (zip (map (read_of e s) ?ks) (map si_value ?ks)) (done_ok 0 0))"
    if "\<not> ?ok" using that op c(2,5) assms(3) by simp
qed

text \<open>The answer of a refused modification whose record exists.\<close>

lemma first_decided_record:
  assumes "fmlookup (cache s) (at e i) = Some kv"
  shows "first_decided (zip (map (read_of e s) (keys_of i ros)) (map si_value (keys_of i ros))) r =
    (if si_value i = kv_value kv then done_ok 0 (modRevision s) else wrong_version (range_kv False (at e i) kv))"
  using assms by (simp add: keys_of_def read_of_cases CheckGetResponse_def)

text \<open>
  C37: Of the writers that modify an instance from the same version at most one wins. On a store that
  accepts writes and holds the record of the instance in version \<open>v\<close>: the first writer that names
  version \<open>v\<close> succeeds, and the record has its value and version \<open>v + 1\<close>. A second writer that names
  version \<open>v\<close> with another value is refused with the value the store holds, and changes nothing. The
  first writer sent again, because its answer was lost, is told that it succeeded and changes
  nothing.
\<close>

theorem one_writer_wins:
  assumes "open_for e low s" "keys_ok e (keys_of i [ro])" "keys_ok e (keys_of j [rp])"
    "si_key j = si_key i" "si_value j \<noteq> si_value i" "version_of (abs_store s) (at e i) = v"
    "Op_Modify e (Some i) ro v low s = (a, s')" "Op_Modify e (Some j) rp v low s' = (b, t)"
    "Op_Modify e (Some i) ro v low s' = (c, u)"
  shows "answers_ok a \<and> abs_store s' = put_all_of e (keys_of i [ro]) (abs_store s) \<and>
    (\<exists>kv. st_map (abs_store t) (at e i) = Some kv \<and> kv_value kv = si_value i \<and> kv_version kv = v + 1) \<and>
    (\<exists>res. b = Result res \<and> StatusCode (or_status res) = INSTANCE_TRANSACTION_WRONG_VERSION \<and> or_value res = si_value i) \<and>
    abs_store t = abs_store s' \<and> answers_ok c \<and> abs_store u = abs_store s'"
proof -
  have a: "a = Result (done_ok v (modRevision s))" "open_for e low s'"
    "abs_store s' = put_all_of e (keys_of i [ro]) (abs_store s)"
    using modify_effect [OF assms(1,2,7)] assms(6) by auto
  have ij: "at e j = at e i" using assms(4) by (simp add: at_def)
  obtain kv where kv: "fmlookup (cache s') (at e i) = Some kv" "kv_value kv = si_value i" "kv_version kv = v + 1"
  proof -
    have "i \<in> set (keys_of i [ro])" "distinct (map (at e) (keys_of i [ro]))" using assms(2) by (auto simp: keys_ok_def keys_of_def)
    then obtain kv where "st_map (abs_store s') (at e i) = Some kv" "kv_value kv = si_value i" "kv_version kv = v + 1"
      using put_all_lookup [of e "keys_of i [ro]" "[]" "abs_store s"] a(3) assms(6) by auto
    then show thesis using that by simp
  qed
  then have changed: "version_of (abs_store s') (at e i) \<noteq> v" by (simp add: version_of_def)
  have b: "abs_store t = abs_store s'" "b = Result (wrong_version (range_kv False (at e j) kv))"
    using modify_effect(3) [OF a(2) assms(3,8)] first_decided_record [of s' e j kv "[rp]"] changed assms(5) ij kv by auto
  have c: "abs_store u = abs_store s'" "answers_ok c"
    using modify_effect(3) [OF a(2) assms(2,9) changed] first_decided_record [OF kv(1), of "[ro]"] kv(2)
    by (simp_all add: answers_ok_def)
  have "answers_ok a" by (simp add: a(1) answers_ok_def)
  moreover have "\<exists>res. b = Result res \<and> StatusCode (or_status res) = INSTANCE_TRANSACTION_WRONG_VERSION \<and> or_value res = si_value i"
    using b(2) kv(2) by (simp add: wrong_version_def)
  moreover have "st_map (abs_store t) (at e i) = Some kv" using b(1) kv(1) by simp
  ultimately show ?thesis using a(3) b(1) c kv(2,3) by blast
qed

theorem one_writer_wins_witness:
  "\<exists>a s' b t. Op_Modify demo_surroundings (Some (demo_record ''a'')) (Some (demo_route ''x'')) 0 False (demo_master False) = (a, s') \<and>
     Op_Modify demo_surroundings (Some (demo_record ''b'')) (Some (demo_route ''y'')) 0 False s' = (b, t) \<and> answers_ok a \<and>
     (\<exists>res. b = Result res \<and> StatusCode (or_status res) = INSTANCE_TRANSACTION_WRONG_VERSION \<and> or_value res = ''a'')"
proof -
  obtain a s' where p: "Op_Modify demo_surroundings (Some (demo_record ''a'')) (Some (demo_route ''x'')) 0 False (demo_master False) = (a, s')"
    by fastforce
  obtain b t where q: "Op_Modify demo_surroundings (Some (demo_record ''b'')) (Some (demo_route ''y'')) 0 False s' = (b, t)"
    by fastforce
  obtain c u where w: "Op_Modify demo_surroundings (Some (demo_record ''a'')) (Some (demo_route ''x'')) 0 False s' = (c, u)"
    by fastforce
  have "version_of (abs_store (demo_master False)) (at demo_surroundings (demo_record ''a'')) = 0" by (simp add: version_of_def)
  then show ?thesis
    using one_writer_wins [OF demo_open demo_keys demo_keys _ _ _ p q w] p q by (auto simp: demo_record_def)
qed

section \<open>Two observations\<close>

text \<open>A transaction that succeeds reports the revision the store had before it, not the revision of the
  records it wrote.\<close>

theorem create_reports_old_revision:
  "\<exists>res s' kv. Op_Create demo_surroundings (Some (demo_record ''a'')) None False (demo_master False) = (Result res, s') \<and>
     IsOk (or_status res) \<and> st_map (abs_store s') ''/y/inst'' = Some kv \<and> or_currentModRevision res \<noteq> kv_mod_revision kv"
proof -
  let ?ks = "keys_of (demo_record ''a'') [None]"
  have ks: "keys_ok demo_surroundings ?ks"
    by (simp add: keys_ok_def keys_of_def demo_surroundings_def MetaStoreKvClientStrategy_def demo_record_def at_def List.map_filter_simps)
  have "all_free demo_surroundings ?ks (abs_store (demo_master False))" by (simp add: all_free_def)
  then obtain s' where op: "Op_Create demo_surroundings (Some (demo_record ''a'')) None False (demo_master False) = (Result (done_ok 0 0), s')"
    and abs: "abs_store s' = put_all_of demo_surroundings ?ks (abs_store (demo_master False))"
    using create_effect [OF demo_open ks refl] by auto
  have "st_map (abs_store s') ''/y/inst'' = Some (next_kv ''/y/inst'' ''a'' 0 (abs_store (demo_master False)))"
    unfolding abs by (simp add: put_all_of_def keys_of_def List.map_filter_simps spec_put_def at_def demo_record_def
        demo_surroundings_def MetaStoreKvClientStrategy_def)
  moreover have "kv_mod_revision (next_kv ''/y/inst'' ''a'' 0 (abs_store (demo_master False))) = 1" by (simp add: next_kv_def)
  ultimately show ?thesis using op by force
qed

text \<open>A modification that lost against another version is reported as success when the record happens to
  have the wanted value, whatever the route is.\<close>

theorem modify_hides_route_conflict:
  assumes "open_for e low s" "keys_ok e (keys_of i [Some r])" "fmlookup (cache s) (at e i) = Some kv"
    "kv_value kv = si_value i" "kv_version kv \<noteq> v" "fmlookup (cache s) (at e r) = Some kr" "kv_value kr \<noteq> si_value r"
  shows "\<exists>res s'. Op_Modify e (Some i) (Some r) v low s = (Result res, s') \<and> IsOk (or_status res) \<and> abs_store s' = abs_store s"
proof -
  obtain a s' where op: "Op_Modify e (Some i) (Some r) v low s = (a, s')" by fastforce
  have "version_of (abs_store s) (at e i) \<noteq> v" using assms(3,5) by (simp add: version_of_def)
  from modify_effect(3) [OF assms(1,2) op this] show ?thesis
    using op first_decided_record [OF assms(3), of "[Some r]"] assms(4) by simp
qed

end
