(* ===== verification/Instance_Sync.thy ===== *)
theory Instance_Sync
  imports Instance_Life Instance_Store
begin

text \<open>
  The state machine of an instance together with the meta store: the version and the state in memory
  follow the record in the store. The transition of \<open>Instance_State\<close> is run through the instance operator,
  the client and the key-value service.
\<close>

section \<open>The record of an instance\<close>

definition record_key :: "surroundings \<Rightarrow> instance_info \<Rightarrow> string option" where
  "record_key e i =
     map_option (\<lambda>k. etcdTablePrefix (su_client e) @ k) (GenInstanceKey (ii_function i) (ii_instanceid i) (ii_requestid i))"

text \<open>The store holds the version that is in the message; a new instance is not stored.\<close>

definition synced :: "surroundings \<Rightarrow> instance_info \<Rightarrow> kv_state \<Rightarrow> bool" where
  "synced e i s \<longleftrightarrow> (case record_key e i of None \<Rightarrow> False | Some k \<Rightarrow> version_of (abs_store s) k = ii_version i)"

lemma stored_keys:
  assumes "TransToStoredData env i p = Some (rec, route)" "p = PERSISTENT_ALL \<or> p = PERSISTENT_INSTANCE"
  obtains rc where "rec = Some rc" "record_key e i = Some (at e rc)" "keys_ok e (keys_of rc [route])" "info_to_json env i = Some (si_value rc)"
proof -
  obtain rc where rc: "rec = Some rc" "TransInstanceInfo env i = Some rc"
    using assms by (auto simp: TransToStoredData_def Let_def split: if_splits)
  then obtain k where k: "GenInstanceKey (ii_function i) (ii_instanceid i) (ii_requestid i) = Some k" "si_key rc = k"
    "info_to_json env i = Some (si_value rc)"
    by (auto simp: TransInstanceInfo_def split: option.splits)
  have ne: "k \<noteq> []" using k(1) by (auto simp: GenInstanceKey_def split: list.splits)
  have ne': "GenInstanceRouteKey (ii_instanceid i) \<noteq> []" by (simp add: GenInstanceRouteKey_def)
  have d: "k \<noteq> GenInstanceRouteKey (ii_instanceid i)" using keys_differ [OF k(1), of "[]"] by simp
  have "route = None \<or> (\<exists>v. route = Some \<lparr>si_key = GenInstanceRouteKey (ii_instanceid i), si_value = v\<rparr>)"
    using assms by (auto simp: TransToStoredData_def TransRouteInfo_def Let_def split: if_splits)
  then have "keys_ok e (keys_of rc [route])"
    using ne ne' d k(2) by (auto simp: keys_ok_def keys_of_def at_def List.map_filter_simps)
  moreover have "record_key e i = Some (at e rc)" using k by (simp add: record_key_def at_def)
  ultimately show thesis using that rc(1) k(3) by blast
qed

lemma open_low: "open_for e False s \<Longrightarrow> open_for e low s"
  by (simp add: open_for_def)

lemma version_after_put:
  assumes "keys_ok e (keys_of rc ros)"
  shows "version_of (put_all_of e (keys_of rc ros) st) (at e rc) = version_of st (at e rc) + 1"
    "\<exists>kv. st_map (put_all_of e (keys_of rc ros) st) (at e rc) = Some kv \<and> kv_value kv = si_value rc"
proof -
  have "rc \<in> set (keys_of rc ros)" "distinct (map (at e) (keys_of rc ros))" using assms by (auto simp: keys_ok_def keys_of_def)
  then obtain kv where "st_map (put_all_of e (keys_of rc ros) st) (at e rc) = Some kv" "kv_value kv = si_value rc"
    "kv_version kv = version_of st (at e rc) + 1"
    using put_all_lookup [of e "keys_of rc ros" "[]" st] by blast
  then show "version_of (put_all_of e (keys_of rc ros) st) (at e rc) = version_of st (at e rc) + 1"
    "\<exists>kv. st_map (put_all_of e (keys_of rc ros) st) (at e rc) = Some kv \<and> kv_value kv = si_value rc"
    by (auto simp: version_of_def)
qed

section \<open>Saves\<close>

text \<open>A write is good when a refusal changes nothing, and a success from the version the writer names
  stores the value and counts the version up.\<close>

definition good_write :: "surroundings \<Rightarrow> store_info \<Rightarrow> int \<Rightarrow> bool \<Rightarrow> kv_state \<Rightarrow> kv_state \<Rightarrow> bool" where
  "good_write e rc v ok s s' \<longleftrightarrow>
     (\<not> ok \<longrightarrow> abs_store s' = abs_store s) \<and>
     (ok \<and> version_of (abs_store s) (at e rc) = v \<longrightarrow> version_of (abs_store s') (at e rc) = v + 1 \<and>
        (\<exists>kv. st_map (abs_store s') (at e rc) = Some kv \<and> kv_value kv = si_value rc))"

lemma create_good:
  assumes "open_for e False s" "keys_ok e (keys_of rc [ro])" "Op_Create e (Some rc) ro low s = (a, s')"
  obtains res where "a = Result res" "good_write e rc 0 (IsOk (or_status res)) s s'"
proof -
  let ?ks = "keys_of rc [ro]"
  obtain a' s'' where c: "Op_Create e (Some rc) ro low s = (a', s'')"
    "all_free e ?ks (abs_store s) \<Longrightarrow> a' = Result (done_ok 0 (modRevision s)) \<and> abs_store s'' = put_all_of e ?ks (abs_store s)"
    "\<not> all_free e ?ks (abs_store s) \<Longrightarrow> abs_store s'' = abs_store s \<and> (answers_ok a' \<longleftrightarrow> all_same e ?ks (abs_store s))"
    "a' \<noteq> Exited" "a' \<noteq> Unanswered"
    using create_effect [OF open_low [OF assms(1), of low] assms(2) refl] by metis
  have a: "a = a'" "s' = s''" using c(1) assms(3) by auto
  then obtain res where res: "a = Result res" using c(4,5) by (cases a) auto
  have "version_of (abs_store s) (at e rc) = 0 \<Longrightarrow> \<not> all_same e ?ks (abs_store s)"
    using version_zero [of s "at e rc"] assms(1) by (auto simp: all_same_def open_for_def keys_of_def)
  then have "good_write e rc 0 (IsOk (or_status res)) s s'"
    using c(2,3) a res version_after_put [OF assms(2), of "abs_store s"]
    by (cases "all_free e ?ks (abs_store s)") (auto simp: good_write_def answers_ok_def)
  then show thesis using that res by blast
qed

lemma modify_good:
  assumes "open_for e False s" "keys_ok e (keys_of rc [ro])" "Op_Modify e (Some rc) ro v low s = (a, s')"
  obtains res where "a = Result res" "good_write e rc v (IsOk (or_status res)) s s'"
proof (cases "version_of (abs_store s) (at e rc) = v")
  case True
  then show thesis
    using that modify_effect(2) [OF open_low [OF assms(1)] assms(2,3) True] version_after_put [OF assms(2), of "abs_store s"]
    by (auto simp: good_write_def)
next
  case False
  then show thesis
    using that modify_effect(3) [OF open_low [OF assms(1)] assms(2,3) False] by (auto simp: good_write_def)
qed

text \<open>A record that is created has version 0 before: the writer names version 0, except from the state
  \<open>NEW\<close>, where that is a condition.\<close>

definition names_first :: "save_job \<Rightarrow> bool" where
  "names_first job \<longleftrightarrow> (sj_oldState job = IS_NEW \<longrightarrow> tc_version (sj_context job) = 0)"

lemma first_is_zero:
  "IsFirstPersistence env i (sj_oldState job) (tc_version (sj_context job)) \<Longrightarrow> names_first job \<Longrightarrow> tc_version (sj_context job) = 0"
  by (auto simp: IsFirstPersistence_def IsInitialLowReliabilityRunningPersistence_def names_first_def split: if_splits)

definition good_save :: "surroundings \<Rightarrow> machine_env \<Rightarrow> save_job \<Rightarrow> transition_result \<Rightarrow> kv_state \<Rightarrow> kv_state \<Rightarrow> bool" where
  "good_save e env job r s s' \<longleftrightarrow>
     (\<not> IsOk (tr_status r) \<longrightarrow> abs_store s' = abs_store s) \<and>
     (IsOk (tr_status r) \<and> names_first job \<longrightarrow> (\<forall>k. record_key e (sj_new job) = Some k \<longrightarrow>
        version_of (abs_store s) k = tc_version (sj_context job) \<longrightarrow> version_of (abs_store s') k = tc_version (sj_context job) + 1 \<and>
        (\<exists>kv. st_map (abs_store s') k = Some kv \<and> info_to_json env (sj_new job) = Some (kv_value kv))))"

lemma persistence_types: "GetPersistenceType env i b \<noteq> PERSISTENT_NOT \<Longrightarrow>
    GetPersistenceType env i b = PERSISTENT_ALL \<or> GetPersistenceType env i b = PERSISTENT_INSTANCE"
  by (auto simp: GetPersistenceType_def Let_def split: if_splits)

lemma OnCreated_status:
  assumes "OnCreated env b job res m = (x, m')"
  shows "x = Some r \<Longrightarrow> IsOk (tr_status r) \<longleftrightarrow> IsOk (or_status res)" "x = None \<Longrightarrow> \<not> IsOk (or_status res)"
  using assms by (auto simp: OnCreated_def Let_def accepted_def not_saved_def split: if_splits)

lemma Resolve_status: "tr_status (ResolveInitialLowReliabilityCreateConflict env job st route) = st"
  by (simp add: ResolveInitialLowReliabilityCreateConflict_def Let_def not_saved_def split: option.splits)

lemma OnModified_status: "OnModified env job res m = (r, m') \<Longrightarrow> IsOk (tr_status r) \<longleftrightarrow> IsOk (or_status res)"
  by (auto simp: OnModified_def Let_def accepted_def not_saved_def split: if_splits)

lemma invalid_status: "\<not> IsOk (tr_status (not_saved i prev (Status ERR_INSTANCE_INFO_INVALID [])))"
  by (simp add: not_saved_def IsOk_def)

lemma save_effect:
  assumes "open_for e False s" "GetPersistenceType env (sj_new job) (isMetaStoreEnable m) \<noteq> PERSISTENT_NOT"
    "save_through e env job m s = (o', m', s')"
  shows "\<exists>r. o' = Some r \<and> context_opt m' = context_opt m \<and> good_save e env job r s s'"
proof (cases "TransToStoredData env (sj_new job) (GetPersistenceType env (sj_new job) (isMetaStoreEnable m))")
  case None
  then show ?thesis
    using assms(3) invalid_status by (auto simp: save_through_def SaveInstanceInfoToMetaStore_def good_save_def)
next
  case (Some p)
  obtain rec ro where p: "p = (rec, ro)" by (cases p)
  obtain rc where rc: "rec = Some rc" "record_key e (sj_new job) = Some (at e rc)" "keys_ok e (keys_of rc [ro])"
    "info_to_json env (sj_new job) = Some (si_value rc)"
    using stored_keys [OF Some [unfolded p] persistence_types [OF assms(2)], of e] by metis
  let ?v = "tc_version (sj_context job)" and ?low = "low_of env (sj_new job)"
  let ?first = "IsFirstPersistence env (sj_new job) (sj_oldState job) ?v"
  have good: "good_save e env job r s t" if "good_write e rc (if ?first then 0 else ?v) (IsOk (tr_status r)) s t" for r t
    using that rc(2,4) first_is_zero by (auto simp: good_save_def good_write_def split: if_splits)
  show ?thesis
  proof (cases ?first)
    case True
    obtain a t where op: "Op_Create e (Some rc) ro ?low s = (a, t)" by fastforce
    obtain res where res: "a = Result res" "good_write e rc 0 (IsOk (or_status res)) s t"
      using create_good [OF assms(1) rc(3) op] .
    let ?b = "IsInitialLowReliabilityRunningPersistence env (sj_new job) (sj_oldState job) ?v"
    obtain x n where x: "OnCreated env ?b job res m = (x, n)" by fastforce
    show ?thesis
      using assms(3) Some p rc(1) True op res x good OnCreated_status [OF x] answers_keep_context(1) [OF x]
      by (cases x) (auto simp: save_through_def SaveInstanceInfoToMetaStore_def Let_def Resolve_status)
  next
    case False
    obtain a t where op: "Op_Modify e (Some rc) ro ?v ?low s = (a, t)" by fastforce
    obtain res where res: "a = Result res" "good_write e rc ?v (IsOk (or_status res)) s t"
      using modify_good [OF assms(1) rc(3) op] .
    obtain r n where x: "OnModified env job res m = (r, n)" by fastforce
    show ?thesis
      using assms(3) Some p rc(1) False op res x good OnModified_status [OF x] answers_keep_context(2) [OF x]
      by (auto simp: save_through_def SaveInstanceInfoToMetaStore_def Let_def)
  qed
qed

section \<open>Transitions\<close>

definition same_record :: "instance_info \<Rightarrow> instance_info \<Rightarrow> bool" where
  "same_record i j \<longleftrightarrow> ii_function i = ii_function j \<and> ii_instanceid i = ii_instanceid j \<and> ii_requestid i = ii_requestid j"

text \<open>The caller passes a request for the record of the machine, in the version of the machine, and names that version.\<close>

definition own_request :: "trans_context \<Rightarrow> instance_context \<Rightarrow> bool" where
  "own_request tc cx \<longleftrightarrow> tc_version tc = ii_version (cx_info cx) \<and>
     (case scheduleReq tc of
        None \<Rightarrow> False
      | Some req \<Rightarrow> same_record (sq_instance req) (cx_info cx) \<and> ii_version (sq_instance req) = ii_version (cx_info cx))"

lemma same_record_key: "same_record i j \<Longrightarrow> record_key e i = record_key e j"
  by (simp add: same_record_def record_key_def)

lemma prepared_request:
  assumes "PrepareTransitionInfo env stamp tc cx = (tc', cx', i, prev)" "scheduleReq tc = Some req"
  shows "cx' = cx" "tc_version tc' = tc_version tc" "tc_persistence tc' = tc_persistence tc" "newState tc' = newState tc"
    "same_record i (sq_instance req)" "ii_version i = ii_version (sq_instance req)"
    "\<exists>req'. scheduleReq tc' = Some req' \<and> sq_instance req' = i"
    "is_code (ii_status i) = code_of (newState tc)"
  using assms by (auto simp: PrepareTransitionInfo_def Let_def with_status_def paused_info_def same_record_def)

lemma persistence_same:
  "ii_status i = ii_status j \<Longrightarrow> ii_createoptions i = ii_createoptions j \<Longrightarrow> GetPersistenceType env i b = GetPersistenceType env j b"
  by (simp add: GetPersistenceType_def info_state_def low_of_def IsLowReliabilityInstance_def Let_def)

text \<open>What a transition with a request of its own leaves to be saved, and what it does without a save.\<close>

definition job_for :: "machine_env \<Rightarrow> instance_context \<Rightarrow> instance_machine \<Rightarrow> trans_context \<Rightarrow> save_job \<Rightarrow> bool" where
  "job_for env cx m tc job \<longleftrightarrow> sj_oldState job = cx_state cx \<and> tc_version (sj_context job) = tc_version tc \<and>
     same_record (sj_new job) (cx_info cx) \<and> ii_version (sj_new job) = tc_version tc + 1 \<and>
     is_code (ii_status (sj_new job)) = code_of (newState tc) \<and>
     GetPersistenceType env (sj_new job) (isMetaStoreEnable m) \<noteq> PERSISTENT_NOT \<and>
     (\<exists>req. scheduleReq (sj_context job) = Some req \<and> same_record (sq_instance req) (cx_info cx) \<and>
        ii_version (sq_instance req) = tc_version tc + 1 \<and> is_code (ii_status (sq_instance req)) = code_of (newState tc))"

lemma change_state_request:
  assumes "change_state env stamp tc b cx n = (out, m')" "own_request tc cx"
  shows "out = Saving job \<Longrightarrow> context_opt m' = Some cx \<and> job_for env cx m' tc job"
    and "out = Finished r \<Longrightarrow> IsOk (tr_status r) \<and>
      (\<exists>cx'. context_opt m' = Some cx' \<and> same_record (cx_info cx') (cx_info cx) \<and> ii_version (cx_info cx') = ii_version (cx_info cx))"
proof -
  obtain req where req: "scheduleReq tc = Some req" "same_record (sq_instance req) (cx_info cx)"
    "ii_version (sq_instance req) = ii_version (cx_info cx)" "tc_version tc = ii_version (cx_info cx)"
    using assms(2) by (auto simp: own_request_def split: option.splits)
  obtain tc1 cx1 i prev where p: "PrepareTransitionInfo env stamp tc cx = (tc1, cx1, i, prev)" by (metis prod_cases4)
  note pr = prepared_request [OF p req(1)]
  obtain req1 where r1: "scheduleReq tc1 = Some req1" "sq_instance req1 = i" using pr(7) by blast
  show "IsOk (tr_status r) \<and>
      (\<exists>cx'. context_opt m' = Some cx' \<and> same_record (cx_info cx') (cx_info cx) \<and> ii_version (cx_info cx') = ii_version (cx_info cx))"
    if "out = Finished r"
    using that assms(1) p pr r1 req
    by (auto simp: change_state_def UpdateInstanceVersion_def Let_def accepted_def same_record_def split: if_splits)
  show "context_opt m' = Some cx \<and> job_for env cx m' tc job" if "out = Saving job"
  proof -
    have n: "GetPersistenceType env i (isMetaStoreEnable n) \<noteq> PERSISTENT_NOT"
      using that assms(1) p by (auto simp: change_state_def Let_def split: if_splits)
    define j where "j = (let j = i\<lparr>ii_version := tc_version tc + 1\<rparr>;
        j = (if low_of env j \<or> newState tc = IS_FATAL then j\<lparr>ii_args := []\<rparr> else j)
      in j\<lparr>ii_extensions := fmupd ''updateTimestamp'' stamp (ii_extensions j)\<rparr>)"
    have j: "same_record j i" "ii_version j = tc_version tc + 1" "ii_status j = ii_status i" "ii_createoptions j = ii_createoptions i"
      by (simp_all add: j_def Let_def same_record_def)
    have "sj_new job = j" "sj_oldState job = cx_state cx" "context_opt m' = Some cx" "isMetaStoreEnable m' = isMetaStoreEnable n"
      "tc_version (sj_context job) = tc_version tc"
      "scheduleReq (sj_context job) = Some (req1\<lparr>sq_instance := i\<lparr>ii_version := tc_version tc + 1\<rparr>\<rparr>)"
      using that assms(1) p n pr(1-4) r1
      by (auto simp: change_state_def UpdateInstanceVersion_def Let_def j_def NewSavingPomise_def split: if_splits)
    then show ?thesis
      using j n pr(5,8) req(2) persistence_same [OF j(3,4)] by (simp add: job_for_def same_record_def)
  qed
qed

lemma TransitionTo_request:
  assumes "TransitionTo env stamp tc m = (out, m')" "context_opt m = Some cx" "own_request tc cx"
  shows "out = Saving job \<Longrightarrow> context_opt m' = Some cx \<and> job_for env cx m' tc job"
    and "out = Finished r \<Longrightarrow> (\<exists>cx'. context_opt m' = Some cx' \<and> same_record (cx_info cx') (cx_info cx) \<and>
      ii_version (cx_info cx') = ii_version (cx_info cx)) \<and> (\<not> IsOk (tr_status r) \<longrightarrow> context_opt m' = Some cx)"
proof -
  obtain x n where v: "VerifyTransitionState tc (cx_state cx) m = (x, n)" by fastforce
  have ways: "context_opt m' = Some cx \<and> (\<exists>r. out = Finished r) \<or> (\<exists>b n. change_state env stamp tc b cx n = (out, m'))"
    using assms(1,2) v verify_accepts(1) [OF v] by (auto simp: TransitionTo_def Let_def split: if_splits)
  show "context_opt m' = Some cx \<and> job_for env cx m' tc job" if "out = Saving job"
    using that ways change_state_request(1) [OF _ assms(3)] by blast
  show "(\<exists>cx'. context_opt m' = Some cx' \<and> same_record (cx_info cx') (cx_info cx) \<and>
      ii_version (cx_info cx') = ii_version (cx_info cx)) \<and> (\<not> IsOk (tr_status r) \<longrightarrow> context_opt m' = Some cx)"
    if "out = Finished r"
  proof (cases "context_opt m' = Some cx")
    case False
    then show ?thesis using that ways change_state_request(2) [OF _ assms(3)] by blast
  qed (simp add: same_record_def)
qed

lemma persisted_context:
  assumes "context_opt n = Some cx" "job_for env cx m tc job"
  obtains cx' where "context_opt (OnPersisted job r n) = Some cx'" "\<not> IsOk (tr_status r) \<Longrightarrow> cx' = cx"
    "same_record (cx_info cx') (cx_info cx)"
    "IsOk (tr_status r) \<Longrightarrow> ii_version (cx_info cx') = tc_version tc + 1 \<and> is_code (ii_status (cx_info cx')) = code_of (newState tc)"
  using assms by (cases "IsOk (tr_status r)") (auto simp: OnPersisted_def job_for_def same_record_def)

text \<open>
  C38: The machine follows the store. A caller passes its own copy of the request of the instance, in the
  version of the machine, to a transition, on a store that accepts writes. Then the transition is
  answered. When it is refused, by the machine, by a conversion or by the store, the instance in
  memory and the store are as before. When it writes to the store, the instance in memory has the new
  state and the version counted up by one. And when the record in the store had the version that is
  in memory, it has the version that is in memory afterwards too; if something was written, it is the
  message in the new state and version. (A new instance has version 0.)
\<close>

theorem machine_follows_store:
  assumes "open_for e False s" "context_opt m = Some cx" "own_request tc cx" "run_transition e env stamp tc m s = (out, m', s')"
  shows "\<exists>r cx'. out = Some r \<and> context_opt m' = Some cx' \<and> same_record (cx_info cx') (cx_info cx) \<and>
    (\<not> IsOk (tr_status r) \<longrightarrow> cx' = cx \<and> abs_store s' = abs_store s) \<and>
    (abs_store s' \<noteq> abs_store s \<longrightarrow> ii_version (cx_info cx') = ii_version (cx_info cx) + 1 \<and>
       is_code (ii_status (cx_info cx')) = code_of (newState tc)) \<and>
    (synced e (cx_info cx) s \<and> (cx_state cx = IS_NEW \<longrightarrow> ii_version (cx_info cx) = 0) \<longrightarrow>
       synced e (cx_info cx') s' \<and>
       (abs_store s' \<noteq> abs_store s \<longrightarrow> (\<exists>k kv i. record_key e (cx_info cx') = Some k \<and> st_map (abs_store s') k = Some kv \<and>
          info_to_json env i = Some (kv_value kv) \<and> ii_version i = ii_version (cx_info cx') \<and>
          is_code (ii_status i) = code_of (newState tc))))"
proof -
  obtain x n where t: "TransitionTo env stamp tc m = (x, n)" by fastforce
  have v: "tc_version tc = ii_version (cx_info cx)" using assms(3) by (simp add: own_request_def)
  show ?thesis
  proof (cases x)
    case (Finished r)
    then have eq: "out = Some r" "m' = n" "s' = s" using assms(4) t by (simp_all add: run_transition_def)
    obtain cx' where c: "context_opt n = Some cx'" "same_record (cx_info cx') (cx_info cx)"
      "ii_version (cx_info cx') = ii_version (cx_info cx)" "\<not> IsOk (tr_status r) \<longrightarrow> cx' = cx"
      using TransitionTo_request(2) [OF t assms(2,3) Finished] by auto
    have "synced e (cx_info cx') s \<longleftrightarrow> synced e (cx_info cx) s" using same_record_key [OF c(2), of e] c(3) by (simp add: synced_def split: option.splits)
    then show ?thesis using eq c by simp
  next
    case (Saving job)
    have j: "context_opt n = Some cx" "job_for env cx n tc job" using TransitionTo_request(1) [OF t assms(2,3) Saving] by auto
    obtain y k s2 where sv: "save_through e env job n s = (y, k, s2)" by (metis prod_cases3)
    obtain r where r: "y = Some r" "context_opt k = Some cx" "good_save e env job r s s2"
      using save_effect [OF assms(1) _ sv] j by (auto simp: job_for_def)
    have eq: "out = Some r" "m' = OnPersisted job r k" "s' = s2" using assms(4) t Saving sv r(1) by (simp_all add: run_transition_def)
    obtain cx' where c: "context_opt m' = Some cx'" "\<not> IsOk (tr_status r) \<Longrightarrow> cx' = cx" "same_record (cx_info cx') (cx_info cx)"
      "IsOk (tr_status r) \<Longrightarrow> ii_version (cx_info cx') = tc_version tc + 1 \<and> is_code (ii_status (cx_info cx')) = code_of (newState tc)"
      using persisted_context [OF r(2) j(2)] eq(2) by metis
    have new: "record_key e (sj_new job) = record_key e (cx_info cx)" "record_key e (cx_info cx') = record_key e (cx_info cx)"
      "sj_oldState job = cx_state cx" "tc_version (sj_context job) = tc_version tc" "ii_version (sj_new job) = tc_version tc + 1"
      "is_code (ii_status (sj_new job)) = code_of (newState tc)"
      using j(2) same_record_key c(3) by (auto simp: job_for_def)
    show ?thesis
    proof (cases "IsOk (tr_status r)")
      case False
      then show ?thesis using eq c r(3) by (simp add: good_save_def synced_def split: option.splits)
    next
      case True
      have "synced e (cx_info cx) s \<and> (cx_state cx = IS_NEW \<longrightarrow> ii_version (cx_info cx) = 0) \<Longrightarrow>
          synced e (cx_info cx') s' \<and> (\<exists>k kv. record_key e (cx_info cx') = Some k \<and> st_map (abs_store s') k = Some kv \<and>
            info_to_json env (sj_new job) = Some (kv_value kv))"
        using r(3) True new v c(4) eq(3) by (auto simp: good_save_def names_first_def synced_def split: option.splits)
      then show ?thesis using eq c new v True by metis
    qed
  qed
qed

definition demo_cx :: instance_context where
  "demo_cx = \<lparr>scheduleRequest = \<lparr>sq_requestid = ''r'', sq_instance = demo_info\<rparr>, cx_modRevision = 0\<rparr>"

definition demo_context :: trans_context where
  "demo_context = to_state IS_SCHEDULING 0 (Some \<lparr>sq_requestid = ''r'', sq_instance = demo_info\<rparr>)"

definition demo_stored_env :: machine_env where
  "demo_stored_env = demo_env\<lparr>directRouting := False\<rparr>"

lemma demo_context_ok:
  "context_opt demo_machine = Some demo_cx" "own_request demo_context demo_cx" "cx_state demo_cx = IS_NEW"
  "ii_version (cx_info demo_cx) = 0" "synced demo_surroundings (cx_info demo_cx) (demo_master False)"
  by (simp_all add: demo_defs demo_cx_def demo_context_def own_request_def same_record_def synced_def record_key_def GenInstanceKey_def
      version_of_def)

theorem machine_follows_store_witness:
  "\<exists>r m' s' cx'. run_transition demo_surroundings demo_stored_env ''0'' demo_context demo_machine (demo_master False) = (Some r, m', s') \<and>
     context_opt m' = Some cx' \<and> same_record (cx_info cx') demo_info \<and> synced demo_surroundings (cx_info cx') s'"
proof -
  obtain out m' s' where t: "run_transition demo_surroundings demo_stored_env ''0'' demo_context demo_machine (demo_master False) = (out, m', s')"
    by (metis prod_cases3)
  have "cx_info demo_cx = demo_info" by (simp add: demo_cx_def cx_info_def)
  then show ?thesis
    using machine_follows_store [OF demo_open demo_context_ok(1,2) t] demo_context_ok(3-5) t by metis
qed

end
