(* ===== verification/Lru_Cache.thy ===== *)
theory Lru_Cache
  imports FS_Prelude
begin

text \<open>
  The cache of bounded size (\<^verbatim>\<open>src/functionsystem/src/common/lru/lru_cache.h\<close>). As in the code it has a
  list of nodes, the most recently used first, and a map from keys to nodes. A node has an address,
  which stands for the list iterator that the map holds; a node keeps it when it is moved. The
  eviction callback is a log of what it is called with; what it throws is swallowed by the code. The
  references that the reads give out are the values they refer to.
\<close>

section \<open>The cache\<close>

record ('k, 'v) lru =
  member_capacity :: nat
  member_list :: "(nat \<times> 'k \<times> 'v) list"
  member_map :: "('k, nat) fmap"
  next_node :: nat
  evicted :: "('k \<times> 'v) list"

text \<open>The constructor throws for a capacity of zero.\<close>

definition LruCache :: "nat \<Rightarrow> ('k, 'v) lru option" where
  "LruCache capacity =
     (if capacity = 0 then None
      else Some \<lparr>member_capacity = capacity, member_list = [], member_map = fmempty, next_node = 0, evicted = []\<rparr>)"

text \<open>\<^verbatim>\<open>splice\<close> of one node to the front, and access through an iterator.\<close>

definition splice_front :: "nat \<Rightarrow> (nat \<times> 'a) list \<Rightarrow> (nat \<times> 'a) list" where
  "splice_front a xs = filter (\<lambda>n. fst n = a) xs @ filter (\<lambda>n. fst n \<noteq> a) xs"

definition set_second :: "nat \<Rightarrow> 'v \<Rightarrow> (nat \<times> 'k \<times> 'v) list \<Rightarrow> (nat \<times> 'k \<times> 'v) list" where
  "set_second a v xs = map (\<lambda>(b, k, w). if b = a then (b, k, v) else (b, k, w)) xs"

definition second_at :: "nat \<Rightarrow> (nat \<times> 'k \<times> 'v) list \<Rightarrow> 'v option" where
  "second_at a xs = map_option snd (map_of xs a)"

definition EvictLru :: "('k, 'v) lru \<Rightarrow> ('k, 'v) lru" where
  "EvictLru c =
     (let (_, evictedKey, evictedValue) = last (member_list c)
      in c\<lparr>member_map := fmdrop evictedKey (member_map c), member_list := butlast (member_list c),
           evicted := evicted c @ [(evictedKey, evictedValue)]\<rparr>)"

definition Lru_Put :: "'k \<Rightarrow> 'v \<Rightarrow> ('k, 'v) lru \<Rightarrow> bool \<times> ('k, 'v) lru" where
  "Lru_Put key val c =
     (case fmlookup (member_map c) key of
        Some it \<Rightarrow> (False, c\<lparr>member_list := splice_front it (set_second it val (member_list c))\<rparr>)
      | None \<Rightarrow>
          let c = (if length (member_list c) \<ge> member_capacity c then EvictLru c else c)
          in (True, c\<lparr>member_list := (next_node c, key, val) # member_list c,
                      member_map := fmupd key (next_node c) (member_map c), next_node := next_node c + 1\<rparr>))"

definition Lru_Get :: "'k \<Rightarrow> ('k, 'v) lru \<Rightarrow> 'v option \<times> ('k, 'v) lru" where
  "Lru_Get key c =
     (case fmlookup (member_map c) key of
        None \<Rightarrow> (None, c)
      | Some it \<Rightarrow> (second_at it (member_list c), c\<lparr>member_list := splice_front it (member_list c)\<rparr>))"

definition Lru_Contains :: "'k \<Rightarrow> ('k, 'v) lru \<Rightarrow> bool" where
  "Lru_Contains key c \<longleftrightarrow> fmlookup (member_map c) key \<noteq> None"

definition Lru_Peek :: "'k \<Rightarrow> ('k, 'v) lru \<Rightarrow> 'v option" where
  "Lru_Peek key c =
     (case fmlookup (member_map c) key of None \<Rightarrow> None | Some it \<Rightarrow> second_at it (member_list c))"

definition Lru_Remove :: "'k \<Rightarrow> ('k, 'v) lru \<Rightarrow> bool \<times> ('k, 'v) lru" where
  "Lru_Remove key c =
     (case fmlookup (member_map c) key of
        None \<Rightarrow> (False, c)
      | Some it \<Rightarrow>
          (True, c\<lparr>member_list := filter (\<lambda>n. fst n \<noteq> it) (member_list c), member_map := fmdrop key (member_map c)\<rparr>))"

definition Lru_Clear :: "('k, 'v) lru \<Rightarrow> ('k, 'v) lru" where
  "Lru_Clear c = c\<lparr>member_list := [], member_map := fmempty\<rparr>"

definition Lru_Size :: "('k, 'v) lru \<Rightarrow> nat" where
  "Lru_Size c = fcard (fmdom (member_map c))"

definition Lru_Capacity :: "('k, 'v) lru \<Rightarrow> nat" where
  "Lru_Capacity c = member_capacity c"

text \<open>A use of the cache is a sequence of the operations that change it.\<close>

datatype ('k, 'v) lru_op = OpPut 'k 'v | OpGet 'k | OpRemove 'k | OpClear

fun lru_step :: "('k, 'v) lru_op \<Rightarrow> ('k, 'v) lru \<Rightarrow> ('k, 'v) lru" where
  "lru_step (OpPut k v) c = snd (Lru_Put k v c)"
| "lru_step (OpGet k) c = snd (Lru_Get k c)"
| "lru_step (OpRemove k) c = snd (Lru_Remove k c)"
| "lru_step OpClear c = Lru_Clear c"

section \<open>The reference: one list of entries\<close>

text \<open>The reference has no nodes and no map: a list of keys and values by last use.\<close>

definition others :: "'k \<Rightarrow> ('k \<times> 'v) list \<Rightarrow> ('k \<times> 'v) list" where
  "others k es = filter (\<lambda>e. fst e \<noteq> k) es"

fun ref_step :: "nat \<Rightarrow> ('k, 'v) lru_op \<Rightarrow> ('k \<times> 'v) list \<Rightarrow> ('k \<times> 'v) list" where
  "ref_step n (OpPut k v) es = (k, v) # take (n - 1) (others k es)"
| "ref_step n (OpGet k) es = (case map_of es k of None \<Rightarrow> es | Some v \<Rightarrow> (k, v) # others k es)"
| "ref_step n (OpRemove k) es = others k es"
| "ref_step n OpClear es = []"

definition entries :: "('k, 'v) lru \<Rightarrow> ('k \<times> 'v) list" where
  "entries c = map snd (member_list c)"

text \<open>The map names exactly the nodes of the list, which have different addresses and keys.\<close>

definition lru_inv :: "('k, 'v) lru \<Rightarrow> bool" where
  "lru_inv c \<longleftrightarrow> 0 < member_capacity c \<and> length (member_list c) \<le> member_capacity c \<and>
     distinct (map fst (member_list c)) \<and> distinct (map fst (entries c)) \<and>
     (\<forall>n \<in> set (member_list c). fst n < next_node c) \<and>
     (\<forall>k a. fmlookup (member_map c) k = Some a \<longleftrightarrow> (\<exists>v. (a, k, v) \<in> set (member_list c)))"

lemma lru_found:
  assumes "lru_inv c" "fmlookup (member_map c) k = Some a"
  obtains xs v ys where "member_list c = xs @ (a, k, v) # ys" "a \<notin> fst ` set (xs @ ys)" "k \<notin> (fst \<circ> snd) ` set (xs @ ys)"
proof -
  obtain v where "(a, k, v) \<in> set (member_list c)" using assms by (auto simp: lru_inv_def)
  then obtain xs ys where l: "member_list c = xs @ (a, k, v) # ys" by (meson split_list)
  have "distinct (map fst (xs @ (a, k, v) # ys))" "distinct (map fst (map snd (xs @ (a, k, v) # ys)))"
    using assms(1) unfolding lru_inv_def entries_def l by blast+
  then show thesis by (intro that [OF l]) (auto simp: image_iff)
qed

lemma lru_missing:
  assumes "lru_inv c" "fmlookup (member_map c) k = None"
  shows "k \<notin> fst ` set (entries c)"
proof
  assume "k \<in> fst ` set (entries c)"
  then obtain a v where "(a, k, v) \<in> set (member_list c)" by (auto simp: entries_def)
  then have "fmlookup (member_map c) k = Some a" using assms(1) by (auto simp: lru_inv_def)
  then show False using assms(2) by simp
qed

lemma filter_key:
  "a \<notin> f ` set xs \<Longrightarrow> filter (\<lambda>n. f n = a) xs = []"
  "a \<notin> f ` set xs \<Longrightarrow> filter (\<lambda>n. f n \<noteq> a) xs = xs"
  by (induction xs) auto

lemma map_of_key: "a \<notin> fst ` set (xs @ ys) \<Longrightarrow> map_of (xs @ (a, z) # ys) a = Some z"
  by (induction xs) auto

lemma splice_front_split:
  "a \<notin> fst ` set (xs @ ys) \<Longrightarrow> splice_front a (xs @ (a, z) # ys) = (a, z) # xs @ ys"
  using filter_key [of a fst xs] filter_key [of a fst ys] by (simp add: splice_front_def image_Un)

lemma set_second_split:
  "a \<notin> fst ` set (xs @ ys) \<Longrightarrow> set_second a w (xs @ (a, k, v) # ys) = xs @ (a, k, w) # ys"
  by (force simp: set_second_def intro!: map_idI)

lemma drop_node_split: "a \<notin> fst ` set (xs @ ys) \<Longrightarrow> filter (\<lambda>n. fst n \<noteq> a) (xs @ (a, z) # ys) = xs @ ys"
  using filter_key [of a fst xs] filter_key [of a fst ys] by (simp add: image_Un)

lemma second_at_split: "a \<notin> fst ` set (xs @ ys) \<Longrightarrow> second_at a (xs @ (a, k, v) # ys) = Some v"
  using map_of_key by (fastforce simp: second_at_def)

lemma others_split: "k \<notin> (fst \<circ> snd) ` set (xs @ ys) \<Longrightarrow> others k (map snd (xs @ (a, k, v) # ys)) = map snd (xs @ ys)"
  using filter_key [of k fst "map snd xs"] filter_key [of k fst "map snd ys"]
  by (simp add: others_def image_Un image_image)

lemma others_absent: "k \<notin> fst ` set es \<Longrightarrow> others k es = es"
  by (simp add: others_def filter_key)

lemma map_of_split: "k \<notin> (fst \<circ> snd) ` set (xs @ ys) \<Longrightarrow> map_of (map snd (xs @ (a, k, v) # ys)) k = Some v"
  using map_of_key [of k "map snd xs" "map snd ys"] by (simp add: image_Un image_image)

text \<open>Moving a node to the front, with a new value, and taking a node out keep the invariant.\<close>

lemma inv_to_front:
  assumes "lru_inv c" "member_list c = xs @ (a, k, v) # ys"
  shows "lru_inv (c\<lparr>member_list := (a, k, w) # xs @ ys\<rparr>)"
  using assms unfolding lru_inv_def entries_def by (auto simp: image_iff)

lemma inv_remove:
  assumes "lru_inv c" "member_list c = xs @ (a, k, v) # ys"
  shows "lru_inv (c\<lparr>member_list := xs @ ys, member_map := fmdrop k (member_map c), evicted := l\<rparr>)"
  using assms unfolding lru_inv_def entries_def by (auto simp: image_iff)

lemma inv_insert:
  assumes "lru_inv c" "k \<notin> fst ` set (entries c)" "length (member_list c) < member_capacity c"
  shows "lru_inv (c\<lparr>member_list := (next_node c, k, v) # member_list c, member_map := fmupd k (next_node c) (member_map c),
     next_node := next_node c + 1\<rparr>)"
  using assms unfolding lru_inv_def entries_def by (auto simp: image_iff less_Suc_eq)

section \<open>The cache implements the reference\<close>

text \<open>An insertion of a new key in a full cache takes out the last node first.\<close>

lemma evict_inv:
  assumes "lru_inv c" "length (member_list c) \<ge> member_capacity c"
  shows "lru_inv (EvictLru c)" "entries (EvictLru c) = butlast (entries c)"
    "length (member_list (EvictLru c)) < member_capacity (EvictLru c)" "next_node (EvictLru c) = next_node c"
proof -
  have ne: "member_list c \<noteq> []" "length (member_list c) = member_capacity c" "0 < member_capacity c" using assms by (auto simp: lru_inv_def)
  obtain a k v where l: "last (member_list c) = (a, k, v)" by (cases "last (member_list c)")
  then have m: "member_list c = butlast (member_list c) @ (a, k, v) # []" using ne by (metis append_butlast_last_id)
  have "EvictLru c = c\<lparr>member_list := butlast (member_list c) @ [], member_map := fmdrop k (member_map c),
      evicted := evicted c @ [(k, v)]\<rparr>"
    using l by (simp add: EvictLru_def)
  then show "lru_inv (EvictLru c)" "entries (EvictLru c) = butlast (entries c)" "next_node (EvictLru c) = next_node c"
    "length (member_list (EvictLru c)) < member_capacity (EvictLru c)"
    using inv_remove [OF assms(1) m] ne by (auto simp: entries_def map_butlast)
qed

definition implements :: "nat \<Rightarrow> ('k, 'v) lru \<Rightarrow> ('k \<times> 'v) list \<Rightarrow> bool" where
  "implements n c es \<longleftrightarrow> lru_inv c \<and> member_capacity c = n \<and> entries c = es"

lemma step_found:
  assumes "lru_inv c" "fmlookup (member_map c) k = Some a"
  shows "implements (member_capacity c) (snd (Lru_Put k v c)) (ref_step (member_capacity c) (OpPut k v) (entries c))"
    and "implements (member_capacity c) (snd (Lru_Get k c)) (ref_step (member_capacity c) (OpGet k) (entries c))"
    and "implements (member_capacity c) (snd (Lru_Remove k c)) (ref_step (member_capacity c) (OpRemove k) (entries c))"
    and "Lru_Peek k c = map_of (entries c) k"
proof -
  obtain xs w ys where l: "member_list c = xs @ (a, k, w) # ys" "a \<notin> fst ` set (xs @ ys)" "k \<notin> (fst \<circ> snd) ` set (xs @ ys)"
    using lru_found [OF assms] .
  have n: "length (xs @ ys) \<le> member_capacity c - 1" using assms(1) l(1) by (auto simp: lru_inv_def)
  have o: "others k (entries c) = map snd (xs @ ys)" and f: "map_of (entries c) k = Some w"
    unfolding entries_def l(1) using others_split [OF l(3)] map_of_split [OF l(3)] by blast+
  show "implements (member_capacity c) (snd (Lru_Put k v c)) (ref_step (member_capacity c) (OpPut k v) (entries c))"
    using assms(2) o n inv_to_front [OF assms(1) l(1), of v]
    by (simp add: implements_def Lru_Put_def l(1) set_second_split [OF l(2)] splice_front_split [OF l(2)] entries_def)
  show "implements (member_capacity c) (snd (Lru_Get k c)) (ref_step (member_capacity c) (OpGet k) (entries c))"
    using assms(2) o f inv_to_front [OF assms(1) l(1), of w]
    by (simp add: implements_def Lru_Get_def l(1) splice_front_split [OF l(2)] entries_def)
  show "implements (member_capacity c) (snd (Lru_Remove k c)) (ref_step (member_capacity c) (OpRemove k) (entries c))"
    using assms(2) o inv_remove [OF assms(1) l(1), of "evicted c"]
    by (simp add: implements_def Lru_Remove_def l(1) drop_node_split [OF l(2)] entries_def del: filter_append)
  show "Lru_Peek k c = map_of (entries c) k"
    using assms(2) f by (simp add: Lru_Peek_def l(1) second_at_split [OF l(2)])
qed

lemma step_missing:
  assumes "lru_inv c" "fmlookup (member_map c) k = None"
  shows "implements (member_capacity c) (snd (Lru_Put k v c)) (ref_step (member_capacity c) (OpPut k v) (entries c))"
    and "implements (member_capacity c) (snd (Lru_Get k c)) (ref_step (member_capacity c) (OpGet k) (entries c))"
    and "implements (member_capacity c) (snd (Lru_Remove k c)) (ref_step (member_capacity c) (OpRemove k) (entries c))"
    and "Lru_Peek k c = map_of (entries c) k"
proof -
  have k: "k \<notin> fst ` set (entries c)" "map_of (entries c) k = None"
    using lru_missing [OF assms] by (auto simp: map_of_eq_None_iff)
  let ?d = "if length (member_list c) \<ge> member_capacity c then EvictLru c else c"
  have d: "lru_inv ?d" "length (member_list ?d) < member_capacity ?d" "member_capacity ?d = member_capacity c"
    using evict_inv [OF assms(1)] assms(1) by (auto simp: EvictLru_def Let_def split: prod.splits)
  have e: "entries ?d = take (member_capacity c - 1) (entries c)"
    using evict_inv(2) [OF assms(1)] assms(1) by (auto simp: butlast_conv_take entries_def lru_inv_def not_le)
  then have "k \<notin> fst ` set (entries ?d)" using k(1) set_take_subset by fastforce
  from inv_insert [OF d(1) this d(2), of v] e d(3)
  show "implements (member_capacity c) (snd (Lru_Put k v c)) (ref_step (member_capacity c) (OpPut k v) (entries c))"
    using assms(2) by (simp add: implements_def Lru_Put_def Let_def others_absent [OF k(1), unfolded entries_def] entries_def split del: if_split)
  show "implements (member_capacity c) (snd (Lru_Get k c)) (ref_step (member_capacity c) (OpGet k) (entries c))"
    "implements (member_capacity c) (snd (Lru_Remove k c)) (ref_step (member_capacity c) (OpRemove k) (entries c))"
    "Lru_Peek k c = map_of (entries c) k"
    using assms k by (simp_all add: implements_def Lru_Get_def Lru_Remove_def Lru_Peek_def others_absent)
qed

lemma step_implements:
  assumes "implements n c es"
  shows "implements n (lru_step x c) (ref_step n x es)"
proof -
  have c: "lru_inv c" "n = member_capacity c" "es = entries c" using assms by (auto simp: implements_def)
  show ?thesis
  proof (cases x)
    case (OpPut k v) then show ?thesis using step_found(1) step_missing(1) c by (cases "fmlookup (member_map c) k") fastforce+
  next
    case (OpGet k) then show ?thesis using step_found(2) step_missing(2) c by (cases "fmlookup (member_map c) k") fastforce+
  next
    case (OpRemove k) then show ?thesis using step_found(3) step_missing(3) c by (cases "fmlookup (member_map c) k") fastforce+
  next
    case OpClear then show ?thesis using c by (simp add: implements_def Lru_Clear_def entries_def lru_inv_def)
  qed
qed

lemma run_implements: "implements n c es \<Longrightarrow> implements n (fold lru_step xs c) (fold (ref_step n) xs es)"
  by (induction xs arbitrary: c es) (auto intro: step_implements)

lemma LruCache_implements: "LruCache n = Some c \<Longrightarrow> implements n c []"
  by (auto simp: LruCache_def implements_def lru_inv_def entries_def split: if_splits)

lemma implements_size:
  assumes "implements n c es"
  shows "Lru_Size c = length es" "length es \<le> n" "Lru_Peek k c = map_of es k" "distinct (map fst es)"
proof -
  have c: "lru_inv c" "n = member_capacity c" "es = entries c" using assms by (auto simp: implements_def)
  have "fset (fmdom (member_map c)) = fst ` set es"
    using c by (auto simp: lru_inv_def entries_def fmlookup_dom_iff image_iff) force+
  then have "Lru_Size c = card (set (map fst es))" by (simp add: Lru_Size_def fcard.rep_eq)
  also have "\<dots> = length es" using c distinct_card [of "map fst es"] by (simp add: lru_inv_def)
  finally show "Lru_Size c = length es" .
  show "length es \<le> n" "distinct (map fst es)" using c by (auto simp: lru_inv_def entries_def)
  show "Lru_Peek k c = map_of es k"
    using step_found(4) [OF c(1)] step_missing(4) [OF c(1)] c(3) by (cases "fmlookup (member_map c) k") auto
qed

section \<open>What stays in the cache\<close>

text \<open>The keys an operation uses, and the operations that neither overwrite nor remove the entry of a key.\<close>

fun used_keys :: "('k, 'v) lru_op \<Rightarrow> 'k set" where
  "used_keys (OpPut k v) = {k}"
| "used_keys (OpGet k) = {k}"
| "used_keys (OpRemove k) = {}"
| "used_keys OpClear = {}"

lemma finite_used_keys [simp]: "finite (used_keys x)"
  by (cases x) auto

fun spares :: "'k \<Rightarrow> ('k, 'v) lru_op \<Rightarrow> bool" where
  "spares k (OpPut j v) \<longleftrightarrow> j \<noteq> k"
| "spares k (OpGet j) \<longleftrightarrow> True"
| "spares k (OpRemove j) \<longleftrightarrow> j \<noteq> k"
| "spares k OpClear \<longleftrightarrow> False"

text \<open>Only entries of keys in \<open>U\<close> stand before the entry of \<open>k\<close>.\<close>

definition behind :: "'k \<Rightarrow> 'v \<Rightarrow> 'k set \<Rightarrow> ('k \<times> 'v) list \<Rightarrow> bool" where
  "behind k v U es \<longleftrightarrow> distinct (map fst es) \<and> (\<exists>pre post. es = pre @ (k, v) # post \<and> fst ` set pre \<subseteq> U)"

lemma distinct_others: "distinct (map fst es) \<Longrightarrow> distinct (map fst (others j es)) \<and> j \<notin> fst ` set (others j es)"
  by (auto simp: others_def distinct_map inj_on_def)

lemma behind_others:
  assumes "behind k v U es" "j \<noteq> k"
  shows "behind k v U (others j es)"
proof -
  obtain pre post where p: "es = pre @ (k, v) # post" "fst ` set pre \<subseteq> U" "distinct (map fst es)"
    using assms(1) by (auto simp: behind_def)
  then have "others j es = others j pre @ (k, v) # others j post" "fst ` set (others j pre) \<subseteq> U"
    using assms(2) by (auto simp: others_def)
  then show ?thesis using distinct_others [OF p(3), of j] by (auto simp: behind_def)
qed

lemma behind_cons:
  assumes "behind k v U (others j es)" "j \<noteq> k" "distinct (map fst es)"
  shows "behind k v (insert j U) ((j, w) # others j es)"
proof -
  obtain pre post where p: "others j es = pre @ (k, v) # post" "fst ` set pre \<subseteq> U" using assms(1) by (auto simp: behind_def)
  then have "(j, w) # others j es = ((j, w) # pre) @ (k, v) # post" "fst ` set ((j, w) # pre) \<subseteq> insert j U" by auto
  moreover have "distinct (map fst ((j, w) # others j es))" using distinct_others [OF assms(3), of j] by simp
  ultimately show ?thesis unfolding behind_def by blast
qed

lemma behind_take:
  assumes "behind k v U es" "finite U" "card U < n" "k \<notin> U"
  shows "behind k v U (take n es)"
proof -
  obtain pre post where p: "es = pre @ (k, v) # post" "fst ` set pre \<subseteq> U" "distinct (map fst es)"
    using assms(1) by (auto simp: behind_def)
  then have "length pre = card (fst ` set pre)" using distinct_card [of "map fst pre"] by simp
  also have "\<dots> \<le> card U" using p(2) assms(2) by (rule card_mono [rotated])
  finally have "take n es = pre @ (k, v) # take (n - length pre - 1) post"
    using assms(3) p(1) by (cases "n - length pre") auto
  moreover have "distinct (map fst (take n es))" using p(3) by (simp add: take_map [symmetric])
  ultimately show ?thesis using p(2) by (auto simp: behind_def)
qed

lemma behind_map_of: "behind k v U es \<Longrightarrow> map_of es k = Some v"
  by (auto simp: behind_def map_of_key simp del: map_of_append)

lemma behind_mono: "behind k v U es \<Longrightarrow> U \<subseteq> V \<Longrightarrow> behind k v V es"
  by (auto simp: behind_def)

lemma ref_step_keeps:
  assumes "behind k v U es" "spares k x" "finite U" "card (U \<union> (used_keys x - {k})) < n" "k \<notin> U"
  shows "behind k v (U \<union> (used_keys x - {k})) (ref_step n x es)"
proof (cases x)
  case (OpPut j w)
  then have j: "j \<noteq> k" using assms(2) by simp
  have d: "distinct (map fst es)" using assms(1) by (simp add: behind_def)
  have "behind k v (insert j U) (take n ((j, w) # others j es))"
    by (rule behind_take) (use behind_cons [OF behind_others [OF assms(1) j] j d] assms OpPut j in \<open>auto simp: insert_Diff_if\<close>)
  then show ?thesis using OpPut j assms(4) by (cases n) (auto simp: insert_Diff_if)
next
  case (OpGet j)
  have d: "distinct (map fst es)" using assms(1) by (simp add: behind_def)
  show ?thesis
  proof (cases "j = k")
    case True
    then have "map_of es j = Some v" using behind_map_of [OF assms(1)] by simp
    moreover have "behind k v U ([] @ (k, v) # others k es)" unfolding behind_def using distinct_others [OF d, of k] by fastforce
    ultimately show ?thesis using OpGet True by simp
  next
    case False
    have "behind k v (insert j U) es" by (rule behind_mono [OF assms(1)]) auto
    then show ?thesis
      using False OpGet behind_cons [OF behind_others [OF assms(1) False] False d]
      by (auto simp: insert_Diff_if split: option.splits)
  qed
qed (use assms behind_others in auto)

lemma ref_run_keeps:
  "behind k v U es \<Longrightarrow> list_all (spares k) xs \<Longrightarrow> finite U \<Longrightarrow> k \<notin> U \<Longrightarrow>
     card (U \<union> (\<Union> (used_keys ` set xs) - {k})) < n \<Longrightarrow>
     behind k v (U \<union> (\<Union> (used_keys ` set xs) - {k})) (fold (ref_step n) xs es)"
proof (induction xs arbitrary: U es)
  case (Cons x xs)
  let ?V = "U \<union> (used_keys x - {k})" and ?W = "U \<union> (\<Union> (used_keys ` set (x # xs)) - {k})"
  have "card ?V \<le> card ?W" by (rule card_mono) (use Cons.prems(3) in auto)
  then have "behind k v ?V (ref_step n x es)" using ref_step_keeps [of k v U es x n] Cons.prems by simp
  moreover have eq: "?V \<union> (\<Union> (used_keys ` set xs) - {k}) = ?W" by auto
  ultimately show ?case using Cons.IH [of ?V "ref_step n x es"] Cons.prems unfolding eq by simp
qed simp

text \<open>
  C40: The cache never holds more entries than its capacity and keeps the entries used last. After any
  sequence of operations on a new cache its size is at most its capacity, which stays the one it was
  made with, and its entries are those of the reference list, in the order of their last use. An
  entry that was put is found, with its value, after any operations that do not overwrite or remove
  it and use fewer other keys than the capacity; how often they use them does not matter.
\<close>

theorem lru_bounded:
  assumes "LruCache n = Some c" "list_all (spares k) later" "card (\<Union> (used_keys ` set later) - {k}) < n"
    "d = fold lru_step (earlier @ OpPut k v # later) c"
  shows "Lru_Size (fold lru_step earlier c) \<le> n \<and> Lru_Size d \<le> n \<and> Lru_Capacity d = n \<and>
    entries d = fold (ref_step n) (earlier @ OpPut k v # later) [] \<and> Lru_Peek k d = Some v"
proof -
  note run = run_implements [OF LruCache_implements [OF assms(1)]]
  have e: "implements n (fold lru_step earlier c) (fold (ref_step n) earlier [])" by (rule run)
  have d: "implements n d (fold (ref_step n) (earlier @ OpPut k v # later) [])" unfolding assms(4) by (rule run)
  define es where "es = ref_step n (OpPut k v) (fold (ref_step n) earlier [])"
  have "distinct (map fst es)"
    using implements_size(4) [OF step_implements [OF e, of "OpPut k v"]] by (simp add: es_def)
  then have "behind k v {} es" by (auto simp: behind_def es_def)
  then have "behind k v (\<Union> (used_keys ` set later) - {k}) (fold (ref_step n) later es)"
    using ref_run_keeps [of k v "{}" es later n] assms(2,3) by simp
  then have "map_of (fold (ref_step n) later es) k = Some v" by (rule behind_map_of)
  then show ?thesis
    using implements_size [OF e] implements_size [OF d] d
    by (auto simp: implements_def Lru_Capacity_def es_def)
qed

definition demo_earlier :: "(string, int) lru_op list" where
  "demo_earlier = [OpPut ''a'' 1, OpPut ''b'' 2]"

definition demo_later :: "(string, int) lru_op list" where
  "demo_later = [OpGet ''b'', OpPut ''b'' 4, OpGet ''k'', OpRemove ''a'']"

lemma demo_later_ok: "list_all (spares ''k'') demo_later" "card (\<Union> (used_keys ` set demo_later) - {''k''}) < 2"
  by (simp_all add: demo_later_def insert_Diff_if)

theorem lru_bounded_witness:
  "\<exists>c d. LruCache 2 = Some c \<and> d = fold lru_step (demo_earlier @ OpPut ''k'' 3 # demo_later) c \<and>
     Lru_Size d \<le> 2 \<and> Lru_Peek ''k'' d = Some 3 \<and> entries d = [(''k'', 3), (''b'', 4)]"
proof -
  define c :: "(string, int) lru" where
    "c = \<lparr>member_capacity = 2, member_list = [], member_map = fmempty, next_node = 0, evicted = []\<rparr>"
  have c: "LruCache 2 = Some c" by (simp add: LruCache_def c_def)
  have "fold (ref_step 2) (demo_earlier @ OpPut ''k'' 3 # demo_later) [] = [(''k'', 3), (''b'', 4)]"
    by (simp add: demo_earlier_def demo_later_def others_def)
  then show ?thesis using lru_bounded [OF c demo_later_ok refl, of demo_earlier 3] c by metis
qed

end
