(* ===== verification/Spec2Isabelle.thy ===== *)
theory Spec2Isabelle
  imports Kv_Replica Watch_Push Backup_Mirror Meta_Store Sched_Actor_Correct Instance_Sync Lru_Cache
begin

text \<open>
  Verification of the openYuanrong function system. Paths below are relative to
  \<^verbatim>\<open>src/functionsystem/src\<close> unless they start with \<^verbatim>\<open>src/\<close>.

  \<^bold>\<open>The program.\<close> The function system runs function instances on a cluster. All its parts keep their
  records in the meta store (\<^verbatim>\<open>meta_store/server\<close>), an etcd-like key-value store made of actors: an
  accessor takes the messages of clients, the key-value service keeps the records, the lease
  service removes records whose lease expired, the watch service reports changes, and the backup
  actor writes everything to a persistent store, from which a new leader recovers. Clients reach it
  through the client library (\<^verbatim>\<open>meta_store/client\<close>). On each node a function proxy drives the state
  machine of every instance and saves each change through the instance operator. Requests for new
  instances wait in the queues of the scheduler (\<^verbatim>\<open>common/schedule_decision\<close>).

  \<^bold>\<open>Conventions.\<close> An actor is a record of its fields; a handler is a function from the state, and its
  arguments, to a result and the next state. Messages an actor sends are appended to an outbox or
  mailbox of the state, so that the order of sending is visible. A promise is a number or an entry of
  a log; a continuation is a definition of its own that takes the state as it is when the answer
  arrives. Time, random identifiers and the answers of other processes are arguments. Maps are
  finite maps; an unordered map is visited in the order of its keys. Errors are status values or
  \<open>None\<close> where the code throws. Machine integers are \<open>int\<close> with the wrap-around written out
  (\<open>wrap64\<close>) where the code can reach it. Protobuf encoding and JSON, the cryptographic digest,
  sizes in bytes and the performers of the scheduler are code outside the sources or not modelled; they are
  parameters, and a theorem that needs something of them has it as a hypothesis, with a witness.

  \<^bold>\<open>Theories and what they show.\<close>

  \<^item> \<open>FS_Prelude\<close>, \<open>Std_Numbers\<close>: status values, containers, \<^verbatim>\<open>std::sort\<close> over a strict weak order (the
    locale \<open>strict_weak_order\<close>), numbers and their texts.

  \<^item> \<open>Kv_Types\<close>, \<open>Kv_Service\<close>, \<open>Kv_Replication\<close>: messages and every operation of
    \<^verbatim>\<open>kv_service_actor.cpp\<close>. \<open>Kv_Invariant\<close> and \<open>Kv_Machine\<close>: the invariant of the records and the
    service as a transition system in which requests, answers of the backup and changes of leader come
    in any order. \<open>Kv_Spec\<close>, \<open>Kv_Correct\<close>: an abstract store, and that the service implements it; a
    write is visible exactly when it is backed up; conflicting writes are refused; a failed backup
    changes nothing. \<open>Kv_Reads\<close>: ranges, deletes and reads after writes are exact. \<open>Kv_Runs\<close>: what holds
    in all runs, that revisions do not go back, and runs in which an acknowledged write is lost.
    \<open>Kv_Replica\<close>: recovery and replay make a follower equal to the backup.

  \<^item> \<open>Kv_Accessor\<close> (\<^verbatim>\<open>kv_service_accessor_actor.cpp\<close>): a request is in service once at a time.

  \<^item> \<open>Lease_Service\<close>, \<open>Lease_Correct\<close> (\<^verbatim>\<open>lease_service_actor.cpp\<close>): exactly the expired leases are revoked, a
    renewed lease survives, and an overflow of the time to live.

  \<^item> \<open>Watch_Service\<close>, \<open>Watch_Correct\<close>, \<open>Watch_Push\<close> (\<^verbatim>\<open>watch_service_actor.cpp\<close>,
    \<^verbatim>\<open>watch_service_async_push_actor.cpp\<close>): an event reaches exactly the watchers concerned, cancelling is
    exact, only superseded events are dropped, and no event waits without a push on its way.

  \<^item> \<open>Backup_Actor\<close>, \<open>Backup_Correct\<close>, \<open>Backup_Mirror\<close> (\<^verbatim>\<open>backup_actor.cpp\<close>): the internal work ends, every
    promise is answered, and the transactions have the effect of the writes in their order (the locale
    \<open>write_through\<close>).

  \<^item> \<open>Meta_Store\<close>: the actors together; an expired lease removes its records and notifies their
    watchers.

  \<^item> \<open>Retry_Helper\<close> (\<^verbatim>\<open>common/utils/request_sync_helper.h\<close>) and \<open>Kv_Client\<close> (\<^verbatim>\<open>meta_store/client\<close>): every request is
    settled, also when timers and answers interleave; an unhealthy service is answered for at once.

  \<^item> \<open>Instance_Operator\<close>, \<open>Instance_Store\<close> (\<^verbatim>\<open>common/meta_store_adapter/instance_operator.cpp\<close>): transactions
    on the record and the route of an instance, run through the client and the key-value service;
    creation is all or nothing, and of two writers from one version one wins.

  \<^item> \<open>Instance_Types\<close>, \<open>Instance_State\<close>, \<open>Instance_Life\<close>, \<open>Instance_Sync\<close>
    (\<^verbatim>\<open>function_proxy/common/state_machine\<close>, \<^verbatim>\<open>common/types/instance_state.h\<close>, \<^verbatim>\<open>common/metadata\<close>): the state machine of an
    instance. In every interleaving its state is one of the transition table; composed with operator,
    client and store, memory and store keep the same version and a refused change leaves both.

  \<^item> \<open>Sched_Types\<close>, \<open>Sched_Queue\<close>, \<open>Priority_Scheduler\<close>, \<open>Scheduler_Correct\<close>, \<open>Sched_Fairness\<close>, \<open>Sched_Actor\<close>,
    \<open>Sched_Actor_Correct\<close> (\<^verbatim>\<open>common/schedule_decision\<close>): the queues serve their items in the specified
    order (the locale \<open>served_in_order\<close>, interpreted for both queues), a round settles every request, a
    suspended request is not overtaken, and no request is stranded.

  \<^item> \<open>Lru_Cache\<close> (\<^verbatim>\<open>common/lru/lru_cache.h\<close>): nodes and map implement one list ordered by last use, and
    the capacity is never exceeded.

  \<^bold>\<open>Bounds and termination.\<close> Functions recurse structurally or with a measure, except in three places. Serving a queue until it is empty has
    fuel, the number of its items, which is enough because each step takes one item. The round of the
    scheduler is a partial function of type option, and it is proved to return. The internal messages
    of the backup actor are steps of a relation, and every sequence of them is proved to end.

  \<^bold>\<open>Simplifications.\<close> The waiting times of retry timers do not matter: an armed timer may expire at any moment. A
  request passed to the state machine is a copy of the caller, as the sharing of pointers is not
  modelled; version numbers are not taken to reach the limit of 64 bits. A save of the state machine composed with the store
  (\<open>run_transition\<close>) is one step; interleavings are covered by \<open>life\<close>, where the answers are
  arbitrary.

  \<^bold>\<open>Not modelled.\<close> The pass-through actors and gRPC front ends of the meta store, which only forward; the
  watches, leases and elections of the client library; the aggregated queue; the scheduling plugins,
  performers and the resource view, whose decisions rest on floating-point amounts; the domain scheduler and its
  topology; the managers of the function master; the routing and runtime control of the function
  proxy, the function agent, the runtime manager and the IAM server, which are mostly calls of other
  processes, of the operating system and of libraries; the setters of fields that no modelled operation
  of the state machine reads; logging, metrics and transport; tools and scripts.
\<close>

end
